(* ===== verification/Prelude.thy ===== *)
theory Prelude
  imports Main "HOL-Library.Word" "HOL-Library.AList" "HOL-Library.Multiset"
begin

text \<open>
  Shared vocabulary of the development: Go's basic types, the parts of the Go standard library
  the modelled code uses (package \<open>strings\<close>, \<open>fmt\<close>, ranging over slices and maps, the
  \<open>error\<close> result), and the generic lemmas the components rest on.

  Conventions.
  \<^item> A Go \<open>string\<close> is a byte string: \<^typ>\<open>string\<close>. A \<open>nil\<close>-able pointer is an \<open>option\<close>.
  \<^item> A Go \<open>error\<close> result is an \<open>option\<close> (\<open>None\<close> is \<open>nil\<close>); a pair \<open>(value, error)\<close> of which
    exactly one is meaningful is a sum (\<open>Inl\<close> the error).
  \<^item> \<open>uint64\<close> and \<open>int64\<close> are \<open>64 word\<close>; \<open>+\<close> and \<open>-\<close> wrap, \<open>int64\<close> comparisons go through \<open>sint\<close>.
  \<^item> A Go \<open>map\<close> that the code ranges over is an association list with distinct keys. Its
    iteration order is unspecified in Go, so every operation that ranges over a map takes the order
    as an argument, a \<open>range_order\<close>: a function that permutes the entries.
  \<^item> Log output is not part of any model.
\<close>

named_theorems go_defs "definitions of the Go library functions"
named_theorems lookup_laws "how lookups see updates"

type_synonym uint64 = "64 word"
type_synonym int64 = "64 word"
type_synonym time = int
type_synonym ('k, 'v) gomap = "('k \<times> 'v) list"

text \<open>Times are nanoseconds; \<open>time.Time{}\<close> is the first instant of the year 1.\<close>

definition time_Zero :: time where
  "time_Zero = -62135596800000000000"

definition go_Minute :: int where
  "go_Minute = 60000000000"

definition go_Day :: int where
  "go_Day = 24 * 60 * go_Minute"

subsection \<open>Package strings and fmt\<close>

fun strings_Contains :: "string \<Rightarrow> string \<Rightarrow> bool" where
  "strings_Contains [] sub = (sub = [])"
| "strings_Contains (c # s) sub = (take (length sub) (c # s) = sub \<or> strings_Contains s sub)"

definition strings_HasPrefix :: "string \<Rightarrow> string \<Rightarrow> bool" where
  "strings_HasPrefix s p \<longleftrightarrow> take (length p) s = p"

definition char_ToLower :: "char \<Rightarrow> char" where
  "char_ToLower c = (let n = (of_char c :: nat) in if 65 \<le> n \<and> n \<le> 90 then char_of (n + 32) else c)"

definition strings_ToLower :: "string \<Rightarrow> string" where
  "strings_ToLower s = map char_ToLower s"

fun strings_Join :: "string list \<Rightarrow> string \<Rightarrow> string" where
  "strings_Join [] sep = []"
| "strings_Join [s] sep = s"
| "strings_Join (s # ss) sep = s @ sep @ strings_Join ss sep"

text \<open>\<open>%d\<close> of a non-negative integer.\<close>

fun string_of_nat :: "nat \<Rightarrow> string" where
  "string_of_nat n =
     (if n < 10 then [char_of (48 + n)] else string_of_nat (n div 10) @ [char_of (48 + n mod 10)])"

declare string_of_nat.simps [simp del]

text \<open>\<open>%d\<close> of any integer.\<close>

definition string_of_int :: "int \<Rightarrow> string" where
  "string_of_int i = (if i < 0 then CHR ''-'' # string_of_nat (nat (- i)) else string_of_nat (nat i))"

text \<open>\<open>strings.Split\<close> at a one-byte separator, and \<open>strings.TrimSpace\<close> on ASCII text.\<close>

fun strings_Split :: "string \<Rightarrow> char \<Rightarrow> string list" where
  "strings_Split [] d = [[]]"
| "strings_Split (c # s) d =
    (if c = d then [] # strings_Split s d
     else (case strings_Split s d of p # ps \<Rightarrow> (c # p) # ps | [] \<Rightarrow> [[c]]))"

definition is_space :: "char \<Rightarrow> bool" where
  "is_space c \<longleftrightarrow> (let n = (of_char c :: nat) in n = 32 \<or> 9 \<le> n \<and> n \<le> 13)"

definition strings_TrimSpace :: "string \<Rightarrow> string" where
  "strings_TrimSpace s = rev (dropWhile is_space (rev (dropWhile is_space s)))"

text \<open>
  \<open>%q\<close>: the string in double quotes, with the escapes of \<open>strconv.Quote\<close>. Bytes from 128 up are
  copied, which is what happens to printable UTF-8 text.
\<close>

definition hex_digit :: "nat \<Rightarrow> char" where
  "hex_digit n = (if n < 10 then char_of (48 + n) else char_of (87 + n))"

definition quote_char :: "char \<Rightarrow> string" where
  "quote_char c =
     (let n = (of_char c :: nat) in
      if n = 34 then [CHR 0x5C, CHR 0x22]
      else if n = 92 then [CHR 0x5C, CHR 0x5C]
      else if n = 7 then [CHR 0x5C, CHR ''a'']
      else if n = 8 then [CHR 0x5C, CHR ''b'']
      else if n = 12 then [CHR 0x5C, CHR ''f'']
      else if n = 10 then [CHR 0x5C, CHR ''n'']
      else if n = 13 then [CHR 0x5C, CHR ''r'']
      else if n = 9 then [CHR 0x5C, CHR ''t'']
      else if n = 11 then [CHR 0x5C, CHR ''v'']
      else if n < 32 \<or> n = 127 then [CHR 0x5C, CHR ''x'', hex_digit (n div 16), hex_digit (n mod 16)]
      else [c])"

definition squote :: "string \<Rightarrow> string" where
  "squote s = CHR 0x27 # s @ [CHR 0x27]"

definition strconv_Quote :: "string \<Rightarrow> string" where
  "strconv_Quote s = CHR 0x22 # concat (map quote_char s) @ [CHR 0x22]"

text \<open>Numbers are printed injectively: the text can be read back.\<close>

definition nat_of_string :: "string \<Rightarrow> nat" where
  "nat_of_string s = foldl (\<lambda>n c. 10 * n + (of_char c - 48)) 0 s"

lemma nat_of_string_of_nat [simp]: "nat_of_string (string_of_nat n) = n"
proof (induction n rule: string_of_nat.induct)
  case (1 n)
  have d: "of_char (char_of (48 + k)) - (48 :: nat) = k" if "k < 10" for k
    using that by (simp add: of_char_of)
  show ?case
  proof (cases "n < 10")
    case True
    then show ?thesis by (simp add: string_of_nat.simps [of n] nat_of_string_def d)
  next
    case False
    then have "nat_of_string (string_of_nat (n div 10)) = n div 10" by (rule 1)
    with False show ?thesis by (simp add: string_of_nat.simps [of n] nat_of_string_def d)
  qed
qed

lemma string_of_nat_digit: "c \<in> set (string_of_nat n) \<Longrightarrow> (48 :: nat) \<le> of_char c \<and> of_char c \<le> (57 :: nat)"
proof (induction n arbitrary: c rule: string_of_nat.induct)
  case (1 n)
  then show ?case
    by (subst (asm) (2) string_of_nat.simps) (auto simp: of_char_of split: if_splits)
qed

lemma string_of_nat_inject [simp]: "string_of_nat m = string_of_nat n \<longleftrightarrow> m = n"
  by (metis nat_of_string_of_nat)

lemma string_of_int_inject [simp]: "string_of_int i = string_of_int j \<longleftrightarrow> i = j"
proof -
  have "CHR ''-'' \<notin> set (string_of_nat n)" for n
    using string_of_nat_digit [of "CHR ''-''" n] by auto
  then have "CHR ''-'' # xs \<noteq> string_of_nat n" "string_of_nat n \<noteq> CHR ''-'' # xs" for n xs
    by (metis list.set_intros(1))+
  then show ?thesis by (auto simp: string_of_int_def)
qed

text \<open>\<open>strconv.Atoi\<close>: an optional sign and at least one digit, with a value that fits \<open>int64\<close>.\<close>

definition is_digit :: "char \<Rightarrow> bool" where
  "is_digit c \<longleftrightarrow> (48 :: nat) \<le> of_char c \<and> of_char c \<le> (57 :: nat)"

definition strconv_Atoi :: "string \<Rightarrow> int option" where
  "strconv_Atoi s =
    (let signed = s \<noteq> [] \<and> (hd s = CHR ''-'' \<or> hd s = CHR ''+''); ds = (if signed then tl s else s);
         v = (if signed \<and> hd s = CHR ''-'' then - int (nat_of_string ds) else int (nat_of_string ds))
     in if ds \<noteq> [] \<and> list_all is_digit ds \<and> - (2 ^ 63) \<le> v \<and> v < 2 ^ 63 then Some v else None)"

lemma string_of_nat_nonempty [simp]: "string_of_nat n \<noteq> []"
  by (subst string_of_nat.simps) simp

lemma strconv_Atoi_string_of_nat: "n < 2 ^ 63 \<Longrightarrow> strconv_Atoi (string_of_nat n) = Some (int n)"
proof -
  assume "n < 2 ^ 63"
  then have lt: "int n < 2 ^ 63" by simp
  have digits: "list_all is_digit (string_of_nat n)"
    using string_of_nat_digit by (auto simp: list_all_iff is_digit_def)
  have "hd (string_of_nat n) \<in> set (string_of_nat n)" by simp
  then have "is_digit (hd (string_of_nat n))" using digits by (simp add: list_all_iff)
  then have "hd (string_of_nat n) \<noteq> CHR ''-''" "hd (string_of_nat n) \<noteq> CHR ''+''" by (auto simp: is_digit_def)
  then show ?thesis using digits lt by (simp add: strconv_Atoi_def)
qed

lemma strings_Split_nonempty [simp]: "strings_Split s d \<noteq> []"
  by (induction s) (auto split: list.split)

lemma take_eq_prefix: "take (length p) s = p \<longleftrightarrow> (\<exists>v. s = p @ v)"
  by (metis append_eq_conv_conj)

lemma strings_Contains_iff: "strings_Contains s sub \<longleftrightarrow> (\<exists>u v. s = u @ sub @ v)"
proof (induction s)
  case Nil
  then show ?case by auto
next
  case (Cons c s)
  have "strings_Contains (c # s) sub \<longleftrightarrow> (\<exists>v. c # s = sub @ v) \<or> (\<exists>u v. s = u @ sub @ v)"
    by (simp only: strings_Contains.simps take_eq_prefix Cons.IH)
  also have "\<dots> \<longleftrightarrow> (\<exists>u v. c # s = u @ sub @ v)" (is "?l \<longleftrightarrow> ?r")
  proof
    assume ?l
    then show ?r
    proof
      assume "\<exists>v. c # s = sub @ v"
      then show ?r by (metis append_Nil)
    next
      assume "\<exists>u v. s = u @ sub @ v"
      then show ?r by (metis append_Cons)
    qed
  next
    assume ?r
    then obtain u v where "c # s = u @ sub @ v" by blast
    then show ?l by (cases u) auto
  qed
  finally show ?case .
qed

lemma strings_Contains_append [simp, intro]:
  "strings_Contains s sub \<Longrightarrow> strings_Contains (s @ t) sub"
  "strings_Contains t sub \<Longrightarrow> strings_Contains (s @ t) sub"
  unfolding strings_Contains_iff by (metis append.assoc)+

lemma strings_ToLower_append [simp]:
  "strings_ToLower (s @ t) = strings_ToLower s @ strings_ToLower t"
  by (simp add: strings_ToLower_def)

lemma strings_HasPrefix_iff: "strings_HasPrefix s p \<longleftrightarrow> (\<exists>v. s = p @ v)"
  by (simp add: strings_HasPrefix_def take_eq_prefix)

subsection \<open>Loops that stop at the first error\<close>

text \<open>
  \<open>for i, x := range xs { if cond { return err } }; return nil\<close>: the first error, with the index
  the message needs.
\<close>

fun check_each :: "(nat \<Rightarrow> 'a \<Rightarrow> 'e option) \<Rightarrow> nat \<Rightarrow> 'a list \<Rightarrow> 'e option" where
  "check_each f i [] = None"
| "check_each f i (x # xs) = (case f i x of Some e \<Rightarrow> Some e | None \<Rightarrow> check_each f (Suc i) xs)"

lemma check_each_None_iff:
  "check_each f i xs = None \<longleftrightarrow> (\<forall>j < length xs. f (i + j) (xs ! j) = None)"
proof (induction xs arbitrary: i)
  case Nil
  then show ?case by simp
next
  case (Cons x xs)
  show ?case
    by (auto simp: Cons.IH All_less_Suc2 split: option.splits)
qed

lemma check_each_Some_iff:
  "check_each f i xs = Some e \<longleftrightarrow>
     (\<exists>j < length xs. f (i + j) (xs ! j) = Some e \<and> (\<forall>k < j. f (i + k) (xs ! k) = None))"
proof (induction xs arbitrary: i)
  case Nil
  then show ?case by simp
next
  case (Cons x xs)
  show ?case
  proof (cases "f i x")
    case None
    then have "check_each f i (x # xs) = Some e \<longleftrightarrow>
        (\<exists>j < length xs. f (Suc i + j) (xs ! j) = Some e \<and> (\<forall>k < j. f (Suc i + k) (xs ! k) = None))"
      by (simp add: Cons.IH)
    also have "\<dots> \<longleftrightarrow> (\<exists>j < length (x # xs). f (i + j) ((x # xs) ! j) = Some e \<and>
        (\<forall>k < j. f (i + k) ((x # xs) ! k) = None))"
      using None by (simp add: Ex_less_Suc2 All_less_Suc2)
    finally show ?thesis .
  next
    case (Some e')
    then show ?thesis
      by (auto simp: Ex_less_Suc2 All_less_Suc2)
  qed
qed

lemma check_each_None_uniform:
  assumes "\<And>i x. f i x = None \<longleftrightarrow> P x"
  shows "check_each f i xs = None \<longleftrightarrow> (\<forall>x \<in> set xs. P x)"
  by (simp add: check_each_None_iff assms all_set_conv_all_nth)

subsection \<open>Go maps as association lists\<close>

definition range_order :: "(('k \<times> 'v) list \<Rightarrow> ('k \<times> 'v) list) \<Rightarrow> bool" where
  "range_order ord \<longleftrightarrow> (\<forall>m. mset (ord m) = mset m)"

lemma range_order_id [simp, intro]: "range_order (\<lambda>m. m)"
  by (simp add: range_order_def)

lemma range_order_set: "range_order ord \<Longrightarrow> set (ord m) = set m"
  unfolding range_order_def by (metis set_mset_mset)

lemma range_order_distinct: "range_order ord \<Longrightarrow> distinct (map fst (ord m)) = distinct (map fst m)"
proof -
  assume "range_order ord"
  then have "mset (map fst (ord m)) = mset (map fst m)"
    by (simp add: range_order_def)
  then show ?thesis by (metis mset_eq_imp_distinct_iff)
qed

lemma range_order_map_of:
  "range_order ord \<Longrightarrow> distinct (map fst m) \<Longrightarrow> map_of (ord m) = map_of m"
  by (metis map_of_inject_set range_order_distinct range_order_set)

subsection \<open>Reachability and invariants\<close>

inductive reachable :: "('s \<Rightarrow> bool) \<Rightarrow> ('s \<Rightarrow> 's \<Rightarrow> bool) \<Rightarrow> 's \<Rightarrow> bool" for init step where
  reach_init: "init s \<Longrightarrow> reachable init step s"
| reach_step: "reachable init step s \<Longrightarrow> step s t \<Longrightarrow> reachable init step t"

text \<open>
  The contract of a component that keeps an invariant: it holds initially and every step preserves
  it. Clients get it in every reachable state.
\<close>

locale invariant_system =
  fixes init :: "'s \<Rightarrow> bool"
    and step :: "'s \<Rightarrow> 's \<Rightarrow> bool"
    and inv :: "'s \<Rightarrow> bool"
  assumes init_inv: "init s \<Longrightarrow> inv s"
    and step_inv: "step s t \<Longrightarrow> inv s \<Longrightarrow> inv t"
begin

lemma reachable_inv: "reachable init step s \<Longrightarrow> inv s"
  by (induction rule: reachable.induct) (auto intro: init_inv step_inv)

lemma reachable_step_inv: "reachable init step s \<Longrightarrow> step s t \<Longrightarrow> inv t"
  by (blast intro: reachable_inv reach_step)

end

text \<open>
  The contract of a component that works in rounds: each round keeps the invariant and takes the work one
  level further. Clients get the level after any number of rounds.
\<close>

locale progress_rounds =
  fixes round :: "'x \<Rightarrow> 's \<Rightarrow> 's"
    and enabled :: "'x \<Rightarrow> bool"
    and ok :: "'s \<Rightarrow> bool"
    and level :: "nat \<Rightarrow> 's \<Rightarrow> bool"
  assumes round_ok: "enabled x \<Longrightarrow> ok s \<Longrightarrow> ok (round x s)"
    and round_level: "enabled x \<Longrightarrow> ok s \<Longrightarrow> level k s \<Longrightarrow> level (Suc k) (round x s)"
begin

lemma rounds_level:
  "list_all enabled xs \<Longrightarrow> ok s \<Longrightarrow> level k s \<Longrightarrow> ok (fold round xs s) \<and> level (k + length xs) (fold round xs s)"
proof (induction xs arbitrary: s k)
  case (Cons x xs)
  then show ?case using Cons.IH [of "round x s" "Suc k"] by (simp add: round_ok round_level)
qed simp

end

subsection \<open>Searching lists\<close>

lemma find_append: "find P (xs @ ys) = (case find P xs of None \<Rightarrow> find P ys | Some x \<Rightarrow> Some x)"
  by (induction xs) auto

lemma find_Some_in: "find P xs = Some x \<Longrightarrow> x \<in> set xs \<and> P x"
  by (auto simp: find_Some_iff)

lemma find_key_None: "find (\<lambda>a. f a = k) xs = None \<longleftrightarrow> k \<notin> f ` set xs"
  by (auto simp: find_None_iff)

lemma find_rev_distinct: "distinct (map f xs) \<Longrightarrow> find (\<lambda>a. f a = k) (rev xs) = find (\<lambda>a. f a = k) xs"
proof (induction xs)
  case (Cons x xs)
  have "find (\<lambda>a. f a = k) xs = None" if "f x = k" using Cons.prems that by (simp add: find_key_None)
  with Cons show ?case by (auto simp: find_append split: option.splits)
qed simp

subsection \<open>Decoded JSON\<close>

text \<open>What \<open>encoding/json\<close> decodes into an \<open>any\<close>; an object is a map, its first binding of a key counts.\<close>

datatype json = JNull | JBool bool | JNum int | JStr string | JArr "json list" | JObj "(string \<times> json) list"

text \<open>\<open>m[k].(string)\<close> with the zero value when the assertion fails.\<close>

definition json_string_field :: "(string \<times> json) list \<Rightarrow> string \<Rightarrow> string" where
  "json_string_field m k = (case map_of m k of Some (JStr s) \<Rightarrow> s | _ \<Rightarrow> [])"

end
