(* ===== verification/Db_Errors.thy ===== *)
theory Db_Errors
  imports Prelude
begin

text \<open>
  Typed database errors: package \<open>internal/dberrors\<close>. A Go error is modelled by what the code can
  observe of it: its text, the sentinels in its chain (what \<open>errors.Is\<close> sees), the PostgreSQL
  SQLSTATE and message that \<open>errors.As\<close> extracts from a \<open>pgconn.PgError\<close>, and the ORA code that
  the Oracle build extracts. The theorems show that the classifiers are a total, ordered decision
  and that a classified error keeps its whole chain.
\<close>

datatype sentinel =
    ErrNotFound | ErrConstraint | ErrTransient | ErrPermission | ErrContextDone | ErrUndefinedObject
  | ErrDuplicate | ErrForeignKey | ErrAppendOnlyViolation | ErrUserNotFound | ErrGroupNotFound | ErrDiagramNotFound | ErrWebhookNotFound | ErrVersionMismatch
  | ErrBuiltInGroupProtected
  | CtxCanceled | CtxDeadlineExceeded | GormErrRecordNotFound | SqlErrNoRows

record go_error =
  err_Error :: string
  err_chain :: "sentinel list"
  err_pg :: "(string \<times> string) option"
  err_ora :: "int option"

definition errors_New :: "string \<Rightarrow> go_error" where
  "errors_New msg = \<lparr>err_Error = msg, err_chain = [], err_pg = None, err_ora = None\<rparr>"

text \<open>\<open>fmt.Errorf("...: %w", err)\<close>: a new text in front of the wrapped error's chain.\<close>

definition errorf_wrap :: "string \<Rightarrow> go_error \<Rightarrow> go_error" where
  "errorf_wrap pre e = e\<lparr>err_Error := pre @ err_Error e\<rparr>"

definition errors_Is :: "go_error \<Rightarrow> sentinel \<Rightarrow> bool" where
  "errors_Is e s \<longleftrightarrow> s \<in> set (err_chain e)"

text \<open>The sentinels: their texts, and what they wrap themselves (\<open>ErrDuplicate\<close> wraps \<open>ErrConstraint\<close>).\<close>

fun sentinel_text :: "sentinel \<Rightarrow> string" where
  "sentinel_text ErrNotFound = ''not found''"
| "sentinel_text ErrConstraint = ''constraint violation''"
| "sentinel_text ErrTransient = ''transient database error''"
| "sentinel_text ErrPermission = ''permission denied''"
| "sentinel_text ErrContextDone = ''context cancelled''"
| "sentinel_text ErrUndefinedObject = ''undefined database object''"
| "sentinel_text ErrDuplicate = ''duplicate: constraint violation''"
| "sentinel_text ErrForeignKey = ''foreign key: constraint violation''"
| "sentinel_text ErrAppendOnlyViolation = ''append-only violation: constraint violation''"
| "sentinel_text ErrUserNotFound = ''user: not found''"
| "sentinel_text ErrGroupNotFound = ''group: not found''"
| "sentinel_text ErrBuiltInGroupProtected = ''built-in group is protected''"
| "sentinel_text ErrDiagramNotFound = ''diagram: not found''"
| "sentinel_text ErrVersionMismatch = ''version mismatch''"
| "sentinel_text ErrWebhookNotFound = ''webhook subscription: not found''"
| "sentinel_text CtxCanceled = ''context canceled''"
| "sentinel_text CtxDeadlineExceeded = ''context deadline exceeded''"
| "sentinel_text GormErrRecordNotFound = ''record not found''"
| "sentinel_text SqlErrNoRows = ''sql: no rows in result set''"

fun sentinel_chain :: "sentinel \<Rightarrow> sentinel list" where
  "sentinel_chain ErrDuplicate = [ErrDuplicate, ErrConstraint]"
| "sentinel_chain ErrForeignKey = [ErrForeignKey, ErrConstraint]"
| "sentinel_chain ErrAppendOnlyViolation = [ErrAppendOnlyViolation, ErrConstraint]"
| "sentinel_chain ErrUserNotFound = [ErrUserNotFound, ErrNotFound]"
| "sentinel_chain ErrGroupNotFound = [ErrGroupNotFound, ErrNotFound]"
| "sentinel_chain ErrDiagramNotFound = [ErrDiagramNotFound, ErrNotFound]"
| "sentinel_chain ErrWebhookNotFound = [ErrWebhookNotFound, ErrNotFound]"
| "sentinel_chain s = [s]"

text \<open>A sentinel returned as it is.\<close>

definition sentinel_error :: "sentinel \<Rightarrow> go_error" where
  "sentinel_error s = \<lparr>err_Error = sentinel_text s, err_chain = sentinel_chain s, err_pg = None, err_ora = None\<rparr>"

definition Wrap :: "go_error \<Rightarrow> sentinel \<Rightarrow> go_error" where
  "Wrap e s = e\<lparr>err_Error := sentinel_text s @ '': '' @ err_Error e,
                err_chain := sentinel_chain s @ err_chain e\<rparr>"

definition IsRetryable :: "go_error \<Rightarrow> bool" where
  "IsRetryable e = errors_Is e ErrTransient"

definition IsFatal :: "go_error \<Rightarrow> bool" where
  "IsFatal e = errors_Is e ErrPermission"

definition transientPatterns :: "string list" where
  "transientPatterns =
    [''driver: bad connection'', ''connection refused'', ''connection reset by peer'',
     ''connection reset'', ''broken pipe'', ''i/o timeout'', ''no connection available'',
     ''connection timed out'', ''unexpected eof'', ''server closed'',
     ''ssl connection has been closed'', ''connection is shut down'', ''invalid connection'',
     ''connection unexpectedly closed'']"

definition permissionPatterns :: "string list" where
  "permissionPatterns = [''permission denied'', ''insufficient privilege'']"

text \<open>
  The decision of \<open>classifyByString\<close> (on the lower-cased text) and of \<open>classifyPgError\<close> (on the
  SQLSTATE and message): which sentinel, if any. Each is the function's chain of returns in order.
\<close>

definition stringSentinel :: "string \<Rightarrow> sentinel option" where
  "stringSentinel errStr =
    (if list_ex (strings_Contains errStr) transientPatterns then Some ErrTransient
     else if list_ex (strings_Contains errStr) permissionPatterns then Some ErrPermission
     else if strings_Contains errStr ''duplicate'' \<or> strings_Contains errStr ''unique constraint''
       then Some ErrDuplicate
     else if strings_Contains errStr ''foreign key'' \<or> strings_Contains errStr ''parent key not found'' \<or>
             strings_Contains errStr ''child record found''
       then Some ErrForeignKey
     else if strings_Contains errStr ''constraint'' \<or> strings_Contains errStr ''violates''
       then Some ErrConstraint
     else if strings_Contains errStr ''not found'' then Some ErrNotFound
     else None)"

definition classifyByString :: "go_error \<Rightarrow> go_error" where
  "classifyByString e =
    (case stringSentinel (strings_ToLower (err_Error e)) of Some s \<Rightarrow> Wrap e s | None \<Rightarrow> e)"

definition pgSentinel :: "string \<Rightarrow> string \<Rightarrow> sentinel option" where
  "pgSentinel code message =
    (if strings_HasPrefix code ''23'' then
       (if code = ''23505'' then Some ErrDuplicate
        else if code = ''23503'' then Some ErrForeignKey
        else Some ErrConstraint)
     else if code = ''22001'' \<or> code = ''22003'' then Some ErrConstraint
     else if code = ''40001'' \<or> code = ''40P01'' then Some ErrTransient
     else if strings_HasPrefix code ''08'' then Some ErrTransient
     else if code = ''57P01'' \<or> code = ''57P03'' then Some ErrTransient
     else if code = ''42P01'' then Some ErrUndefinedObject
     else if code = ''42501'' \<or> code = ''28P01'' \<or> code = ''28000'' then Some ErrPermission
     else if code = ''P0001'' \<and> strings_Contains message ''append-only'' then Some ErrAppendOnlyViolation
     else None)"

definition classifyPgError :: "go_error \<Rightarrow> go_error option" where
  "classifyPgError e =
    (case err_pg e of
       None \<Rightarrow> None
     | Some (code, message) \<Rightarrow> map_option (Wrap e) (pgSentinel code message))"

definition oracleCodeSentinels :: "(int \<times> sentinel) list" where
  "oracleCodeSentinels =
    [(1, ErrDuplicate), (2291, ErrForeignKey), (2292, ErrForeignKey),
     (2289, ErrUndefinedObject), (942, ErrUndefinedObject),
     (12899, ErrConstraint), (1400, ErrConstraint), (1407, ErrConstraint), (2290, ErrConstraint),
     (1438, ErrConstraint), (1401, ErrConstraint),
     (8177, ErrTransient), (60, ErrTransient), (54, ErrTransient),
     (3113, ErrTransient), (3114, ErrTransient), (3135, ErrTransient), (12170, ErrTransient),
     (12537, ErrTransient), (12541, ErrTransient), (12543, ErrTransient), (4068, ErrTransient),
     (1017, ErrPermission), (1031, ErrPermission), (1045, ErrPermission), (28001, ErrPermission),
     (1013, ErrContextDone), (20001, ErrAppendOnlyViolation),
     (18, ErrTransient), (20, ErrTransient), (1000, ErrTransient), (3156, ErrTransient),
     (4031, ErrTransient), (12519, ErrTransient), (12520, ErrTransient), (25408, ErrTransient)]"

definition classifyOracleCode :: "go_error \<Rightarrow> int \<Rightarrow> go_error option" where
  "classifyOracleCode e code =
    (case map_of oracleCodeSentinels code of Some s \<Rightarrow> Some (Wrap e s) | None \<Rightarrow> None)"

text \<open>
  The same function also counts what it sees: ORA-01555 and ORA-00932 among the codes it leaves
  alone, ORA-01000 and ORA-04031 among those it maps (\<open>instrumentOracleCode\<close>). The counters never
  influence the classification, so they are a separate state transformer.
\<close>

record ora_counters =
  ora01555Counter :: uint64
  ora00932Counter :: uint64
  oraMaxOpenCursorsCounter :: uint64
  oraSharedPoolCounter :: uint64

definition instrumentOracleCode :: "int \<Rightarrow> ora_counters \<Rightarrow> ora_counters" where
  "instrumentOracleCode code c =
    (if code = 1000 then c\<lparr>oraMaxOpenCursorsCounter := oraMaxOpenCursorsCounter c + 1\<rparr>
     else if code = 4031 then c\<lparr>oraSharedPoolCounter := oraSharedPoolCounter c + 1\<rparr>
     else c)"

definition countOracleCode :: "int \<Rightarrow> ora_counters \<Rightarrow> ora_counters" where
  "countOracleCode code c =
    (case map_of oracleCodeSentinels code of
       Some _ \<Rightarrow> instrumentOracleCode code c
     | None \<Rightarrow>
         (let c1 = (if code = 1555 then c\<lparr>ora01555Counter := ora01555Counter c + 1\<rparr> else c)
          in if code = 932 then c1\<lparr>ora00932Counter := ora00932Counter c1 + 1\<rparr> else c1))"

text \<open>
  The Oracle half exists only under the \<open>oracle\<close> build tag; without it the classifier always
  declines. The tag is the first argument.
\<close>

definition classifyOracleError :: "bool \<Rightarrow> go_error \<Rightarrow> go_error option" where
  "classifyOracleError oracle e =
    (if oracle then (case err_ora e of Some code \<Rightarrow> classifyOracleCode e code | None \<Rightarrow> None) else None)"

definition Classify :: "bool \<Rightarrow> go_error \<Rightarrow> go_error" where
  "Classify oracle e =
    (if errors_Is e CtxCanceled \<or> errors_Is e CtxDeadlineExceeded then Wrap e ErrContextDone
     else if errors_Is e ErrNotFound \<or> errors_Is e ErrConstraint \<or> errors_Is e ErrTransient \<or>
             errors_Is e ErrPermission \<or> errors_Is e ErrContextDone \<or> errors_Is e ErrUndefinedObject
       then e
     else if errors_Is e GormErrRecordNotFound then Wrap e ErrNotFound
     else if errors_Is e SqlErrNoRows then Wrap e ErrNotFound
     else (case classifyPgError e of
             Some c \<Rightarrow> c
           | None \<Rightarrow> (case classifyOracleError oracle e of Some c \<Rightarrow> c | None \<Rightarrow> classifyByString e)))"

subsection \<open>Facts about classification\<close>

lemma errors_Is_Wrap [simp]: "errors_Is (Wrap e s) t \<longleftrightarrow> t \<in> set (sentinel_chain s) \<or> errors_Is e t"
  by (auto simp: Wrap_def errors_Is_def)

lemma errors_Is_errorf_wrap [simp]: "errors_Is (errorf_wrap pre e) t = errors_Is e t"
  by (simp add: errorf_wrap_def errors_Is_def)

lemma errors_Is_New [simp]: "\<not> errors_Is (errors_New msg) t"
  by (simp add: errors_New_def errors_Is_def)

lemma errors_Is_sentinel_error [simp]: "errors_Is (sentinel_error s) t \<longleftrightarrow> t \<in> set (sentinel_chain s)"
  by (simp add: sentinel_error_def errors_Is_def)

text \<open>Every classifier either wraps its argument with one of the package's sentinels or declines.\<close>

definition db_category :: "sentinel \<Rightarrow> bool" where
  "db_category s \<longleftrightarrow> s \<in> {ErrNotFound, ErrConstraint, ErrTransient, ErrPermission, ErrContextDone,
     ErrUndefinedObject, ErrDuplicate, ErrForeignKey, ErrAppendOnlyViolation}"

definition already_classified :: "go_error \<Rightarrow> bool" where
  "already_classified e \<longleftrightarrow> errors_Is e ErrNotFound \<or> errors_Is e ErrConstraint \<or> errors_Is e ErrTransient \<or>
     errors_Is e ErrPermission \<or> errors_Is e ErrContextDone \<or> errors_Is e ErrUndefinedObject"

lemma db_category_simps [simp]:
  "db_category ErrNotFound" "db_category ErrConstraint" "db_category ErrTransient"
  "db_category ErrPermission" "db_category ErrContextDone" "db_category ErrUndefinedObject"
  "db_category ErrDuplicate" "db_category ErrForeignKey" "db_category ErrAppendOnlyViolation"
  by (simp_all add: db_category_def)

lemma db_category_classified: "db_category s \<Longrightarrow> already_classified (Wrap e s)"
  by (auto simp: db_category_def already_classified_def)

lemma pgSentinel_category: "pgSentinel code message = Some s \<Longrightarrow> db_category s"
  unfolding pgSentinel_def by (simp only: option.inject option.simps split: if_split_asm) auto

lemma stringSentinel_category: "stringSentinel errStr = Some s \<Longrightarrow> db_category s"
  unfolding stringSentinel_def by (simp only: option.inject option.simps split: if_split_asm) auto

lemma classifyPgError_Some: "classifyPgError e = Some c \<Longrightarrow> \<exists>s. db_category s \<and> c = Wrap e s"
  by (auto simp: classifyPgError_def dest: pgSentinel_category split: option.splits)

lemma oracleCodeSentinels_category: "map_of oracleCodeSentinels code = Some s \<Longrightarrow> db_category s"
  by (simp add: oracleCodeSentinels_def split: if_split_asm)

lemma classifyOracleError_Some: "classifyOracleError o' e = Some c \<Longrightarrow> \<exists>s. db_category s \<and> c = Wrap e s"
  by (auto simp: classifyOracleError_def classifyOracleCode_def dest: oracleCodeSentinels_category
      split: if_splits option.splits)

lemma classifyByString_cases: "classifyByString e = e \<or> (\<exists>s. db_category s \<and> classifyByString e = Wrap e s)"
  by (auto simp: classifyByString_def dest: stringSentinel_category split: option.splits)

lemma Classify_cases: "Classify o' e = e \<or> (\<exists>s. db_category s \<and> Classify o' e = Wrap e s)"
proof -
  define P where "P c \<longleftrightarrow> c = e \<or> (\<exists>s. db_category s \<and> c = Wrap e s)" for c
  have e: "P e" and w: "P (Wrap e ErrContextDone)" "P (Wrap e ErrNotFound)"
    unfolding P_def by (blast intro: db_category_simps)+
  have str: "P (classifyByString e)" unfolding P_def by (rule classifyByString_cases)
  have pg: "P c" if "classifyPgError e = Some c" for c
    using classifyPgError_Some [OF that] unfolding P_def by blast
  have ora: "P c" if "classifyOracleError o' e = Some c" for c
    using classifyOracleError_Some [OF that] unfolding P_def by blast
  have "P (Classify o' e)"
    unfolding Classify_def by (simp add: e w str pg ora split: option.split)
  then show ?thesis unfolding P_def .
qed

lemma errors_Is_Classify_mono: "errors_Is e t \<Longrightarrow> errors_Is (Classify o' e) t"
  using Classify_cases [of o' e] by (elim disjE exE conjE) simp_all

lemma Classify_already:
  "\<not> errors_Is e CtxCanceled \<Longrightarrow> \<not> errors_Is e CtxDeadlineExceeded \<Longrightarrow> already_classified e \<Longrightarrow>
   Classify o' e = e"
  by (simp add: Classify_def already_classified_def)

lemma db_category_no_ctx:
  "db_category s \<Longrightarrow> CtxCanceled \<notin> set (sentinel_chain s) \<and> CtxDeadlineExceeded \<notin> set (sentinel_chain s)"
  by (cases s) (simp_all add: db_category_def)

subsection \<open>Properties\<close>

text \<open>
  Classifying an error that is already classified changes nothing: repositories, services and
  handlers may each call \<open>Classify\<close> and the error is wrapped once. (The context-cancellation test
  comes first in the code, so only cancellation errors are wrapped again.)
\<close>

theorem Classify_idempotent:
  assumes "\<not> errors_Is e CtxCanceled" and "\<not> errors_Is e CtxDeadlineExceeded"
  shows "Classify oracle (Classify oracle e) = Classify oracle e"
proof (cases "Classify oracle e = e")
  case False
  then obtain s where s: "db_category s" "Classify oracle e = Wrap e s"
    using Classify_cases by blast
  then have "already_classified (Wrap e s)" by (blast intro: db_category_classified)
  with assms s show ?thesis
    using db_category_no_ctx [OF s(1)] by (simp add: Classify_already)
qed simp

theorem Classify_idempotent_witness:
  "Classify False (Classify False (errors_New ''Server Closed'')) = Classify False (errors_New ''Server Closed'')"
  by (rule Classify_idempotent) simp_all

text \<open>
  An error whose text carries both a constraint violation and the words "not found" (Oracle's
  "integrity constraint violated - parent key not found") is reported as a constraint error, never
  as a missing record: when the text classifier adds \<open>ErrNotFound\<close>, no constraint or foreign-key
  pattern occurs in the text.
\<close>

theorem not_found_is_last_resort:
  assumes "errors_Is (classifyByString e) ErrNotFound" and "\<not> errors_Is e ErrNotFound"
  shows "\<forall>p \<in> set [''duplicate'', ''unique constraint'', ''foreign key'', ''parent key not found'',
            ''child record found'', ''constraint'', ''violates''].
          \<not> strings_Contains (strings_ToLower (err_Error e)) p"
proof -
  let ?t = "strings_ToLower (err_Error e)"
  have "stringSentinel ?t = Some ErrNotFound"
  proof (cases "stringSentinel ?t")
    case None
    with assms show ?thesis by (simp add: classifyByString_def)
  next
    case (Some s)
    with assms have "ErrNotFound \<in> set (sentinel_chain s)"
      by (simp add: classifyByString_def)
    then have "s = ErrNotFound \<or> s = ErrUserNotFound \<or> s = ErrGroupNotFound \<or> s = ErrDiagramNotFound \<or> s = ErrWebhookNotFound" by (cases s) simp_all
    with stringSentinel_category [OF Some] Some show ?thesis
      by (auto simp: db_category_def)
  qed
  then show ?thesis
    unfolding stringSentinel_def
    by (simp only: option.inject option.distinct sentinel.distinct simp_thms
        list.set ball_simps de_Morgan_disj split: if_split_asm)
qed

theorem not_found_is_last_resort_witness:
  "\<not> strings_Contains (strings_ToLower ''Threat NOT found'') ''constraint''"
proof -
  let ?e = "errors_New ''Threat NOT found''"
  have "stringSentinel (strings_ToLower (err_Error ?e)) = Some ErrNotFound"
    by code_simp
  then have "errors_Is (classifyByString ?e) ErrNotFound" by (simp add: classifyByString_def)
  then show ?thesis
    using not_found_is_last_resort [OF _ errors_Is_New] by (simp add: errors_New_def)
qed

end
