(* ===== verification/Identity.thy ===== *)
theory Identity
  imports Db_Errors
begin

text \<open>
  Who a caller is: \<open>api/identity.go\<close>. The wire types \<open>User\<close>, \<open>Principal\<close> and \<open>Authorization\<close>
  (\<open>api/api.go\<close>), the internal \<open>ResolvedUser\<close>, the conversions between them, identity comparison
  (\<open>SamePrincipal\<close>) and the prioritised lookup \<open>ResolveUser\<close>. The lookups themselves are an
  interface of the code (\<open>UserResolver\<close>): here a record of state-passing functions, and its contract
  is the locale \<open>user_directory\<close>, which theory \<open>User_Service\<close> interprets on the authentication
  service. Timestamps and token fields of the user records play no part and are left out.
\<close>

record User =
  usr_PrincipalType :: string
  usr_Provider :: string
  usr_ProviderId :: string
  usr_Email :: string
  usr_DisplayName :: string

record Authorization =
  auth_PrincipalType :: string
  auth_Provider :: string
  auth_ProviderId :: string
  auth_Role :: string
  auth_Email :: "string option"
  auth_DisplayName :: "string option"

record Principal =
  prin_PrincipalType :: string
  prin_Provider :: string
  prin_ProviderId :: string
  prin_Email :: "string option"
  prin_DisplayName :: "string option"

record ResolvedUser =
  ru_InternalUUID :: string
  ru_Provider :: string
  ru_ProviderID :: string
  ru_Email :: string
  ru_DisplayName :: string

record auth_User =
  au_InternalUUID :: string
  au_Provider :: string
  au_ProviderUserID :: string
  au_Email :: string
  au_Name :: string

definition empty_ResolvedUser :: ResolvedUser where
  "empty_ResolvedUser = \<lparr>ru_InternalUUID = [], ru_Provider = [], ru_ProviderID = [], ru_Email = [], ru_DisplayName = []\<rparr>"

subsection \<open>Conversions\<close>

definition resolvedUserFromAuthUser :: "auth_User \<Rightarrow> ResolvedUser" where
  "resolvedUserFromAuthUser u = \<lparr>ru_InternalUUID = au_InternalUUID u, ru_Provider = au_Provider u,
     ru_ProviderID = au_ProviderUserID u, ru_Email = au_Email u, ru_DisplayName = au_Name u\<rparr>"

definition IsEmpty :: "ResolvedUser \<Rightarrow> bool" where
  "IsEmpty u \<longleftrightarrow> ru_InternalUUID u = [] \<and> ru_Provider u = [] \<and> ru_ProviderID u = [] \<and>
     ru_Email u = [] \<and> ru_DisplayName u = []"

definition ToUser :: "ResolvedUser \<Rightarrow> User" where
  "ToUser u = \<lparr>usr_PrincipalType = ''user'', usr_Provider = ru_Provider u, usr_ProviderId = ru_ProviderID u,
     usr_Email = ru_Email u, usr_DisplayName = ru_DisplayName u\<rparr>"

definition ToPrincipal :: "ResolvedUser \<Rightarrow> Principal" where
  "ToPrincipal u = \<lparr>prin_PrincipalType = ''user'', prin_Provider = ru_Provider u,
     prin_ProviderId = ru_ProviderID u, prin_Email = Some (ru_Email u), prin_DisplayName = Some (ru_DisplayName u)\<rparr>"

definition ResolvedUserFromUser :: "User \<Rightarrow> ResolvedUser" where
  "ResolvedUserFromUser u = \<lparr>ru_InternalUUID = [], ru_Provider = usr_Provider u,
     ru_ProviderID = usr_ProviderId u, ru_Email = usr_Email u, ru_DisplayName = usr_DisplayName u\<rparr>"

definition ResolvedUserFromAuthorization :: "Authorization \<Rightarrow> ResolvedUser" where
  "ResolvedUserFromAuthorization a = \<lparr>ru_InternalUUID = [], ru_Provider = auth_Provider a,
     ru_ProviderID = auth_ProviderId a,
     ru_Email = (case auth_Email a of Some e \<Rightarrow> e | None \<Rightarrow> []),
     ru_DisplayName = (case auth_DisplayName a of Some d \<Rightarrow> d | None \<Rightarrow> [])\<rparr>"

definition ResolvedUserFromPrincipal :: "Principal \<Rightarrow> ResolvedUser" where
  "ResolvedUserFromPrincipal p = \<lparr>ru_InternalUUID = [], ru_Provider = prin_Provider p,
     ru_ProviderID = prin_ProviderId p,
     ru_Email = (case prin_Email p of Some e \<Rightarrow> e | None \<Rightarrow> []),
     ru_DisplayName = (case prin_DisplayName p of Some d \<Rightarrow> d | None \<Rightarrow> [])\<rparr>"

subsection \<open>The Gin context\<close>

text \<open>A value stored in the request context: what a type assertion to string, Role or time can see.\<close>

datatype ctx_value = CtxString string | CtxRole string | CtxTime time | CtxOther

type_synonym gin_context = "string \<Rightarrow> ctx_value option"

record RequestError =
  re_Status :: nat
  re_Code :: string
  re_Message :: string

abbreviation requestError :: "nat \<Rightarrow> string \<Rightarrow> string \<Rightarrow> RequestError" where
  "requestError st c m \<equiv> \<lparr>re_Status = st, re_Code = c, re_Message = m\<rparr>"

text \<open>\<open>v.(string)\<close> with the zero value when the key is absent or holds another type.\<close>

definition ctx_string :: "gin_context \<Rightarrow> string \<Rightarrow> string" where
  "ctx_string c k = (case c k of Some (CtxString s) \<Rightarrow> s | _ \<Rightarrow> [])"

definition GetAuthenticatedUser :: "gin_context \<Rightarrow> RequestError + ResolvedUser" where
  "GetAuthenticatedUser c =
    (if ctx_string c ''userEmail'' = [] then
       Inl (requestError 401 ''unauthorized'' ''Authentication required'')
     else if ctx_string c ''userID'' = [] then
       Inl (requestError 401 ''unauthorized'' ''Authentication required'')
     else Inr \<lparr>ru_InternalUUID = ctx_string c ''userInternalUUID'', ru_Provider = ctx_string c ''userProvider'',
                ru_ProviderID = ctx_string c ''userID'', ru_Email = ctx_string c ''userEmail'',
                ru_DisplayName = ctx_string c ''userDisplayName''\<rparr>)"

definition GetResourceRole :: "gin_context \<Rightarrow> RequestError + string" where
  "GetResourceRole c =
    (case c ''userRole'' of
       None \<Rightarrow> Inr []
     | Some (CtxRole r) \<Rightarrow> Inr r
     | Some _ \<Rightarrow> Inl (requestError 500 ''server_error'' ''Failed to determine user role''))"

subsection \<open>Comparing identities\<close>

definition SamePrincipal :: "ResolvedUser \<Rightarrow> ResolvedUser \<Rightarrow> bool" where
  "SamePrincipal a b =
    (if ru_InternalUUID a \<noteq> [] \<and> ru_InternalUUID b \<noteq> [] then ru_InternalUUID a = ru_InternalUUID b
     else if ru_Provider a \<noteq> [] \<and> ru_ProviderID a \<noteq> [] \<and> ru_Provider b \<noteq> [] \<and> ru_ProviderID b \<noteq> []
       then ru_Provider a = ru_Provider b \<and> ru_ProviderID a = ru_ProviderID b
     else False)"

subsection \<open>Resolving a partial identity\<close>

record 'd UserResolver =
  GetUserByID :: "'d \<Rightarrow> string \<Rightarrow> 'd \<times> (go_error + auth_User)"
  GetUserByProviderID :: "'d \<Rightarrow> string \<Rightarrow> string \<Rightarrow> 'd \<times> (go_error + auth_User)"
  GetUserByProviderAndEmail :: "'d \<Rightarrow> string \<Rightarrow> string \<Rightarrow> 'd \<times> (go_error + auth_User)"
  GetUserByEmail :: "'d \<Rightarrow> string \<Rightarrow> 'd \<times> (go_error + auth_User)"
  GetUserByAnyProviderID :: "'d \<Rightarrow> string \<Rightarrow> 'd \<times> (go_error + auth_User)"

definition isUserNotFound :: "bool \<Rightarrow> go_error \<Rightarrow> bool" where
  "isUserNotFound oracle e = errors_Is (Classify oracle e) ErrNotFound"

definition reflectEmail :: "ResolvedUser \<Rightarrow> string \<Rightarrow> ResolvedUser" where
  "reflectEmail r email = (if email \<noteq> [] then r\<lparr>ru_Email := email\<rparr> else r)"

text \<open>The tail every lookup shares: turn a failed lookup into an error, or reflect the asserted email.\<close>

definition lookup_result :: "bool \<Rightarrow> string \<Rightarrow> string \<Rightarrow> string \<Rightarrow> (go_error + auth_User) \<Rightarrow> go_error + ResolvedUser" where
  "lookup_result oracle notfound failed email r =
    (case r of
       Inl e \<Rightarrow> Inl (if isUserNotFound oracle e then errors_New notfound else errorf_wrap failed e)
     | Inr u \<Rightarrow> Inr (reflectEmail (resolvedUserFromAuthUser u) email))"

definition resolveByUUID :: "bool \<Rightarrow> 'd UserResolver \<Rightarrow> ResolvedUser \<Rightarrow> 'd \<Rightarrow> 'd \<times> (go_error + ResolvedUser)" where
  "resolveByUUID oracle rs p d =
    (case GetUserByID rs d (ru_InternalUUID p) of
       (d', Inl e) \<Rightarrow>
         (d', Inl (if isUserNotFound oracle e
                   then errors_New (''ResolveUser: user with UUID '' @ ru_InternalUUID p @ '' not found'')
                   else errorf_wrap ''ResolveUser: error looking up user by UUID: '' e))
     | (d', Inr u) \<Rightarrow>
         (d', if ru_Provider p \<noteq> [] \<and> au_Provider u \<noteq> ru_Provider p then
                Inl (errors_New (''ResolveUser: provider conflict for UUID '' @ ru_InternalUUID p @ '': expected '' @
                       strconv_Quote (ru_Provider p) @ '', found '' @ strconv_Quote (au_Provider u)))
              else if ru_ProviderID p \<noteq> [] \<and> au_ProviderUserID u \<noteq> ru_ProviderID p then
                Inl (errors_New (''ResolveUser: provider ID conflict for UUID '' @ ru_InternalUUID p @ '': expected '' @
                       strconv_Quote (ru_ProviderID p) @ '', found '' @ strconv_Quote (au_ProviderUserID u)))
              else Inr (reflectEmail (resolvedUserFromAuthUser u) (ru_Email p))))"

definition resolveByProviderID :: "bool \<Rightarrow> 'd UserResolver \<Rightarrow> ResolvedUser \<Rightarrow> 'd \<Rightarrow> 'd \<times> (go_error + ResolvedUser)" where
  "resolveByProviderID oracle rs p d =
    (let (d', r) = GetUserByProviderID rs d (ru_Provider p) (ru_ProviderID p) in
     (d', lookup_result oracle
            (''ResolveUser: user not found for provider '' @ strconv_Quote (ru_Provider p) @ '', provider ID '' @
             strconv_Quote (ru_ProviderID p))
            ''ResolveUser: error looking up user by provider ID: '' (ru_Email p) r))"

definition resolveByAnyProviderID :: "bool \<Rightarrow> 'd UserResolver \<Rightarrow> ResolvedUser \<Rightarrow> 'd \<Rightarrow> 'd \<times> (go_error + ResolvedUser)" where
  "resolveByAnyProviderID oracle rs p d =
    (let (d', r) = GetUserByAnyProviderID rs d (ru_ProviderID p) in
     (d', lookup_result oracle
            (''ResolveUser: user not found by any provider ID '' @ strconv_Quote (ru_ProviderID p))
            ''ResolveUser: error looking up user by any provider ID: '' (ru_Email p) r))"

definition resolveByProviderAndEmail :: "bool \<Rightarrow> 'd UserResolver \<Rightarrow> ResolvedUser \<Rightarrow> 'd \<Rightarrow> 'd \<times> (go_error + ResolvedUser)" where
  "resolveByProviderAndEmail oracle rs p d =
    (let (d', r) = GetUserByProviderAndEmail rs d (ru_Provider p) (ru_Email p) in
     (d', lookup_result oracle
            (''ResolveUser: user not found for provider '' @ strconv_Quote (ru_Provider p) @ '', email '' @
             strconv_Quote (ru_Email p))
            ''ResolveUser: error looking up user by provider and email: '' (ru_Email p) r))"

definition resolveByEmail :: "bool \<Rightarrow> 'd UserResolver \<Rightarrow> ResolvedUser \<Rightarrow> 'd \<Rightarrow> 'd \<times> (go_error + ResolvedUser)" where
  "resolveByEmail oracle rs p d =
    (let (d', r) = GetUserByEmail rs d (ru_Email p) in
     (d', lookup_result oracle ''ResolveUser: user not found by any strategy''
            ''ResolveUser: error looking up user by email: '' (ru_Email p) r))"

text \<open>
  One optional strategy: when its guard holds and it succeeds, or fails other than by not finding the
  user, its outcome is final; otherwise the next strategy runs.
\<close>

definition try_strategy ::
  "bool \<Rightarrow> bool \<Rightarrow> ('d \<Rightarrow> 'd \<times> (go_error + ResolvedUser)) \<Rightarrow> ('d \<Rightarrow> 'd \<times> (go_error + ResolvedUser)) \<Rightarrow>
   'd \<Rightarrow> 'd \<times> (go_error + ResolvedUser)" where
  "try_strategy oracle guard strat rest d =
    (if guard then
       (case strat d of
          (d', Inr r) \<Rightarrow> (d', Inr r)
        | (d', Inl e) \<Rightarrow> if \<not> isUserNotFound oracle e then (d', Inl e) else rest d')
     else rest d)"

definition resolveWithoutUUID :: "bool \<Rightarrow> 'd UserResolver \<Rightarrow> ResolvedUser \<Rightarrow> 'd \<Rightarrow> 'd \<times> (go_error + ResolvedUser)" where
  "resolveWithoutUUID oracle rs p d =
    (if ru_Provider p \<noteq> [] \<and> ru_ProviderID p \<noteq> [] then resolveByProviderID oracle rs p d
     else try_strategy oracle (ru_ProviderID p \<noteq> [] \<and> ru_Email p \<noteq> []) (resolveByAnyProviderID oracle rs p)
           (try_strategy oracle (ru_Provider p \<noteq> [] \<and> ru_Email p \<noteq> []) (resolveByProviderAndEmail oracle rs p)
             (\<lambda>d. if ru_Email p \<noteq> [] then resolveByEmail oracle rs p d
                  else (d, Inl (errors_New ''ResolveUser: user not found by any strategy''))))
           d)"

definition ResolveUser :: "bool \<Rightarrow> 'd UserResolver \<Rightarrow> ResolvedUser \<Rightarrow> 'd \<Rightarrow> 'd \<times> (go_error + ResolvedUser)" where
  "ResolveUser oracle rs p d =
    (if ru_InternalUUID p = [] \<and> ru_ProviderID p = [] \<and> ru_Email p = [] then
       (d, Inl (errors_New ''ResolveUser: at least one of InternalUUID, ProviderID, or Email must be provided''))
     else if ru_InternalUUID p \<noteq> [] then resolveByUUID oracle rs p d
     else resolveWithoutUUID oracle rs p d)"

subsection \<open>Facts about identity comparison\<close>

lemma SamePrincipal_sym: "SamePrincipal a b = SamePrincipal b a"
  by (auto simp: SamePrincipal_def)

lemma SamePrincipal_ignores_contact [simp]:
  "SamePrincipal (a\<lparr>ru_Email := e\<rparr>) b = SamePrincipal a b"
  "SamePrincipal a (b\<lparr>ru_Email := e\<rparr>) = SamePrincipal a b"
  "SamePrincipal (a\<lparr>ru_DisplayName := n\<rparr>) b = SamePrincipal a b"
  "SamePrincipal a (b\<lparr>ru_DisplayName := n\<rparr>) = SamePrincipal a b"
  by (simp_all add: SamePrincipal_def)

text \<open>What a wire record says of a person: each field is absent or the person's own.\<close>

definition view_of :: "auth_User \<Rightarrow> ResolvedUser \<Rightarrow> bool" where
  "view_of u r \<longleftrightarrow> (ru_InternalUUID r = [] \<or> ru_InternalUUID r = au_InternalUUID u) \<and>
     (ru_Provider r = [] \<or> ru_Provider r = au_Provider u) \<and>
     (ru_ProviderID r = [] \<or> ru_ProviderID r = au_ProviderUserID u)"

definition unique_identities :: "auth_User set \<Rightarrow> bool" where
  "unique_identities D \<longleftrightarrow> inj_on au_InternalUUID D \<and> inj_on (\<lambda>u. (au_Provider u, au_ProviderUserID u)) D"

definition comparable :: "ResolvedUser \<Rightarrow> ResolvedUser \<Rightarrow> bool" where
  "comparable a b \<longleftrightarrow> (ru_InternalUUID a \<noteq> [] \<and> ru_InternalUUID b \<noteq> []) \<or>
     (ru_Provider a \<noteq> [] \<and> ru_ProviderID a \<noteq> [] \<and> ru_Provider b \<noteq> [] \<and> ru_ProviderID b \<noteq> [])"

text \<open>
  Identity comparison is sound and complete over a directory in which UUIDs and
  (provider, provider id) pairs are unique: two records about directory users are the same principal
  exactly when they are about the same user and share a comparable key. Email and display name never
  matter, and records with no common key are never identified.
\<close>

theorem SamePrincipal_correct:
  assumes "unique_identities D" and "u \<in> D" and "v \<in> D" and "view_of u a" and "view_of v b"
  shows "SamePrincipal a b \<longleftrightarrow> u = v \<and> comparable a b"
proof (cases "ru_InternalUUID a \<noteq> [] \<and> ru_InternalUUID b \<noteq> []")
  case True
  with assms show ?thesis
    by (auto simp: SamePrincipal_def comparable_def view_of_def unique_identities_def dest: inj_onD)
next
  case False
  have pair: "u = v" if "au_Provider u = au_Provider v" "au_ProviderUserID u = au_ProviderUserID v"
    using assms(1-3) that by (auto simp: unique_identities_def inj_on_def)
  from False assms(4,5) show ?thesis
    by (auto simp: SamePrincipal_def comparable_def view_of_def intro: pair)
qed

definition alice :: auth_User where
  "alice = \<lparr>au_InternalUUID = ''u-1'', au_Provider = ''google'', au_ProviderUserID = ''g-17'',
            au_Email = ''alice@example.com'', au_Name = ''Alice''\<rparr>"

definition bob :: auth_User where
  "bob = \<lparr>au_InternalUUID = ''u-2'', au_Provider = ''github'', au_ProviderUserID = ''h-4'',
          au_Email = ''alice@example.com'', au_Name = ''Bob''\<rparr>"

theorem SamePrincipal_correct_witness:
  "SamePrincipal (resolvedUserFromAuthUser alice) ((resolvedUserFromAuthUser bob)\<lparr>ru_InternalUUID := []\<rparr>) \<longleftrightarrow>
   alice = bob \<and> comparable (resolvedUserFromAuthUser alice) ((resolvedUserFromAuthUser bob)\<lparr>ru_InternalUUID := []\<rparr>)"
  by (rule SamePrincipal_correct [of "{alice, bob}"])
     (simp_all add: unique_identities_def alice_def bob_def view_of_def resolvedUserFromAuthUser_def)

subsection \<open>The directory contract\<close>

definition picks :: "ResolvedUser \<Rightarrow> auth_User \<Rightarrow> ResolvedUser \<Rightarrow> bool" where
  "picks p u r \<longleftrightarrow> r = reflectEmail (resolvedUserFromAuthUser u) (ru_Email p) \<and>
     (ru_Provider p \<noteq> [] \<and> ru_ProviderID p \<noteq> [] \<longrightarrow>
        au_Provider u = ru_Provider p \<and> au_ProviderUserID u = ru_ProviderID p) \<and>
     (ru_Provider p = [] \<or> ru_ProviderID p = [] \<longrightarrow>
        (ru_ProviderID p \<noteq> [] \<and> au_ProviderUserID u = ru_ProviderID p) \<or>
        (ru_Email p \<noteq> [] \<and> au_Email u = ru_Email p))"

text \<open>
  \<open>delivers ok users S f\<close>: from a consistent directory state the lookup \<open>f\<close> leads to a consistent
  state over the same users, and whatever it returns satisfies \<open>S\<close> for some user of the directory.
\<close>

definition delivers ::
  "('d \<Rightarrow> bool) \<Rightarrow> ('d \<Rightarrow> auth_User set) \<Rightarrow> (auth_User \<Rightarrow> 'r \<Rightarrow> bool) \<Rightarrow> ('d \<Rightarrow> 'd \<times> (go_error + 'r)) \<Rightarrow> bool" where
  "delivers ok users S f \<longleftrightarrow>
     (\<forall>d d' out. ok d \<longrightarrow> f d = (d', out) \<longrightarrow>
        ok d' \<and> users d' = users d \<and> (\<forall>r. out = Inr r \<longrightarrow> (\<exists>u \<in> users d. S u r)))"

lemma deliversD:
  "delivers ok users S f \<Longrightarrow> ok d \<Longrightarrow> f d = (d', out) \<Longrightarrow> ok d' \<and> users d' = users d"
  "delivers ok users S f \<Longrightarrow> ok d \<Longrightarrow> f d = (d', Inr r) \<Longrightarrow> \<exists>u \<in> users d. S u r"
  unfolding delivers_def by blast+

lemma delivers_mono: "delivers ok users S f \<Longrightarrow> (\<And>u r. S u r \<Longrightarrow> T u r) \<Longrightarrow> delivers ok users T f"
  unfolding delivers_def by blast

lemma delivers_fail: "delivers ok users S (\<lambda>d. (d, Inl e))"
  by (simp add: delivers_def)

lemma delivers_try_strategy:
  assumes strat: "guard \<Longrightarrow> delivers ok users S strat" and rest: "delivers ok users S rest"
  shows "delivers ok users S (try_strategy oracle guard strat rest)"
proof (cases guard)
  case False
  with rest show ?thesis by (simp add: try_strategy_def delivers_def)
next
  case True
  show ?thesis
    unfolding delivers_def
  proof (intro allI impI)
    fix d d' out
    assume ok: "ok d" and run: "try_strategy oracle guard strat rest d = (d', out)"
    obtain d1 o1 where s1: "strat d = (d1, o1)" by fastforce
    have d1: "ok d1" "users d1 = users d" using deliversD(1) [OF strat [OF True] ok s1] by auto
    show "ok d' \<and> users d' = users d \<and> (\<forall>r. out = Inr r \<longrightarrow> (\<exists>u \<in> users d. S u r))"
    proof (cases "\<exists>e. o1 = Inl e \<and> isUserNotFound oracle e")
      case False
      with run s1 True have "(d', out) = (d1, o1)"
        by (auto simp: try_strategy_def split: sum.splits)
      with d1 deliversD(2) [OF strat [OF True] ok] s1 show ?thesis by auto
    next
      case nf: True
      with run s1 True have "rest d1 = (d', out)"
        by (auto simp: try_strategy_def)
      with rest d1 show ?thesis unfolding delivers_def by metis
    qed
  qed
qed

locale user_directory =
  fixes rs :: "'d UserResolver"
    and users :: "'d \<Rightarrow> auth_User set"
    and ok :: "'d \<Rightarrow> bool"
  assumes by_id: "CHR '':'' \<notin> set i \<Longrightarrow> delivers ok users (\<lambda>u r. r = u \<and> au_InternalUUID u = i) (\<lambda>d. GetUserByID rs d i)"
    and by_provider_id: "CHR '':'' \<notin> set prov \<Longrightarrow>
      delivers ok users (\<lambda>u r. r = u \<and> au_Provider u = prov \<and> au_ProviderUserID u = i) (\<lambda>d. GetUserByProviderID rs d prov i)"
    and by_provider_email:
      "delivers ok users (\<lambda>u r. r = u \<and> au_Provider u = prov \<and> au_Email u = em) (\<lambda>d. GetUserByProviderAndEmail rs d prov em)"
    and by_email: "delivers ok users (\<lambda>u r. r = u \<and> au_Email u = em) (\<lambda>d. GetUserByEmail rs d em)"
    and by_any_provider_id: "delivers ok users (\<lambda>u r. r = u \<and> au_ProviderUserID u = i) (\<lambda>d. GetUserByAnyProviderID rs d i)"
begin

lemma delivers_lookup_result:
  assumes "delivers ok users (\<lambda>u r. r = u \<and> K u) g"
  shows "delivers ok users (\<lambda>u r. r = reflectEmail (resolvedUserFromAuthUser u) em \<and> K u)
           (\<lambda>d. let (d', r) = g d in (d', lookup_result oracle nf fl em r))"
  unfolding delivers_def
proof (intro allI impI)
  fix d d' out
  assume ok: "ok d" and run: "(let (d', r) = g d in (d', lookup_result oracle nf fl em r)) = (d', out)"
  obtain r1 where g: "g d = (d', r1)" and out: "out = lookup_result oracle nf fl em r1"
    using run by (auto split: prod.splits)
  have d1: "ok d' \<and> users d' = users d" by (rule deliversD(1) [OF assms ok g])
  have "\<exists>u \<in> users d. r = reflectEmail (resolvedUserFromAuthUser u) em \<and> K u" if "out = Inr r" for r
    using deliversD(2) [OF assms ok] g out that
    by (cases r1) (auto simp: lookup_result_def)
  with d1 show "ok d' \<and> users d' = users d \<and>
      (\<forall>r. out = Inr r \<longrightarrow> (\<exists>u \<in> users d. r = reflectEmail (resolvedUserFromAuthUser u) em \<and> K u))" by blast
qed

text \<open>What \<open>ResolveUser\<close> guarantees of the user it picks, by the fields the caller supplied.\<close>

lemma delivers_resolveByUUID:
  assumes "CHR '':'' \<notin> set (ru_InternalUUID p)"
  shows "delivers ok users
     (\<lambda>u r. r = reflectEmail (resolvedUserFromAuthUser u) (ru_Email p) \<and> au_InternalUUID u = ru_InternalUUID p \<and>
        (ru_Provider p \<noteq> [] \<longrightarrow> au_Provider u = ru_Provider p) \<and>
        (ru_ProviderID p \<noteq> [] \<longrightarrow> au_ProviderUserID u = ru_ProviderID p))
     (resolveByUUID oracle rs p)"
  unfolding delivers_def
proof (intro allI impI)
  fix d d' out
  assume ok: "ok d" and run: "resolveByUUID oracle rs p d = (d', out)"
  obtain d1 r1 where g: "GetUserByID rs d (ru_InternalUUID p) = (d1, r1)" by fastforce
  have d': "d' = d1" using run g by (auto simp: resolveByUUID_def split: sum.splits)
  have d1: "ok d1 \<and> users d1 = users d" by (rule deliversD(1) [OF by_id [OF assms] ok g])
  show "ok d' \<and> users d' = users d \<and> (\<forall>r. out = Inr r \<longrightarrow> (\<exists>u \<in> users d.
      r = reflectEmail (resolvedUserFromAuthUser u) (ru_Email p) \<and> au_InternalUUID u = ru_InternalUUID p \<and>
      (ru_Provider p \<noteq> [] \<longrightarrow> au_Provider u = ru_Provider p) \<and>
      (ru_ProviderID p \<noteq> [] \<longrightarrow> au_ProviderUserID u = ru_ProviderID p)))"
    using d1 d' deliversD(2) [OF by_id [OF assms] ok] g run
    by (cases r1) (auto simp: resolveByUUID_def split: if_splits)
qed

lemma delivers_resolveWithoutUUID:
  assumes "CHR '':'' \<notin> set (ru_Provider p)"
  shows "delivers ok users (picks p) (resolveWithoutUUID oracle rs p)"
proof (cases "ru_Provider p \<noteq> [] \<and> ru_ProviderID p \<noteq> []")
  case True
  then have "delivers ok users (picks p) (resolveByProviderID oracle rs p)"
    unfolding resolveByProviderID_def
    by (rule_tac delivers_mono [OF delivers_lookup_result [OF by_provider_id [OF assms]]]) (simp add: picks_def)
  moreover have "resolveWithoutUUID oracle rs p = resolveByProviderID oracle rs p"
    using True by (intro ext) (simp add: resolveWithoutUUID_def)
  ultimately show ?thesis by simp
next
  case False
  have any: "delivers ok users (picks p) (resolveByAnyProviderID oracle rs p)" if "ru_ProviderID p \<noteq> []"
    unfolding resolveByAnyProviderID_def using False that
    by (rule_tac delivers_mono [OF delivers_lookup_result [OF by_any_provider_id]]) (auto simp: picks_def)
  have pe: "delivers ok users (picks p) (resolveByProviderAndEmail oracle rs p)" if "ru_Email p \<noteq> []"
    unfolding resolveByProviderAndEmail_def using False that
    by (rule_tac delivers_mono [OF delivers_lookup_result [OF by_provider_email]]) (auto simp: picks_def)
  have em: "delivers ok users (picks p) (resolveByEmail oracle rs p)" if "ru_Email p \<noteq> []"
    unfolding resolveByEmail_def using False that
    by (rule_tac delivers_mono [OF delivers_lookup_result [OF by_email]]) (auto simp: picks_def)
  have last: "delivers ok users (picks p) (\<lambda>d. if ru_Email p \<noteq> [] then resolveByEmail oracle rs p d
       else (d, Inl (errors_New ''ResolveUser: user not found by any strategy'')))"
    using em by (cases "ru_Email p \<noteq> []") (simp_all add: delivers_fail)
  have "resolveWithoutUUID oracle rs p = try_strategy oracle (ru_ProviderID p \<noteq> [] \<and> ru_Email p \<noteq> [])
      (resolveByAnyProviderID oracle rs p)
      (try_strategy oracle (ru_Provider p \<noteq> [] \<and> ru_Email p \<noteq> []) (resolveByProviderAndEmail oracle rs p)
        (\<lambda>d. if ru_Email p \<noteq> [] then resolveByEmail oracle rs p d
             else (d, Inl (errors_New ''ResolveUser: user not found by any strategy''))))"
    unfolding resolveWithoutUUID_def if_not_P [OF False] ..
  moreover have "delivers ok users (picks p) (try_strategy oracle (ru_ProviderID p \<noteq> [] \<and> ru_Email p \<noteq> [])
      (resolveByAnyProviderID oracle rs p)
      (try_strategy oracle (ru_Provider p \<noteq> [] \<and> ru_Email p \<noteq> []) (resolveByProviderAndEmail oracle rs p)
        (\<lambda>d. if ru_Email p \<noteq> [] then resolveByEmail oracle rs p d
             else (d, Inl (errors_New ''ResolveUser: user not found by any strategy'')))))"
    by (intro delivers_try_strategy last) (simp_all add: any pe)
  ultimately show ?thesis by simp
qed

lemma delivers_ResolveUser:
  assumes wf: "CHR '':'' \<notin> set (ru_InternalUUID p)" "CHR '':'' \<notin> set (ru_Provider p)"
  shows "delivers ok users
     (\<lambda>u r. r = reflectEmail (resolvedUserFromAuthUser u) (ru_Email p) \<and>
       (ru_InternalUUID p \<noteq> [] \<longrightarrow> au_InternalUUID u = ru_InternalUUID p) \<and>
       (ru_Provider p \<noteq> [] \<and> ru_ProviderID p \<noteq> [] \<longrightarrow>
          au_Provider u = ru_Provider p \<and> au_ProviderUserID u = ru_ProviderID p))
     (ResolveUser oracle rs p)" (is "delivers ok users ?S _")
proof (cases "ru_InternalUUID p = []")
  case False
  then have "ResolveUser oracle rs p = resolveByUUID oracle rs p" by (intro ext) (simp add: ResolveUser_def)
  moreover have "delivers ok users ?S (resolveByUUID oracle rs p)"
    by (rule delivers_mono [OF delivers_resolveByUUID [OF wf(1)]]) auto
  ultimately show ?thesis by simp
next
  case uuid: True
  have picked: "delivers ok users ?S (resolveWithoutUUID oracle rs p)"
    by (rule delivers_mono [OF delivers_resolveWithoutUUID [OF wf(2)]]) (use uuid in \<open>auto simp: picks_def\<close>)
  show ?thesis
  proof (cases "ru_ProviderID p = [] \<and> ru_Email p = []")
    case True
    with uuid show ?thesis by (simp add: ResolveUser_def [abs_def] delivers_fail)
  next
    case False
    with uuid have "ResolveUser oracle rs p = resolveWithoutUUID oracle rs p" by (intro ext) (auto simp: ResolveUser_def)
    with picked show ?thesis by simp
  qed
qed

end

end
