(* ===== verification/User_Service.thy ===== *)
theory User_Service
  imports Identity "HOL-Library.List_Lexorder" "HOL-Library.Char_ord"
begin

text \<open>
  The users of the authentication service: the repository over the \<open>users\<close> table
  (\<open>auth/repository/user_repository.go\<close>) and the service methods in front of it with their Redis
  cache (\<open>auth/service.go\<close>). The state is the table (rows in primary-key order, which is the order
  GORM's \<open>First\<close> uses), the Redis keyspace, which Redis keys answer at this moment, and an error
  the database returns at this moment, if any. Of a user the identifying columns and the name are
  kept; they all survive the JSON round trip of the cache, which drops the token columns. The theory
  interprets \<open>user_directory\<close> on the service, so that \<open>ResolveUser\<close> is verified over the code that
  implements its lookups.
\<close>

record models_User =
  mu_InternalUUID :: string
  mu_Provider :: string
  mu_ProviderUserID :: "string option"
  mu_Email :: string
  mu_Name :: string

record repository_User =
  rep_InternalUUID :: string
  rep_Provider :: string
  rep_ProviderUserID :: string
  rep_Email :: string
  rep_Name :: string

text \<open>A value in Redis: the JSON of a user, or text that \<open>json.Unmarshal\<close> rejects.\<close>

datatype cached = CachedUser auth_User | CachedGarbage

record auth_service =
  svc_users :: "models_User list"
  svc_redis :: "string \<Rightarrow> cached option"
  svc_redis_up :: "string \<Rightarrow> bool"
  svc_redis_error :: go_error
  svc_db_error :: "go_error option"

subsection \<open>Conversions\<close>

definition convertModelToUser :: "models_User \<Rightarrow> repository_User" where
  "convertModelToUser m = \<lparr>rep_InternalUUID = mu_InternalUUID m, rep_Provider = mu_Provider m,
     rep_ProviderUserID = (case mu_ProviderUserID m of Some i \<Rightarrow> i | None \<Rightarrow> []),
     rep_Email = mu_Email m, rep_Name = mu_Name m\<rparr>"

definition convertUserToModel :: "repository_User \<Rightarrow> models_User" where
  "convertUserToModel u = \<lparr>mu_InternalUUID = rep_InternalUUID u, mu_Provider = rep_Provider u,
     mu_ProviderUserID = (if rep_ProviderUserID u \<noteq> [] then Some (rep_ProviderUserID u) else None),
     mu_Email = rep_Email u, mu_Name = rep_Name u\<rparr>"

definition convertRepoUserToServiceUser :: "repository_User \<Rightarrow> auth_User" where
  "convertRepoUserToServiceUser u = \<lparr>au_InternalUUID = rep_InternalUUID u, au_Provider = rep_Provider u,
     au_ProviderUserID = rep_ProviderUserID u, au_Email = rep_Email u, au_Name = rep_Name u\<rparr>"

definition convertServiceUserToRepoUser :: "auth_User \<Rightarrow> repository_User" where
  "convertServiceUserToRepoUser u = \<lparr>rep_InternalUUID = au_InternalUUID u, rep_Provider = au_Provider u,
     rep_ProviderUserID = au_ProviderUserID u, rep_Email = au_Email u, rep_Name = au_Name u\<rparr>"

abbreviation user_of_row :: "models_User \<Rightarrow> auth_User" where
  "user_of_row m \<equiv> convertRepoUserToServiceUser (convertModelToUser m)"

subsection \<open>The repository\<close>

text \<open>\<open>Where(...).First(...)\<close> and the error handling the five finders share.\<close>

definition repo_First :: "bool \<Rightarrow> auth_service \<Rightarrow> (models_User \<Rightarrow> bool) \<Rightarrow> go_error + repository_User" where
  "repo_First oracle s P =
    (case svc_db_error s of
       Some e \<Rightarrow> Inl (if errors_Is e GormErrRecordNotFound then sentinel_error ErrUserNotFound else Classify oracle e)
     | None \<Rightarrow> (case find P (svc_users s) of
                  None \<Rightarrow> Inl (sentinel_error ErrUserNotFound)
                | Some m \<Rightarrow> Inr (convertModelToUser m)))"

definition GetByEmail :: "bool \<Rightarrow> auth_service \<Rightarrow> string \<Rightarrow> go_error + repository_User" where
  "GetByEmail oracle s email = repo_First oracle s (\<lambda>m. mu_Email m = email)"

definition GetByID :: "bool \<Rightarrow> auth_service \<Rightarrow> string \<Rightarrow> go_error + repository_User" where
  "GetByID oracle s uid = repo_First oracle s (\<lambda>m. mu_InternalUUID m = uid)"

definition GetByProviderID :: "bool \<Rightarrow> auth_service \<Rightarrow> string \<Rightarrow> string \<Rightarrow> go_error + repository_User" where
  "GetByProviderID oracle s provider providerUserID =
     repo_First oracle s (\<lambda>m. mu_Provider m = provider \<and> mu_ProviderUserID m = Some providerUserID)"

definition GetByProviderAndEmail :: "bool \<Rightarrow> auth_service \<Rightarrow> string \<Rightarrow> string \<Rightarrow> go_error + repository_User" where
  "GetByProviderAndEmail oracle s provider email =
     repo_First oracle s (\<lambda>m. mu_Provider m = provider \<and> mu_Email m = email)"

definition GetByAnyProviderID :: "bool \<Rightarrow> auth_service \<Rightarrow> string \<Rightarrow> go_error + repository_User" where
  "GetByAnyProviderID oracle s providerUserID =
     repo_First oracle s (\<lambda>m. mu_ProviderUserID m = Some providerUserID)"

text \<open>\<open>fresh\<close> is the identifier \<open>uuid.New\<close> returns; \<open>dup\<close> the driver's primary-key violation.\<close>

definition repo_Create ::
  "bool \<Rightarrow> string \<Rightarrow> go_error \<Rightarrow> auth_service \<Rightarrow> repository_User \<Rightarrow> auth_service \<times> (go_error + repository_User)" where
  "repo_Create oracle fresh dup s u =
    (let u' = (if rep_InternalUUID u = [] then u\<lparr>rep_InternalUUID := fresh\<rparr> else u); m = convertUserToModel u' in
     case svc_db_error s of
       Some e \<Rightarrow> (s, Inl (Classify oracle e))
     | None \<Rightarrow>
         if rep_InternalUUID u' \<in> mu_InternalUUID ` set (svc_users s) then (s, Inl (Classify oracle dup))
         else (s\<lparr>svc_users := insort_key mu_InternalUUID m (svc_users s)\<rparr>,
               Inr (convertModelToUser m)))"

text \<open>The columns \<open>Updates\<close> writes; provider columns only where the stored ones are blank.\<close>

definition update_row :: "repository_User \<Rightarrow> models_User \<Rightarrow> models_User" where
  "update_row u m = m\<lparr>mu_Email := rep_Email u, mu_Name := rep_Name u,
     mu_Provider := (if mu_Provider m = [] \<and> rep_Provider u \<noteq> [] then rep_Provider u else mu_Provider m),
     mu_ProviderUserID :=
       (if (mu_ProviderUserID m = None \<or> mu_ProviderUserID m = Some []) \<and> rep_ProviderUserID u \<noteq> []
        then Some (rep_ProviderUserID u) else mu_ProviderUserID m)\<rparr>"

definition repo_Update :: "bool \<Rightarrow> auth_service \<Rightarrow> repository_User \<Rightarrow> auth_service \<times> go_error option" where
  "repo_Update oracle s u =
    (case svc_db_error s of
       Some e \<Rightarrow> (s, Some (Classify oracle e))
     | None \<Rightarrow>
         if list_ex (\<lambda>m. mu_InternalUUID m = rep_InternalUUID u) (svc_users s)
         then (s\<lparr>svc_users := map (\<lambda>m. if mu_InternalUUID m = rep_InternalUUID u then update_row u m else m)
                                   (svc_users s)\<rparr>, None)
         else (s, Some (sentinel_error ErrUserNotFound)))"

definition repo_Delete :: "bool \<Rightarrow> auth_service \<Rightarrow> string \<Rightarrow> auth_service \<times> go_error option" where
  "repo_Delete oracle s uid =
    (case svc_db_error s of
       Some e \<Rightarrow> (s, Some (Classify oracle e))
     | None \<Rightarrow>
         if list_ex (\<lambda>m. mu_InternalUUID m = uid) (svc_users s)
         then (s\<lparr>svc_users := filter (\<lambda>m. mu_InternalUUID m \<noteq> uid) (svc_users s)\<rparr>, None)
         else (s, Some (sentinel_error ErrUserNotFound)))"

subsection \<open>The cache\<close>

definition CacheUserKey :: "string \<Rightarrow> string" where
  "CacheUserKey userID = ''cache:user:'' @ userID"

definition CacheUserByEmailKey :: "string \<Rightarrow> string" where
  "CacheUserByEmailKey email = ''cache:user:email:'' @ email"

definition CacheUserByProviderKey :: "string \<Rightarrow> string \<Rightarrow> string" where
  "CacheUserByProviderKey provider providerUserID = ''cache:user:provider:'' @ provider @ '':'' @ providerUserID"

definition redis_Get :: "auth_service \<Rightarrow> string \<Rightarrow> go_error + cached" where
  "redis_Get s k = (if svc_redis_up s k then (case svc_redis s k of None \<Rightarrow> Inl (errors_New ''redis: nil'') | Some v \<Rightarrow> Inr v)
                    else Inl (svc_redis_error s))"

definition redis_Set :: "auth_service \<Rightarrow> string \<Rightarrow> cached \<Rightarrow> auth_service \<times> go_error option" where
  "redis_Set s k v = (if svc_redis_up s k then (s\<lparr>svc_redis := (svc_redis s)(k \<mapsto> v)\<rparr>, None)
                      else (s, Some (svc_redis_error s)))"

definition redis_Del :: "auth_service \<Rightarrow> string \<Rightarrow> auth_service \<times> go_error option" where
  "redis_Del s k = (if svc_redis_up s k then (s\<lparr>svc_redis := (svc_redis s)(k := None)\<rparr>, None)
                    else (s, Some (svc_redis_error s)))"

definition CacheUser :: "auth_service \<Rightarrow> auth_User \<Rightarrow> auth_service \<times> go_error option" where
  "CacheUser s user =
    (case redis_Set s (CacheUserKey (au_InternalUUID user)) (CachedUser user) of
       (s1, Some e) \<Rightarrow> (s1, Some (errorf_wrap ''failed to cache user by ID: '' e))
     | (s1, None) \<Rightarrow>
       (case redis_Set s1 (CacheUserByEmailKey (au_Email user)) (CachedUser user) of
          (s2, Some e) \<Rightarrow> (s2, Some (errorf_wrap ''failed to cache user by email: '' e))
        | (s2, None) \<Rightarrow>
          (case redis_Set s2 (CacheUserByProviderKey (au_Provider user) (au_ProviderUserID user)) (CachedUser user) of
             (s3, Some e) \<Rightarrow> (s3, Some (errorf_wrap ''failed to cache user by provider: '' e))
           | (s3, None) \<Rightarrow> (s3, None))))"

text \<open>The body the three \<open>GetCachedUser...\<close> methods share, on their key.\<close>

definition cached_lookup :: "auth_service \<Rightarrow> string \<Rightarrow> go_error + auth_User option" where
  "cached_lookup s key =
    (case redis_Get s key of
       Inl e \<Rightarrow> if err_Error e = ''redis: nil'' then Inr None else Inl (errorf_wrap ''failed to get cached user: '' e)
     | Inr (CachedUser u) \<Rightarrow> Inr (Some u)
     | Inr CachedGarbage \<Rightarrow> Inl (errors_New ''failed to unmarshal cached user''))"

definition GetCachedUserByID :: "auth_service \<Rightarrow> string \<Rightarrow> go_error + auth_User option" where
  "GetCachedUserByID s userID = cached_lookup s (CacheUserKey userID)"

definition GetCachedUserByEmail :: "auth_service \<Rightarrow> string \<Rightarrow> go_error + auth_User option" where
  "GetCachedUserByEmail s email = cached_lookup s (CacheUserByEmailKey email)"

definition GetCachedUserByProvider :: "auth_service \<Rightarrow> string \<Rightarrow> string \<Rightarrow> go_error + auth_User option" where
  "GetCachedUserByProvider s provider providerUserID = cached_lookup s (CacheUserByProviderKey provider providerUserID)"

fun del_keys :: "auth_service \<Rightarrow> string list \<Rightarrow> auth_service \<times> go_error option" where
  "del_keys s [] = (s, None)"
| "del_keys s (k # ks) =
    (case redis_Del s k of
       (s', Some e) \<Rightarrow> (s', Some (errorf_wrap ''failed to invalidate user cache: '' e))
     | (s', None) \<Rightarrow> del_keys s' ks)"

definition user_keys :: "auth_User \<Rightarrow> string list" where
  "user_keys u = [CacheUserKey (au_InternalUUID u), CacheUserByEmailKey (au_Email u),
     CacheUserByProviderKey (au_Provider u) (au_ProviderUserID u)]"

definition InvalidateUserCache :: "auth_service \<Rightarrow> auth_User \<Rightarrow> auth_service \<times> go_error option" where
  "InvalidateUserCache s user = del_keys s (user_keys user)"

subsection \<open>The service methods\<close>

text \<open>The text of the service's own "not found" is a fresh error, not the repository's sentinel.\<close>

definition service_error :: "string \<Rightarrow> go_error \<Rightarrow> go_error" where
  "service_error failed e =
    (if errors_Is e ErrUserNotFound then errors_New ''user not found'' else errorf_wrap failed e)"

text \<open>Cache first, then the repository, then fill the cache; a cache failure never fails the lookup.\<close>

definition cache_first ::
  "(go_error + auth_User option) \<Rightarrow> (go_error + repository_User) \<Rightarrow> string \<Rightarrow> auth_service \<Rightarrow> auth_service \<times> (go_error + auth_User)" where
  "cache_first hit found failed s =
    (case hit of
       Inr (Some u) \<Rightarrow> (s, Inr u)
     | _ \<Rightarrow>
       (case found of
          Inl e \<Rightarrow> (s, Inl (service_error failed e))
        | Inr ru \<Rightarrow> (let u = convertRepoUserToServiceUser ru in (fst (CacheUser s u), Inr u))))"

definition svc_GetUserByEmail :: "bool \<Rightarrow> auth_service \<Rightarrow> string \<Rightarrow> auth_service \<times> (go_error + auth_User)" where
  "svc_GetUserByEmail oracle s email =
     cache_first (GetCachedUserByEmail s email) (GetByEmail oracle s email) [] s"

definition svc_GetUserByID :: "bool \<Rightarrow> auth_service \<Rightarrow> string \<Rightarrow> auth_service \<times> (go_error + auth_User)" where
  "svc_GetUserByID oracle s uid =
     cache_first (GetCachedUserByID s uid) (GetByID oracle s uid) ''failed to get user: '' s"

definition svc_GetUserByProviderID :: "bool \<Rightarrow> auth_service \<Rightarrow> string \<Rightarrow> string \<Rightarrow> auth_service \<times> (go_error + auth_User)" where
  "svc_GetUserByProviderID oracle s provider providerUserID =
     cache_first (GetCachedUserByProvider s provider providerUserID) (GetByProviderID oracle s provider providerUserID)
       ''failed to get user by provider ID: '' s"

definition svc_GetUserByProviderAndEmail :: "bool \<Rightarrow> auth_service \<Rightarrow> string \<Rightarrow> string \<Rightarrow> auth_service \<times> (go_error + auth_User)" where
  "svc_GetUserByProviderAndEmail oracle s provider email =
    (s, case GetByProviderAndEmail oracle s provider email of
          Inl e \<Rightarrow> Inl (service_error ''failed to get user by provider and email: '' e)
        | Inr ru \<Rightarrow> Inr (convertRepoUserToServiceUser ru))"

definition svc_GetUserByAnyProviderID :: "bool \<Rightarrow> auth_service \<Rightarrow> string \<Rightarrow> auth_service \<times> (go_error + auth_User)" where
  "svc_GetUserByAnyProviderID oracle s providerUserID =
    (s, case GetByAnyProviderID oracle s providerUserID of
          Inl e \<Rightarrow> Inl (service_error ''failed to get user by provider ID: '' e)
        | Inr ru \<Rightarrow> Inr (convertRepoUserToServiceUser ru))"

definition CreateUser ::
  "bool \<Rightarrow> string \<Rightarrow> go_error \<Rightarrow> auth_service \<Rightarrow> auth_User \<Rightarrow> auth_service \<times> (go_error + auth_User)" where
  "CreateUser oracle fresh dup s user =
    (if au_Provider user = [] \<or> au_ProviderUserID user = [] then
       (s, Inl (errors_New ''provider and provider_user_id are required''))
     else case repo_Create oracle fresh dup s (convertServiceUserToRepoUser user) of
       (s', Inl e) \<Rightarrow> (s', Inl (errorf_wrap ''failed to create user: '' e))
     | (s', Inr ru) \<Rightarrow> (let result = convertRepoUserToServiceUser ru in (fst (CacheUser s' result), Inr result)))"

definition UpdateUser :: "bool \<Rightarrow> auth_service \<Rightarrow> auth_User \<Rightarrow> auth_service \<times> go_error option" where
  "UpdateUser oracle s user =
    (case repo_Update oracle s (convertServiceUserToRepoUser user) of
       (s', Some e) \<Rightarrow> (s', Some (service_error ''failed to update user: '' e))
     | (s', None) \<Rightarrow> (fst (InvalidateUserCache s' user), None))"

definition DeleteUser :: "bool \<Rightarrow> auth_service \<Rightarrow> string \<Rightarrow> auth_service \<times> go_error option" where
  "DeleteUser oracle s uid =
    (case svc_GetUserByID oracle s uid of
       (s', Inl e) \<Rightarrow> (s', Some e)
     | (s', Inr user) \<Rightarrow>
       (case repo_Delete oracle s' uid of
          (s'', Some e) \<Rightarrow> (s'', Some (service_error ''failed to delete user: '' e))
        | (s'', None) \<Rightarrow> (fst (InvalidateUserCache s'' user), None)))"

definition service_resolver :: "bool \<Rightarrow> auth_service UserResolver" where
  "service_resolver oracle = \<lparr>GetUserByID = svc_GetUserByID oracle,
     GetUserByProviderID = svc_GetUserByProviderID oracle,
     GetUserByProviderAndEmail = svc_GetUserByProviderAndEmail oracle,
     GetUserByEmail = svc_GetUserByEmail oracle,
     GetUserByAnyProviderID = svc_GetUserByAnyProviderID oracle\<rparr>"

subsection \<open>Cache coherence\<close>

definition svc_userset :: "auth_service \<Rightarrow> auth_User set" where
  "svc_userset s = user_of_row ` set (svc_users s)"

text \<open>
  The cache is coherent when what it holds of a user is the user's row, under one of the user's own
  keys. Identifiers and provider names hold no colon: they are UUIDs and configured names.
\<close>

definition coherent :: "auth_service \<Rightarrow> bool" where
  "coherent s \<longleftrightarrow> distinct (map mu_InternalUUID (svc_users s)) \<and>
     (\<forall>u \<in> svc_userset s. CHR '':'' \<notin> set (au_InternalUUID u) \<and> CHR '':'' \<notin> set (au_Provider u)) \<and>
     (\<forall>k u. svc_redis s k = Some (CachedUser u) \<longrightarrow> u \<in> svc_userset s \<and> k \<in> set (user_keys u))"

lemma colon_split:
  assumes "a @ CHR '':'' # x = b @ CHR '':'' # y" "CHR '':'' \<notin> set a" "CHR '':'' \<notin> set b"
  shows "a = b \<and> x = y"
  using assms
proof (induction a arbitrary: b)
  case Nil
  then show ?case by (cases b) auto
next
  case (Cons c a)
  then show ?case by (cases b) auto
qed

lemma key_of_user:
  assumes "CHR '':'' \<notin> set (au_InternalUUID u)" "CHR '':'' \<notin> set (au_Provider u)"
  shows "CHR '':'' \<notin> set i \<Longrightarrow> CacheUserKey i \<in> set (user_keys u) \<longleftrightarrow> i = au_InternalUUID u"
    and "CacheUserByEmailKey em \<in> set (user_keys u) \<longleftrightarrow> em = au_Email u"
    and "CHR '':'' \<notin> set prov \<Longrightarrow> CacheUserByProviderKey prov pid \<in> set (user_keys u) \<longleftrightarrow>
           prov = au_Provider u \<and> pid = au_ProviderUserID u"
  using assms colon_split [of prov pid "au_Provider u" "au_ProviderUserID u"]
  by (auto simp: user_keys_def CacheUserKey_def CacheUserByEmailKey_def CacheUserByProviderKey_def
        eq_commute [of _ "au_InternalUUID u"])

lemma coherent_Set:
  assumes "coherent s" "u \<in> svc_userset s" "k \<in> set (user_keys u)" "redis_Set s k (CachedUser u) = (s', e)"
  shows "coherent s' \<and> svc_users s' = svc_users s"
  using assms by (auto simp: redis_Set_def coherent_def svc_userset_def split: if_splits)

lemma coherent_CacheUser:
  assumes "coherent s" "u \<in> svc_userset s"
  shows "coherent (fst (CacheUser s u)) \<and> svc_users (fst (CacheUser s u)) = svc_users s"
proof -
  obtain s1 e1 where s1: "redis_Set s (CacheUserKey (au_InternalUUID u)) (CachedUser u) = (s1, e1)" by fastforce
  obtain s2 e2 where s2: "redis_Set s1 (CacheUserByEmailKey (au_Email u)) (CachedUser u) = (s2, e2)" by fastforce
  obtain s3 e3 where s3: "redis_Set s2 (CacheUserByProviderKey (au_Provider u) (au_ProviderUserID u)) (CachedUser u) = (s3, e3)"
    by fastforce
  have 1: "coherent s1 \<and> svc_users s1 = svc_users s" by (rule coherent_Set [OF assms _ s1]) (simp add: user_keys_def)
  have 2: "coherent s2 \<and> svc_users s2 = svc_users s"
    using coherent_Set [OF conjunct1 [OF 1] _ _ s2] 1 assms(2) by (simp add: user_keys_def svc_userset_def)
  have 3: "coherent s3 \<and> svc_users s3 = svc_users s"
    using coherent_Set [OF conjunct1 [OF 2] _ _ s3] 2 assms(2) by (simp add: user_keys_def svc_userset_def)
  show ?thesis using 1 2 3 s1 s2 s3 by (simp add: CacheUser_def split: option.splits)
qed

lemma cached_lookup_hit: "cached_lookup s k = Inr (Some u) \<Longrightarrow> svc_redis s k = Some (CachedUser u)"
  by (auto simp: cached_lookup_def redis_Get_def split: sum.splits cached.splits if_splits option.splits)

lemma repo_First_hit:
  "repo_First oracle s P = Inr ru \<Longrightarrow> \<exists>m \<in> set (svc_users s). P m \<and> ru = convertModelToUser m"
  by (auto simp: repo_First_def find_Some_iff split: option.splits)

lemma delivers_cache_first:
  assumes key: "\<And>s u. coherent s \<Longrightarrow> u \<in> svc_userset s \<Longrightarrow> key \<in> set (user_keys u) \<Longrightarrow> K u"
    and row: "\<And>m. P m \<Longrightarrow> K (user_of_row m)"
  shows "delivers coherent svc_userset (\<lambda>u r. r = u \<and> K u)
           (\<lambda>s. cache_first (cached_lookup s key) (repo_First oracle s P) failed s)"
  unfolding delivers_def
proof (intro allI impI)
  fix s s' out
  assume ok: "coherent s" and run: "cache_first (cached_lookup s key) (repo_First oracle s P) failed s = (s', out)"
  show "coherent s' \<and> svc_userset s' = svc_userset s \<and> (\<forall>r. out = Inr r \<longrightarrow> (\<exists>u \<in> svc_userset s. r = u \<and> K u))"
  proof (cases "\<exists>u. cached_lookup s key = Inr (Some u)")
    case True
    then obtain u where hit: "cached_lookup s key = Inr (Some u)" ..
    with run have "s' = s" "out = Inr u" by (auto simp: cache_first_def)
    moreover have "u \<in> svc_userset s" "key \<in> set (user_keys u)"
      using cached_lookup_hit [OF hit] ok by (auto simp: coherent_def)
    ultimately show ?thesis using ok key by blast
  next
    case False
    then have run: "(s', out) = (case repo_First oracle s P of Inl e \<Rightarrow> (s, Inl (service_error failed e))
        | Inr ru \<Rightarrow> (let u = convertRepoUserToServiceUser ru in (fst (CacheUser s u), Inr u)))"
      using run by (auto simp: cache_first_def split: sum.splits option.splits)
    show ?thesis
    proof (cases "repo_First oracle s P")
      case (Inl e)
      with run ok show ?thesis by simp
    next
      case (Inr ru)
      then obtain m where m: "m \<in> set (svc_users s)" "P m" "ru = convertModelToUser m" using repo_First_hit by blast
      then have "user_of_row m \<in> svc_userset s" by (simp add: svc_userset_def)
      with run Inr m ok row coherent_CacheUser [OF ok this] show ?thesis by (auto simp: svc_userset_def Let_def)
    qed
  qed
qed

lemma delivers_direct:
  assumes row: "\<And>m. P m \<Longrightarrow> K (user_of_row m)"
  shows "delivers coherent svc_userset (\<lambda>u r. r = u \<and> K u)
     (\<lambda>s. (s, case repo_First oracle s P of Inl e \<Rightarrow> Inl (service_error failed e) | Inr ru \<Rightarrow> Inr (convertRepoUserToServiceUser ru)))"
  unfolding delivers_def by (auto simp: svc_userset_def dest!: repo_First_hit intro: row split: sum.splits)

lemma row_fields:
  "au_InternalUUID (user_of_row m) = mu_InternalUUID m" "au_Provider (user_of_row m) = mu_Provider m"
  "au_Email (user_of_row m) = mu_Email m"
  "mu_ProviderUserID m = Some i \<Longrightarrow> au_ProviderUserID (user_of_row m) = i"
  by (simp_all add: convertRepoUserToServiceUser_def convertModelToUser_def)

lemma coherent_colon: "coherent s \<Longrightarrow> u \<in> svc_userset s \<Longrightarrow> CHR '':'' \<notin> set (au_InternalUUID u) \<and> CHR '':'' \<notin> set (au_Provider u)"
  by (simp add: coherent_def)

interpretation svc: user_directory "service_resolver ora" svc_userset coherent for ora
proof (unfold_locales, goal_cases)
  case (1 i)
  show ?case
    unfolding service_resolver_def UserResolver.simps svc_GetUserByID_def GetCachedUserByID_def GetByID_def
    by (rule delivers_cache_first) (use 1 coherent_colon key_of_user(1) in \<open>auto simp: row_fields\<close>)
next
  case (2 prov i)
  show ?case unfolding service_resolver_def UserResolver.simps svc_GetUserByProviderID_def GetCachedUserByProvider_def GetByProviderID_def
    by (rule delivers_cache_first) (use 2 coherent_colon key_of_user(3) in \<open>auto simp: row_fields\<close>)
next
  case (3 prov em)
  show ?case unfolding service_resolver_def UserResolver.simps svc_GetUserByProviderAndEmail_def GetByProviderAndEmail_def
    by (rule delivers_direct) (auto simp: row_fields)
next
  case (4 em)
  show ?case unfolding service_resolver_def UserResolver.simps svc_GetUserByEmail_def GetCachedUserByEmail_def GetByEmail_def
    by (rule delivers_cache_first) (use coherent_colon key_of_user(2) in \<open>auto simp: row_fields\<close>)
next
  case (5 i)
  show ?case unfolding service_resolver_def UserResolver.simps svc_GetUserByAnyProviderID_def GetByAnyProviderID_def
    by (rule delivers_direct) (auto simp: row_fields)
qed

subsection \<open>Resolution over the service\<close>

lemma row_determined:
  assumes "coherent s" "u \<in> svc_userset s" "v \<in> svc_userset s" "au_InternalUUID u = au_InternalUUID v"
  shows "u = v"
proof -
  obtain m n where m: "m \<in> set (svc_users s)" "u = user_of_row m" and n: "n \<in> set (svc_users s)" "v = user_of_row n"
    using assms(2,3) by (auto simp: svc_userset_def)
  have "inj_on mu_InternalUUID (set (svc_users s))" using assms(1) by (simp add: coherent_def distinct_map)
  moreover have "mu_InternalUUID m = mu_InternalUUID n" using assms(4) m n by (simp add: row_fields)
  ultimately have "m = n" using m(1) n(1) by (simp add: inj_onD)
  with m n show ?thesis by simp
qed

lemma GetUserByID_finds:
  assumes ok: "coherent s" and u: "u \<in> svc_userset s" and db: "svc_db_error s = None"
  shows "snd (svc_GetUserByID ora s (au_InternalUUID u)) = Inr u"
proof -
  have c: "CHR '':'' \<notin> set (au_InternalUUID u)" using coherent_colon [OF ok u] by simp
  obtain s' out where run: "svc_GetUserByID ora s (au_InternalUUID u) = (s', out)" by fastforce
  have got: "\<exists>v \<in> svc_userset s. r = v \<and> au_InternalUUID v = au_InternalUUID u" if "out = Inr r" for r
    using deliversD(2) [OF svc.by_id [OF c] ok] run that by (auto simp: service_resolver_def)
  obtain m where m: "m \<in> set (svc_users s)" "mu_InternalUUID m = au_InternalUUID u"
    using u by (auto simp: svc_userset_def row_fields)
  then obtain m' where "find (\<lambda>m. mu_InternalUUID m = au_InternalUUID u) (svc_users s) = Some m'"
    by (cases "find (\<lambda>m. mu_InternalUUID m = au_InternalUUID u) (svc_users s)") (auto simp: find_None_iff)
  with db have found: "GetByID ora s (au_InternalUUID u) = Inr (convertModelToUser m')"
    by (simp add: GetByID_def repo_First_def)
  obtain r where out: "out = Inr r"
    using run unfolding svc_GetUserByID_def found cache_first_def
    by (cases "GetCachedUserByID s (au_InternalUUID u)") (auto simp: Let_def split: option.splits)
  with got row_determined [OF ok _ u] have "r = u" by blast
  with run out show ?thesis by simp
qed


definition demo_row :: models_User where
  "demo_row = \<lparr>mu_InternalUUID = ''u1'', mu_Provider = ''tmi'', mu_ProviderUserID = Some ''alice'',
     mu_Email = ''alice@x.org'', mu_Name = ''Alice''\<rparr>"

definition demo_service :: auth_service where
  "demo_service = \<lparr>svc_users = [demo_row], svc_redis = (\<lambda>_. None), svc_redis_up = (\<lambda>_. True),
     svc_redis_error = errors_New ''redis down'', svc_db_error = None\<rparr>"

definition demo_query :: ResolvedUser where
  "demo_query = empty_ResolvedUser\<lparr>ru_Provider := ''tmi'', ru_ProviderID := ''alice''\<rparr>"

lemma demo_coherent: "coherent demo_service"
  by (simp add: coherent_def demo_service_def svc_userset_def demo_row_def convertModelToUser_def
      convertRepoUserToServiceUser_def)

lemma demo_resolves:
  "snd (ResolveUser False (service_resolver False) demo_query demo_service) =
     Inr (resolvedUserFromAuthUser (user_of_row demo_row))"
  by code_simp


text \<open>
  A user's own resolved identity resolves to itself: when the database answers, looking up the
  record of a stored user returns exactly that record, from the cache or from the table.
\<close>

theorem ResolveUser_roundtrip:
  assumes "coherent s" "u \<in> svc_userset s" "svc_db_error s = None" "au_InternalUUID u \<noteq> []"
  shows "snd (ResolveUser oracle (service_resolver oracle) (resolvedUserFromAuthUser u) s) =
           Inr (resolvedUserFromAuthUser u)"
proof -
  obtain s' where "svc_GetUserByID oracle s (au_InternalUUID u) = (s', Inr u)"
    using GetUserByID_finds [OF assms(1-3)] by (metis prod.collapse)
  then show ?thesis using assms(4)
    by (simp add: ResolveUser_def resolveByUUID_def resolvedUserFromAuthUser_def service_resolver_def reflectEmail_def)
qed

theorem ResolveUser_roundtrip_witness:
  "snd (ResolveUser True (service_resolver True) (resolvedUserFromAuthUser (user_of_row demo_row)) demo_service) =
     Inr (resolvedUserFromAuthUser (user_of_row demo_row))"
  by (rule ResolveUser_roundtrip [OF demo_coherent])
     (simp_all add: svc_userset_def demo_service_def demo_row_def convertModelToUser_def convertRepoUserToServiceUser_def)

subsection \<open>Changing users\<close>

lemma del_keys_up:
  assumes "\<And>k. svc_redis_up s k"
  shows "del_keys s ks = (s\<lparr>svc_redis := (\<lambda>k. if k \<in> set ks then None else svc_redis s k)\<rparr>, None)"
  using assms
proof (induction ks arbitrary: s)
  case Nil
  then show ?case by simp
next
  case (Cons k ks)
  have "del_keys s (k # ks) = del_keys (s\<lparr>svc_redis := (svc_redis s)(k := None)\<rparr>) ks"
    using Cons.prems by (simp add: redis_Del_def)
  also have "\<dots> = (s\<lparr>svc_redis := (\<lambda>k'. if k' \<in> set (k # ks) then None else svc_redis s k')\<rparr>, None)"
    using Cons.IH [of "s\<lparr>svc_redis := (svc_redis s)(k := None)\<rparr>"] Cons.prems by (auto intro!: arg_cong [where f = "\<lambda>f. s\<lparr>svc_redis := f\<rparr>"])
  finally show ?case .
qed

lemma svc_frame_CacheUser [simp]:
  "svc_users (fst (CacheUser s u)) = svc_users s" "svc_redis_up (fst (CacheUser s u)) = svc_redis_up s"
  "svc_db_error (fst (CacheUser s u)) = svc_db_error s"
  by (auto simp: CacheUser_def redis_Set_def split: option.splits)

lemma svc_frame_GetUserByID:
  "svc_GetUserByID oracle s uid = (s', out) \<Longrightarrow>
     svc_users s' = svc_users s \<and> svc_redis_up s' = svc_redis_up s \<and> svc_db_error s' = svc_db_error s"
  by (auto simp: svc_GetUserByID_def cache_first_def Let_def split: sum.splits option.splits)


lemma demo_delete: "DeleteUser False demo_service ''u1'' = (fst (DeleteUser False demo_service ''u1''), None)"
  by (rule prod_eqI) (simp, code_simp)


text \<open>
  A change of email leaves the old address in the cache: \<open>UpdateUser\<close> invalidates the keys of the
  new record only, so that \<open>GetUserByEmail\<close> on the old address keeps returning the old record.
\<close>

theorem UpdateUser_keeps_stale_email:
  assumes cached: "svc_redis s (CacheUserByEmailKey old) = Some (CachedUser u0)"
    and new: "au_Email user \<noteq> old" and uuid: "CHR '':'' \<notin> set (au_InternalUUID user)"
    and up: "\<And>k. svc_redis_up s k" and run: "UpdateUser oracle s user = (s', None)"
  shows "svc_GetUserByEmail oracle s' old = (s', Inr u0)"
proof -
  obtain rows where r: "repo_Update oracle s (convertServiceUserToRepoUser user) = (s\<lparr>svc_users := rows\<rparr>, None)"
    using run by (auto simp: UpdateUser_def repo_Update_def split: option.splits if_splits)
  have s': "s' = s\<lparr>svc_users := rows, svc_redis := (\<lambda>k. if k \<in> set (user_keys user) then None else svc_redis s k)\<rparr>"
    using run r del_keys_up [of "s\<lparr>svc_users := rows\<rparr>" "user_keys user"] up by (simp add: UpdateUser_def InvalidateUserCache_def cong: if_cong)
  have "CacheUserByEmailKey old \<notin> set (user_keys user)"
    using new uuid by (auto simp: user_keys_def CacheUserKey_def CacheUserByEmailKey_def CacheUserByProviderKey_def
        eq_commute [of _ "au_InternalUUID user"])
  then have "GetCachedUserByEmail s' old = Inr (Some u0)"
    using cached up by (simp add: s' GetCachedUserByEmail_def cached_lookup_def redis_Get_def)
  then show ?thesis by (simp add: svc_GetUserByEmail_def cache_first_def)
qed

definition demo_renamed :: auth_User where
  "demo_renamed = (user_of_row demo_row)\<lparr>au_Email := ''new@x.org''\<rparr>"

definition demo_warm :: auth_service where
  "demo_warm = fst (svc_GetUserByEmail False demo_service ''alice@x.org'')"

lemma demo_update: "UpdateUser False demo_warm demo_renamed = (fst (UpdateUser False demo_warm demo_renamed), None)"
  by (rule prod_eqI) (simp, code_simp)

theorem UpdateUser_keeps_stale_email_witness:
  "snd (svc_GetUserByEmail False (fst (UpdateUser False demo_warm demo_renamed)) ''alice@x.org'') =
     Inr (user_of_row demo_row)"
proof -
  have c: "svc_redis demo_warm (CacheUserByEmailKey ''alice@x.org'') = Some (CachedUser (user_of_row demo_row))" by code_simp
  have n: "au_Email demo_renamed \<noteq> ''alice@x.org''" "CHR '':'' \<notin> set (au_InternalUUID demo_renamed)" by code_simp+
  have "svc_redis_up demo_warm = (\<lambda>_. True)"
    by (auto simp: demo_warm_def demo_service_def svc_GetUserByEmail_def cache_first_def Let_def split: sum.splits option.splits)
  then show ?thesis using UpdateUser_keeps_stale_email [OF c n _ demo_update] by simp
qed

end
