(* ===== verification/Access_Control.thy ===== *)
theory Access_Control
  imports User_Service "HOL-Library.Sublist"
begin

text \<open>
  Authorization: \<open>api/auth_utils.go\<close> with its role lookup in \<open>api/middleware.go\<close> and its cache in
  \<open>api/cache_service.go\<close>. Lists of grants and their rules (duplicates, ownership transfer, security
  reviewer), the access decision over users, groups and roles, the authorization a threat model's
  sub-resources inherit from its tables, and the cached decision. A role is a string, as in the code:
  the decision has to say what an unknown role does.
\<close>

subsection \<open>Grant lists\<close>

abbreviation "RoleOwner \<equiv> ''owner''"
abbreviation "RoleWriter \<equiv> ''writer''"
abbreviation "RoleReader \<equiv> ''reader''"

abbreviation mkAuthorization :: "string \<Rightarrow> string \<Rightarrow> string \<Rightarrow> string \<Rightarrow> Authorization" where
  "mkAuthorization pt prov pid role \<equiv> \<lparr>auth_PrincipalType = pt, auth_Provider = prov, auth_ProviderId = pid,
     auth_Role = role, auth_Email = None, auth_DisplayName = None\<rparr>"

definition invalid_input :: "string \<Rightarrow> RequestError" where
  "invalid_input m = requestError 400 ''invalid_input'' m"

definition ConflictError :: "string \<Rightarrow> RequestError" where
  "ConflictError m = requestError 409 ''conflict'' m"

text \<open>The key under which two grants name the same subject; built alike in both functions below.\<close>

definition uniqueKey :: "Authorization \<Rightarrow> string" where
  "uniqueKey a =
    (if auth_PrincipalType a = ''group'' then ''group:'' @ auth_Provider a @ '':'' @ auth_ProviderId a
     else if auth_ProviderId a \<noteq> [] then ''user:'' @ auth_Provider a @ '':id:'' @ auth_ProviderId a
     else ''user:'' @ auth_Provider a @ '':email:'' @ (case auth_Email a of Some e \<Rightarrow> e | None \<Rightarrow> []))"

fun dup_loop :: "string list \<Rightarrow> Authorization list \<Rightarrow> RequestError option" where
  "dup_loop seen [] = None"
| "dup_loop seen (a # rest) =
    (if uniqueKey a \<in> set seen then
       Some (invalid_input (''Duplicate authorization subject: '' @
         (if auth_ProviderId a = [] then (case auth_Email a of Some e \<Rightarrow> e | None \<Rightarrow> []) else auth_ProviderId a)))
     else dup_loop (uniqueKey a # seen) rest)"

definition ValidateDuplicateSubjects :: "Authorization list \<Rightarrow> RequestError option" where
  "ValidateDuplicateSubjects authList = dup_loop [] authList"

text \<open>The first loop: the map from key to the index of its last occurrence.\<close>

fun lastOccurrence :: "nat \<Rightarrow> Authorization list \<Rightarrow> (string \<times> nat) list \<Rightarrow> (string \<times> nat) list" where
  "lastOccurrence i [] m = m"
| "lastOccurrence i (a # rest) m = lastOccurrence (Suc i) rest (AList.update (uniqueKey a) i m)"

fun keep_included :: "nat set \<Rightarrow> nat \<Rightarrow> Authorization list \<Rightarrow> Authorization list" where
  "keep_included inc i [] = []"
| "keep_included inc i (a # rest) = (if i \<in> inc then a # keep_included inc (Suc i) rest else keep_included inc (Suc i) rest)"

definition DeduplicateAuthorizationList :: "Authorization list \<Rightarrow> Authorization list" where
  "DeduplicateAuthorizationList authList =
    (if length authList \<le> 1 then authList
     else keep_included (snd ` set (lastOccurrence 0 authList [])) 0 authList)"

text \<open>Give the first entry that satisfies \<open>P\<close> the owner role; None when there is none.\<close>

fun promote_first :: "(Authorization \<Rightarrow> bool) \<Rightarrow> Authorization list \<Rightarrow> Authorization list option" where
  "promote_first P [] = None"
| "promote_first P (a # rest) =
    (if P a then Some (a\<lparr>auth_Role := RoleOwner\<rparr> # rest) else map_option (Cons a) (promote_first P rest))"

definition ApplyOwnershipTransferRule :: "Authorization list \<Rightarrow> string \<Rightarrow> string \<Rightarrow> Authorization list" where
  "ApplyOwnershipTransferRule authList originalOwner newOwner =
    (if originalOwner = newOwner then authList
     else case promote_first (\<lambda>a. auth_ProviderId a = originalOwner) authList of
       Some l \<Rightarrow> l
     | None \<Rightarrow> authList @ [mkAuthorization ''user'' ''tmi'' originalOwner RoleOwner])"

definition ApplySecurityReviewerRule :: "Authorization list \<Rightarrow> User option \<Rightarrow> Authorization list" where
  "ApplySecurityReviewerRule authList securityReviewer =
    (case securityReviewer of
       None \<Rightarrow> authList
     | Some r \<Rightarrow>
       if usr_ProviderId r = [] then authList
       else case promote_first (\<lambda>a. auth_PrincipalType a = ''user'' \<and> auth_ProviderId a = usr_ProviderId r) authList of
         Some l \<Rightarrow> l
       | None \<Rightarrow> authList @ [mkAuthorization ''user'' (usr_Provider r) (usr_ProviderId r) RoleOwner])"

definition ValidateSecurityReviewerProtection :: "Authorization list \<Rightarrow> User option \<Rightarrow> RequestError option" where
  "ValidateSecurityReviewerProtection proposed securityReviewer =
    (case securityReviewer of
       None \<Rightarrow> None
     | Some r \<Rightarrow>
       if usr_ProviderId r = [] then None
       else case find (\<lambda>a. auth_PrincipalType a = ''user'' \<and> auth_ProviderId a = usr_ProviderId r) proposed of
         Some a \<Rightarrow>
           if auth_Role a = RoleOwner then None
           else Some (ConflictError (''Cannot change role for security reviewer '' @ squote (usr_ProviderId r) @ ''. '' @
             ''The assigned security reviewer must retain the owner role. '' @
             ''To change the security reviewer's role, first unassign them as security reviewer.''))
       | None \<Rightarrow>
           Some (ConflictError (''Cannot remove security reviewer '' @ squote (usr_ProviderId r) @ '' from authorization. '' @
             ''The assigned security reviewer must retain the owner role. '' @
             ''To remove the security reviewer from authorization, first unassign them as security reviewer.'')))"

fun securityReviewerEqual :: "User option \<Rightarrow> User option \<Rightarrow> bool" where
  "securityReviewerEqual None None = True"
| "securityReviewerEqual (Some a) (Some b) = (usr_ProviderId a = usr_ProviderId b)"
| "securityReviewerEqual _ _ = False"

record PatchOperation =
  po_Op :: string
  po_Path :: string
  po_Value :: json

definition convertInterfaceToAuthList :: "json list \<Rightarrow> Authorization list" where
  "convertInterfaceToAuthList l =
     List.map_filter (\<lambda>item. case item of
         JObj m \<Rightarrow> Some (mkAuthorization (json_string_field m ''principal_type'') (json_string_field m ''provider'')
                        (json_string_field m ''provider_id'') (json_string_field m ''role''))
       | _ \<Rightarrow> None) l"

record ownership_changes =
  oc_newOwner :: string
  oc_newAuth :: "Authorization list"
  oc_hasOwnerChange :: bool
  oc_hasAuthChange :: bool

definition extract_change :: "ownership_changes \<Rightarrow> PatchOperation \<Rightarrow> ownership_changes" where
  "extract_change c op =
    (if po_Op op = ''replace'' \<or> po_Op op = ''add'' then
       (if po_Path op = ''/owner'' then
          (case po_Value op of
             JStr v \<Rightarrow> if v \<noteq> [] then c\<lparr>oc_newOwner := v, oc_hasOwnerChange := True\<rparr> else c
           | _ \<Rightarrow> c)
        else if po_Path op = ''/authorization'' then
          (case po_Value op of
             JArr l \<Rightarrow> c\<lparr>oc_newAuth := convertInterfaceToAuthList l, oc_hasAuthChange := True\<rparr>
           | _ \<Rightarrow> c)
        else c)
     else c)"

definition ExtractOwnershipChangesFromOperations :: "PatchOperation list \<Rightarrow> ownership_changes" where
  "ExtractOwnershipChangesFromOperations ops =
     foldl extract_change \<lparr>oc_newOwner = [], oc_newAuth = [], oc_hasOwnerChange = False, oc_hasAuthChange = False\<rparr> ops"

subsection \<open>Validation of grant lists\<close>

definition ValidateAuthorizationEntries :: "Authorization list \<Rightarrow> RequestError option" where
  "ValidateAuthorizationEntries l =
     check_each (\<lambda>i a. if auth_ProviderId a = [] then Some (invalid_input ''Authorization subject cannot be empty'') else None) 0 l"

definition StripResponseOnlyAuthFields :: "Authorization list \<Rightarrow> Authorization list" where
  "StripResponseOnlyAuthFields l = map (\<lambda>a. a\<lparr>auth_DisplayName := None\<rparr>) l"

definition valid_role :: "string \<Rightarrow> bool" where
  "valid_role r \<longleftrightarrow> r = RoleReader \<or> r = RoleWriter \<or> r = RoleOwner"

definition sparse_entry :: "nat \<Rightarrow> Authorization \<Rightarrow> RequestError option" where
  "sparse_entry i a =
    (let fail = (\<lambda>m. Some (requestError 400 ''validation_failed'' (''Authorization entry at index '' @ string_of_nat i @ '': '' @ m))) in
     if auth_Provider a = [] \<or> auth_Provider a = ''*'' then
       fail (squote ''provider'' @ '' must be a valid identity provider name (e.g., '' @ strconv_Quote ''tmi'' @ '', '' @
             strconv_Quote ''google'' @ '', '' @ strconv_Quote ''github'' @ '')'')
     else if auth_ProviderId a = [] \<and> (auth_Email a = None \<or> auth_Email a = Some []) then
       fail (''either '' @ squote ''provider_id'' @ '' or '' @ squote ''email'' @ '' must be provided'')
     else if auth_Role a \<noteq> RoleReader \<and> auth_Role a \<noteq> RoleWriter \<and> auth_Role a \<noteq> RoleOwner then
       fail (''invalid role '' @ squote (auth_Role a) @ ''. Must be one of: reader, writer, owner'')
     else if auth_DisplayName a \<noteq> None \<and> auth_DisplayName a \<noteq> Some [] then
       fail (squote ''display_name'' @ '' cannot be provided in requests (it is a response-only field)'')
     else None)"

definition ValidateSparseAuthorizationEntries :: "Authorization list \<Rightarrow> RequestError option" where
  "ValidateSparseAuthorizationEntries l = check_each sparse_entry 0 l"

definition format_entry :: "nat \<Rightarrow> Authorization \<Rightarrow> RequestError option" where
  "format_entry i a =
    (if auth_ProviderId a = [] then
       Some (invalid_input (''Authorization subject at index '' @ string_of_nat i @ '' cannot be empty''))
     else if length (auth_ProviderId a) > 255 then
       Some (invalid_input (''Authorization subject '' @ squote (auth_ProviderId a) @ '' exceeds maximum length of 255 characters''))
     else if auth_Role a \<noteq> RoleReader \<and> auth_Role a \<noteq> RoleWriter \<and> auth_Role a \<noteq> RoleOwner then
       Some (invalid_input (''Invalid role '' @ squote (auth_Role a) @ '' for subject '' @ squote (auth_ProviderId a) @ ''. Must be one of: reader, writer, owner''))
     else None)"

definition ValidateAuthorizationEntriesWithFormat :: "Authorization list \<Rightarrow> RequestError option" where
  "ValidateAuthorizationEntriesWithFormat l = check_each format_entry 0 l"

subsection \<open>Built-in groups\<close>

definition SecurityReviewersAuthorization :: Authorization where
  "SecurityReviewersAuthorization = mkAuthorization ''group'' ''tmi'' ''security-reviewers'' RoleOwner"

definition IsSecurityReviewersGroup :: "Authorization \<Rightarrow> bool" where
  "IsSecurityReviewersGroup a \<longleftrightarrow> auth_PrincipalType a = ''group'' \<and> auth_ProviderId a = ''security-reviewers''"

definition ConfidentialProjectReviewersAuthorization :: Authorization where
  "ConfidentialProjectReviewersAuthorization = mkAuthorization ''group'' ''tmi'' ''confidential-project-reviewers'' RoleOwner"

definition IsConfidentialProjectReviewersGroup :: "Authorization \<Rightarrow> bool" where
  "IsConfidentialProjectReviewersGroup a \<longleftrightarrow>
     auth_PrincipalType a = ''group'' \<and> auth_ProviderId a = ''confidential-project-reviewers''"

definition TMIAutomationAuthorization :: Authorization where
  "TMIAutomationAuthorization = mkAuthorization ''group'' ''tmi'' ''tmi-automation'' RoleWriter"

definition IsTMIAutomationGroup :: "Authorization \<Rightarrow> bool" where
  "IsTMIAutomationGroup a \<longleftrightarrow> auth_PrincipalType a = ''group'' \<and> auth_ProviderId a = ''tmi-automation''"

definition derefAuthSlice :: "Authorization list option \<Rightarrow> Authorization list" where
  "derefAuthSlice p = (case p of None \<Rightarrow> [] | Some l \<Rightarrow> l)"

subsection \<open>The access decision\<close>

record AuthorizationData =
  ad_Type :: string
  ad_Owner :: User
  ad_Authorization :: "Authorization list"

definition roleHierarchy :: "string \<Rightarrow> nat option" where
  "roleHierarchy = map_of [(RoleReader, 1), (RoleWriter, 2), (RoleOwner, 3)]"

definition isHigherRole :: "string \<Rightarrow> string \<Rightarrow> bool" where
  "isHigherRole role1 role2 =
    (case (roleHierarchy role1, roleHierarchy role2) of (Some l1, Some l2) \<Rightarrow> l1 > l2 | _ \<Rightarrow> False)"

definition hasRequiredRole :: "string \<Rightarrow> string \<Rightarrow> bool" where
  "hasRequiredRole userRole requiredRole =
    (case (roleHierarchy userRole, roleHierarchy requiredRole) of (Some l1, Some l2) \<Rightarrow> l1 \<ge> l2 | _ \<Rightarrow> False)"

text \<open>The pair \<open>(highestRole, found)\<close> the loops carry is an option: None while nothing matched.\<close>

definition updateHighestRole :: "string option \<Rightarrow> string \<Rightarrow> string option" where
  "updateHighestRole cur newRole =
    (case cur of None \<Rightarrow> Some newRole | Some h \<Rightarrow> if isHigherRole newRole h then Some newRole else Some h)"

definition checkGroupMatch :: "Authorization \<Rightarrow> ResolvedUser \<Rightarrow> string list \<Rightarrow> bool" where
  "checkGroupMatch a user groups =
    (if auth_ProviderId a = ''everyone'' then True
     else if auth_Provider a = ''tmi'' \<or> auth_Provider a = ru_Provider user then auth_ProviderId a \<in> set groups
     else False)"

definition user_entry :: "Authorization \<Rightarrow> bool" where
  "user_entry a \<longleftrightarrow> auth_PrincipalType a = [] \<or> auth_PrincipalType a = ''user''"

definition AccessCheck :: "string \<Rightarrow> string \<Rightarrow> AuthorizationData \<Rightarrow> bool" where
  "AccessCheck who requiredRole d =
    (if ad_Type d \<noteq> ''tmi-1.0'' then False
     else if usr_ProviderId (ad_Owner d) = who then True
     else case foldl (\<lambda>h a. if user_entry a \<and> auth_ProviderId a = who
                            then updateHighestRole h (auth_Role a) else h) None (ad_Authorization d) of
       None \<Rightarrow> False
     | Some h \<Rightarrow> hasRequiredRole h requiredRole)"

definition access_step :: "ResolvedUser \<Rightarrow> string list \<Rightarrow> string option \<Rightarrow> Authorization \<Rightarrow> string option" where
  "access_step user groups h a =
    (let h1 = (if user_entry a \<and> SamePrincipal user (ResolvedUserFromAuthorization a)
               then updateHighestRole h (auth_Role a) else h)
     in if auth_PrincipalType a = ''group'' \<and> checkGroupMatch a user groups
        then updateHighestRole h1 (auth_Role a) else h1)"

definition AccessCheckWithGroupsAndIdPLookup :: "ResolvedUser \<Rightarrow> string list \<Rightarrow> string \<Rightarrow> AuthorizationData \<Rightarrow> bool" where
  "AccessCheckWithGroupsAndIdPLookup user groups requiredRole d =
    (if ad_Type d \<noteq> ''tmi-1.0'' then False
     else if SamePrincipal user (ResolvedUserFromUser (ad_Owner d)) then True
     else case foldl (access_step user groups) None (ad_Authorization d) of
       None \<Rightarrow> False
     | Some h \<Rightarrow> hasRequiredRole h requiredRole)"

definition AccessCheckWithGroups :: "ResolvedUser \<Rightarrow> string list \<Rightarrow> string \<Rightarrow> AuthorizationData \<Rightarrow> bool" where
  "AccessCheckWithGroups user groups requiredRole d = AccessCheckWithGroupsAndIdPLookup user groups requiredRole d"

definition getUserRoleFromAuthData :: "ResolvedUser \<Rightarrow> string list \<Rightarrow> AuthorizationData \<Rightarrow> string" where
  "getUserRoleFromAuthData user groups d =
    (if AccessCheckWithGroups user groups RoleOwner d then RoleOwner
     else if AccessCheckWithGroups user groups RoleWriter d then RoleWriter
     else if AccessCheckWithGroups user groups RoleReader d then RoleReader
     else [])"

definition requiredRoleForLegacyMethod :: "string \<Rightarrow> bool \<Rightarrow> string \<times> bool" where
  "requiredRoleForLegacyMethod method isRestoreRoute =
    (if method = ''GET'' then (RoleReader, True)
     else if method = ''POST'' then (if isRestoreRoute then (RoleOwner, True) else (RoleWriter, True))
     else if method = ''DELETE'' then (RoleOwner, True)
     else if method = ''PUT'' \<or> method = ''PATCH'' then (RoleWriter, True)
     else ([], False))"

subsection \<open>Resources\<close>

text \<open>
  The dynamic type of \<open>resource any\<close>: a threat model (by value or pointer), a diagram, or anything
  else. \<open>TestFixtures\<close> is a package variable: its owner and diagram grants are an argument.
\<close>

datatype auth_resource = ResThreatModel User "Authorization list option" | ResDfdDiagram | ResOther

definition ExtractAuthData :: "string \<times> Authorization list \<Rightarrow> auth_resource \<Rightarrow> RequestError + AuthorizationData" where
  "ExtractAuthData fixtures r =
    (case r of
       ResThreatModel owner auths \<Rightarrow> Inr \<lparr>ad_Type = ''tmi-1.0'', ad_Owner = owner, ad_Authorization = derefAuthSlice auths\<rparr>
     | _ \<Rightarrow>
       if r = ResDfdDiagram \<and> fst fixtures \<noteq> [] then
         Inr \<lparr>ad_Type = ''tmi-1.0'',
              ad_Owner = \<lparr>usr_PrincipalType = ''user'', usr_Provider = ''test'', usr_ProviderId = fst fixtures,
                          usr_Email = fst fixtures, usr_DisplayName = fst fixtures\<rparr>,
              ad_Authorization = snd fixtures\<rparr>
       else Inl (requestError 500 ''server_error'' ''Unable to extract authorization data from resource''))"

definition CheckResourceAccess ::
  "string \<times> Authorization list \<Rightarrow> string \<Rightarrow> auth_resource \<Rightarrow> string \<Rightarrow> RequestError + bool" where
  "CheckResourceAccess fixtures subject r requiredRole =
    (case ExtractAuthData fixtures r of Inl e \<Rightarrow> Inl e | Inr d \<Rightarrow> Inr (AccessCheck subject requiredRole d))"

definition CheckResourceAccessWithGroups ::
  "string \<times> Authorization list \<Rightarrow> ResolvedUser \<Rightarrow> string list \<Rightarrow> auth_resource \<Rightarrow> string \<Rightarrow> RequestError + bool" where
  "CheckResourceAccessWithGroups fixtures user groups r requiredRole =
    (case ExtractAuthData fixtures r of Inl e \<Rightarrow> Inl e | Inr d \<Rightarrow> Inr (AccessCheckWithGroups user groups requiredRole d))"

text \<open>\<open>ValidateResourceAccess\<close>: None lets the request go on. Its resource is a nil placeholder.\<close>

definition ValidateResourceAccess :: "string \<times> Authorization list \<Rightarrow> gin_context \<Rightarrow> string \<Rightarrow> RequestError option" where
  "ValidateResourceAccess fixtures c requiredRole =
    (case GetAuthenticatedUser c of
       Inl e \<Rightarrow> Some e
     | Inr user \<Rightarrow>
       (case CheckResourceAccess fixtures (ru_Email user) ResOther requiredRole of
          Inl e \<Rightarrow> Some e
        | Inr True \<Rightarrow> None
        | Inr False \<Rightarrow> Some (requestError 403 ''forbidden'' ''Insufficient permissions for this resource'')))"

subsection \<open>Inherited authorization\<close>

text \<open>
  The tables the queries read. A missing join partner gives NULL columns, which read as empty.
\<close>

record group_row =
  gr_InternalUUID :: string
  gr_Provider :: string
  gr_GroupName :: string
  gr_Name :: "string option"

record access_row =
  ar_ThreatModelID :: string
  ar_SubjectType :: string
  ar_UserUUID :: "string option"
  ar_GroupUUID :: "string option"
  ar_Role :: string

record authz_db =
  adb_threat_models :: "(string \<times> string) list"
  adb_users :: "models_User list"
  adb_groups :: "group_row list"
  adb_access :: "access_row list"
  adb_owner_error :: "go_error option"
  adb_access_error :: "go_error option"
  adb_rows_error :: "go_error option"

definition join_user :: "authz_db \<Rightarrow> access_row \<Rightarrow> models_User option" where
  "join_user d r = (if ar_SubjectType r = ''user'' then find (\<lambda>u. ar_UserUUID r = Some (mu_InternalUUID u)) (adb_users d) else None)"

definition join_group :: "authz_db \<Rightarrow> access_row \<Rightarrow> group_row option" where
  "join_group d r = (if ar_SubjectType r = ''group'' then find (\<lambda>g. ar_GroupUUID r = Some (gr_InternalUUID g)) (adb_groups d) else None)"

definition nonempty :: "string option \<Rightarrow> string option" where
  "nonempty s = (case s of Some t \<Rightarrow> if t \<noteq> [] then Some t else None | None \<Rightarrow> None)"

abbreviation str0 :: "string option \<Rightarrow> string" where
  "str0 s \<equiv> (case s of Some t \<Rightarrow> t | None \<Rightarrow> [])"

definition access_entry :: "authz_db \<Rightarrow> access_row \<Rightarrow> Authorization option" where
  "access_entry d r =
    (if ar_Role r \<noteq> RoleOwner \<and> ar_Role r \<noteq> RoleWriter \<and> ar_Role r \<noteq> RoleReader then None
     else if ar_SubjectType r = ''user'' then
       Some \<lparr>auth_PrincipalType = ''user'', auth_Provider = str0 (map_option mu_Provider (join_user d r)),
             auth_ProviderId = str0 (Option.bind (join_user d r) mu_ProviderUserID), auth_Role = ar_Role r,
             auth_Email = nonempty (map_option mu_Email (join_user d r)),
             auth_DisplayName = nonempty (map_option mu_Name (join_user d r))\<rparr>
     else if ar_SubjectType r = ''group'' then
       Some \<lparr>auth_PrincipalType = ''group'', auth_Provider = str0 (map_option gr_Provider (join_group d r)),
             auth_ProviderId = str0 (map_option gr_GroupName (join_group d r)), auth_Role = ar_Role r,
             auth_Email = None, auth_DisplayName = nonempty (Option.bind (join_group d r) gr_Name)\<rparr>
     else
       Some (mkAuthorization ''user'' (str0 (map_option mu_Provider (join_user d r)))
              (str0 (Option.bind (join_user d r) mu_ProviderUserID)) (ar_Role r)))"

definition GetInheritedAuthData :: "authz_db \<Rightarrow> string \<Rightarrow> go_error + AuthorizationData" where
  "GetInheritedAuthData d tm =
    (case adb_owner_error d of
       Some e \<Rightarrow> Inl (errorf_wrap ''failed to query threat model: '' e)
     | None \<Rightarrow>
       (case find (\<lambda>(t, u). fst t = tm \<and> snd t = mu_InternalUUID u) (List.product (adb_threat_models d) (adb_users d)) of
          None \<Rightarrow> Inl (errorf_wrap ''failed to query threat model: '' (sentinel_error SqlErrNoRows))
        | Some (_, owner) \<Rightarrow>
          (case adb_access_error d of
             Some e \<Rightarrow> Inl (errorf_wrap ''failed to query threat model access: '' e)
           | None \<Rightarrow>
             (case adb_rows_error d of
                Some e \<Rightarrow> Inl (errorf_wrap ''error iterating access rows: '' e)
              | None \<Rightarrow>
                Inr \<lparr>ad_Type = ''tmi-1.0'',
                     ad_Owner = \<lparr>usr_PrincipalType = ''user'', usr_Provider = mu_Provider owner,
                       usr_ProviderId = str0 (mu_ProviderUserID owner), usr_Email = mu_Email owner,
                       usr_DisplayName = (if mu_Name owner \<noteq> [] then mu_Name owner else mu_Email owner)\<rparr>,
                     ad_Authorization = List.map_filter (access_entry d)
                       (rev (sort_key ar_Role (filter (\<lambda>r. ar_ThreatModelID r = tm) (adb_access d))))\<rparr>))))"

text \<open>
  The Redis cache of authorization data (\<open>cache:auth:<id>\<close>), None for a nil \<open>*CacheService\<close>; an entry
  is decodable data or not, and a command on a key fails when the key is down.
\<close>

record auth_cache =
  ac_entries :: "string \<Rightarrow> AuthorizationData option option"
  ac_up :: "string \<Rightarrow> bool"
  ac_error :: go_error

definition GetCachedAuthData :: "auth_cache \<Rightarrow> string \<Rightarrow> go_error + AuthorizationData option" where
  "GetCachedAuthData c tm =
    (if \<not> ac_up c tm then Inl (errorf_wrap ''failed to get cached auth data: '' (ac_error c))
     else case ac_entries c tm of
       None \<Rightarrow> Inr None
     | Some None \<Rightarrow> Inl (errors_New ''failed to unmarshal cached auth data'')
     | Some (Some d) \<Rightarrow> Inr (Some d))"

definition CacheAuthData :: "auth_cache \<Rightarrow> string \<Rightarrow> AuthorizationData \<Rightarrow> auth_cache \<times> go_error option" where
  "CacheAuthData c tm d =
    (if ac_up c tm then (c\<lparr>ac_entries := (ac_entries c)(tm \<mapsto> Some d)\<rparr>, None)
     else (c, Some (errorf_wrap ''failed to cache auth data: '' (ac_error c))))"

definition InvalidateAuthData :: "auth_cache \<Rightarrow> string \<Rightarrow> auth_cache \<times> go_error option" where
  "InvalidateAuthData c tm =
    (if ac_up c tm then (c\<lparr>ac_entries := (ac_entries c)(tm := None)\<rparr>, None)
     else (c, Some (errorf_wrap ''failed to invalidate auth data cache: '' (ac_error c))))"

definition CheckSubResourceAccess ::
  "authz_db \<Rightarrow> auth_cache option \<Rightarrow> ResolvedUser \<Rightarrow> string list \<Rightarrow> string \<Rightarrow> string \<Rightarrow>
   auth_cache option \<times> (go_error + bool)" where
  "CheckSubResourceAccess d cache user groups tm requiredRole =
    (case (case cache of None \<Rightarrow> Inr None | Some c \<Rightarrow> GetCachedAuthData c tm) of
       Inr (Some authData) \<Rightarrow> (cache, Inr (AccessCheckWithGroups user groups requiredRole authData))
     | _ \<Rightarrow>
       (case GetInheritedAuthData d tm of
          Inl e \<Rightarrow> (cache, Inl (errorf_wrap ''failed to get authorization data: '' e))
        | Inr authData \<Rightarrow>
          (map_option (\<lambda>c. fst (CacheAuthData c tm authData)) cache,
           Inr (AccessCheckWithGroups user groups requiredRole authData))))"

definition CheckSubResourceAccessWithoutCache ::
  "authz_db \<Rightarrow> ResolvedUser \<Rightarrow> string list \<Rightarrow> string \<Rightarrow> string \<Rightarrow> go_error + bool" where
  "CheckSubResourceAccessWithoutCache d user groups tm requiredRole =
     snd (CheckSubResourceAccess d None user groups tm requiredRole)"

subsection \<open>Facts about the access decision\<close>

definition grants :: "ResolvedUser \<Rightarrow> string list \<Rightarrow> Authorization \<Rightarrow> bool" where
  "grants user groups a \<longleftrightarrow> (user_entry a \<and> SamePrincipal user (ResolvedUserFromAuthorization a)) \<or>
     (auth_PrincipalType a = ''group'' \<and> checkGroupMatch a user groups)"

lemma access_step_grants:
  "access_step user groups h a = (if grants user groups a then updateHighestRole h (auth_Role a) else h)"
  by (auto simp: access_step_def grants_def user_entry_def)

lemma foldl_guarded: "foldl (\<lambda>h a. if P a then f h (g a) else h) z xs = foldl f z (map g (filter P xs))"
  by (induction xs arbitrary: z) auto

lemma roles_valid: "valid_role r \<Longrightarrow> r \<in> {RoleReader, RoleWriter, RoleOwner}"
  by (auto simp: valid_role_def)

lemma updateHighest_meets:
  assumes "valid_role h" "valid_role r"
  shows "\<exists>k. updateHighestRole (Some h) r = Some k \<and> valid_role k \<and>
     (\<forall>q. hasRequiredRole k q \<longleftrightarrow> hasRequiredRole h q \<or> hasRequiredRole r q)"
  using roles_valid [OF assms(1)] roles_valid [OF assms(2)] assms
  by (auto simp: updateHighestRole_def isHigherRole_def hasRequiredRole_def roleHierarchy_def split: option.splits)

lemma highest_meets:
  assumes "\<forall>r \<in> set rs. valid_role r" "valid_role h"
  shows "\<exists>k. foldl updateHighestRole (Some h) rs = Some k \<and> valid_role k \<and>
     (\<forall>q. hasRequiredRole k q \<longleftrightarrow> hasRequiredRole h q \<or> (\<exists>r \<in> set rs. hasRequiredRole r q))"
  using assms
proof (induction rs arbitrary: h)
  case Nil
  then show ?case by simp
next
  case (Cons r rs)
  from updateHighest_meets [of h r] Cons.prems obtain k where
    k: "updateHighestRole (Some h) r = Some k" "valid_role k"
       "\<And>q. hasRequiredRole k q \<longleftrightarrow> hasRequiredRole h q \<or> hasRequiredRole r q" by auto
  from Cons.IH [of k] Cons.prems k obtain k' where
    "foldl updateHighestRole (Some k) rs = Some k'" "valid_role k'"
    "\<forall>q. hasRequiredRole k' q \<longleftrightarrow> hasRequiredRole k q \<or> (\<exists>r \<in> set rs. hasRequiredRole r q)" by auto
  with k show ?case by auto
qed

definition decide :: "string list \<Rightarrow> string \<Rightarrow> bool" where
  "decide roles req = (case foldl updateHighestRole None roles of None \<Rightarrow> False | Some h \<Rightarrow> hasRequiredRole h req)"

lemma decide_iff:
  assumes "\<forall>r \<in> set roles. valid_role r"
  shows "decide roles req \<longleftrightarrow> (\<exists>r \<in> set roles. hasRequiredRole r req)"
proof (cases roles)
  case Nil
  then show ?thesis by (simp add: decide_def)
next
  case (Cons r rs)
  with highest_meets [of rs r] assms obtain k where
    "foldl updateHighestRole (Some r) rs = Some k"
    "\<forall>q. hasRequiredRole k q \<longleftrightarrow> hasRequiredRole r q \<or> (\<exists>r \<in> set rs. hasRequiredRole r q)" by auto
  with Cons show ?thesis by (simp add: decide_def updateHighestRole_def)
qed

lemma AccessCheckWithGroups_decide:
  "AccessCheckWithGroups user groups req d \<longleftrightarrow> ad_Type d = ''tmi-1.0'' \<and>
     (SamePrincipal user (ResolvedUserFromUser (ad_Owner d)) \<or>
      decide (map auth_Role (filter (grants user groups) (ad_Authorization d))) req)"
  unfolding AccessCheckWithGroups_def AccessCheckWithGroupsAndIdPLookup_def access_step_grants [abs_def] foldl_guarded decide_def
  by simp

lemma AccessCheck_decide:
  "AccessCheck who req d \<longleftrightarrow> ad_Type d = ''tmi-1.0'' \<and> (usr_ProviderId (ad_Owner d) = who \<or>
      decide (map auth_Role (filter (\<lambda>a. user_entry a \<and> auth_ProviderId a = who) (ad_Authorization d))) req)"
  unfolding AccessCheck_def decide_def
    foldl_guarded [where P = "\<lambda>a. user_entry a \<and> auth_ProviderId a = who" and f = updateHighestRole and g = auth_Role]
  by simp

text \<open>
  C1. The access decision: over grants with valid roles, a user has access at a role exactly when the
  data is of the supported type and the user is the owner or some grant, to the user or to one of
  the user's groups, carries a sufficient role. The running maximum of the loop is that existence.
\<close>

theorem AccessCheckWithGroups_iff:
  assumes "\<forall>a \<in> set (ad_Authorization d). grants user groups a \<longrightarrow> valid_role (auth_Role a)"
  shows "AccessCheckWithGroups user groups req d \<longleftrightarrow> ad_Type d = ''tmi-1.0'' \<and>
     (SamePrincipal user (ResolvedUserFromUser (ad_Owner d)) \<or>
      (\<exists>a \<in> set (ad_Authorization d). grants user groups a \<and> hasRequiredRole (auth_Role a) req))"
  using assms by (subst AccessCheckWithGroups_decide, subst decide_iff) auto

definition demo_user :: ResolvedUser where
  "demo_user = \<lparr>ru_InternalUUID = [], ru_Provider = ''tmi'', ru_ProviderID = ''bob'', ru_Email = ''bob@x.org'', ru_DisplayName = ''Bob''\<rparr>"

definition demo_owner :: User where
  "demo_owner = \<lparr>usr_PrincipalType = ''user'', usr_Provider = ''tmi'', usr_ProviderId = ''alice'', usr_Email = ''alice@x.org'',
     usr_DisplayName = ''Alice''\<rparr>"

definition demo_data :: AuthorizationData where
  "demo_data = \<lparr>ad_Type = ''tmi-1.0'', ad_Owner = demo_owner,
     ad_Authorization = [mkAuthorization ''user'' ''tmi'' ''bob'' RoleReader,
                         mkAuthorization ''group'' ''tmi'' ''eng'' RoleWriter]\<rparr>"

theorem AccessCheckWithGroups_iff_witness:
  "AccessCheckWithGroups demo_user [''eng''] RoleWriter demo_data \<and> \<not> AccessCheckWithGroups demo_user [] RoleWriter demo_data"
proof -
  have v: "\<forall>a \<in> set (ad_Authorization demo_data). grants demo_user gs a \<longrightarrow> valid_role (auth_Role a)" for gs
    by (simp add: demo_data_def valid_role_def)
  show ?thesis
    unfolding AccessCheckWithGroups_iff [OF v] by code_simp
qed

lemma hasRequiredRole_table [simp]:
  "hasRequiredRole RoleOwner RoleOwner" "hasRequiredRole RoleOwner RoleWriter" "hasRequiredRole RoleOwner RoleReader"
  "\<not> hasRequiredRole RoleWriter RoleOwner" "hasRequiredRole RoleWriter RoleWriter" "hasRequiredRole RoleWriter RoleReader"
  "\<not> hasRequiredRole RoleReader RoleOwner" "\<not> hasRequiredRole RoleReader RoleWriter" "hasRequiredRole RoleReader RoleReader"
  by code_simp+

lemma hasRequiredRole_invalid: "\<not> valid_role h \<Longrightarrow> \<not> hasRequiredRole h r"
  by (auto simp: hasRequiredRole_def roleHierarchy_def valid_role_def split: option.splits)

definition normal_role :: "(string \<Rightarrow> bool) \<Rightarrow> string" where
  "normal_role P = (if P RoleOwner then RoleOwner else if P RoleWriter then RoleWriter else if P RoleReader then RoleReader else [])"

lemma normal_role_meets: "valid_role req \<Longrightarrow> hasRequiredRole (normal_role (hasRequiredRole h)) req \<longleftrightarrow> hasRequiredRole h req"
proof (cases "valid_role h")
  case True
  assume "valid_role req"
  with True show ?thesis using roles_valid [OF True] roles_valid [of req] by (auto simp: normal_role_def)
next
  case False
  then show ?thesis by (simp add: normal_role_def hasRequiredRole_invalid valid_role_def)
qed

text \<open>
  The role the middleware stores in the context decides every later check: access at a valid role
  is exactly that role being at most \<open>getUserRoleFromAuthData\<close>.
\<close>

theorem role_decides_access:
  assumes "valid_role req"
  shows "AccessCheckWithGroups user groups req d \<longleftrightarrow> hasRequiredRole (getUserRoleFromAuthData user groups d) req"
proof -
  define P where "P r \<longleftrightarrow> AccessCheckWithGroups user groups r d" for r
  let ?roles = "map auth_Role (filter (grants user groups) (ad_Authorization d))"
  have "(\<exists>h. P = hasRequiredRole h) \<or> P = (\<lambda>_. True) \<or> P = (\<lambda>_. False)"
    unfolding P_def [abs_def] AccessCheckWithGroups_decide decide_def
    by (cases "foldl updateHighestRole None ?roles"; cases "ad_Type d = ''tmi-1.0''";
        cases "SamePrincipal user (ResolvedUserFromUser (ad_Owner d))") auto
  moreover have "hasRequiredRole RoleOwner req" "\<not> hasRequiredRole [] req"
    using roles_valid [OF assms] by (auto simp: hasRequiredRole_invalid valid_role_def)
  ultimately have "P req \<longleftrightarrow> hasRequiredRole (normal_role P) req"
    using normal_role_meets [OF assms] by (elim disjE exE) (simp_all add: normal_role_def [of "\<lambda>_. True"] normal_role_def [of "\<lambda>_. False"])
  then show ?thesis by (simp add: P_def getUserRoleFromAuthData_def normal_role_def)
qed

theorem role_decides_access_witness:
  "AccessCheckWithGroups demo_user [''eng''] RoleWriter demo_data \<longleftrightarrow>
     hasRequiredRole (getUserRoleFromAuthData demo_user [''eng''] demo_data) RoleWriter"
  by (rule role_decides_access) (simp add: valid_role_def)

text \<open>
  A grant with an unknown role hides the grants behind it: when the first grant that applies to a
  user other than the owner has an invalid role, access is denied whatever the later grants say.
\<close>

theorem invalid_role_shadows:
  assumes "\<not> SamePrincipal user (ResolvedUserFromUser (ad_Owner d))"
    and "ad_Authorization d = pre @ a # post" "\<forall>b \<in> set pre. \<not> grants user groups b"
    and "grants user groups a" "\<not> valid_role (auth_Role a)"
  shows "\<not> AccessCheckWithGroups user groups req d"
proof -
  have h: "roleHierarchy (auth_Role a) = None" using assms(5) by (auto simp: roleHierarchy_def valid_role_def)
  then have "foldl updateHighestRole (Some (auth_Role a)) rs = Some (auth_Role a)" for rs
    by (induction rs) (simp_all add: updateHighestRole_def isHigherRole_def split: option.splits)
  moreover have "filter (grants user groups) (ad_Authorization d) = a # filter (grants user groups) post"
    using assms(2-4) by simp
  ultimately show ?thesis
    using assms(1) h by (simp add: AccessCheckWithGroups_decide decide_def updateHighestRole_def hasRequiredRole_def)
qed

definition shadow_data :: AuthorizationData where
  "shadow_data = demo_data\<lparr>ad_Authorization := [mkAuthorization ''group'' ''tmi'' ''everyone'' ''viewer'',
     mkAuthorization ''user'' ''tmi'' ''bob'' RoleOwner]\<rparr>"

theorem invalid_role_shadows_witness: "\<not> AccessCheckWithGroups demo_user [] RoleReader shadow_data"
  by (rule invalid_role_shadows [where pre = "[]" and a = "mkAuthorization ''group'' ''tmi'' ''everyone'' ''viewer''"
        and post = "[mkAuthorization ''user'' ''tmi'' ''bob'' RoleOwner]"])
     (code_simp, simp add: shadow_data_def, simp, code_simp, code_simp)

subsection \<open>Facts about grant lists\<close>

lemma dup_loop_None: "dup_loop seen l = None \<longleftrightarrow> distinct (map uniqueKey l) \<and> uniqueKey ` set l \<inter> set seen = {}"
  by (induction l arbitrary: seen) auto

lemma ValidateDuplicateSubjects_None: "ValidateDuplicateSubjects l = None \<longleftrightarrow> distinct (map uniqueKey l)"
  by (simp add: ValidateDuplicateSubjects_def dup_loop_None)

text \<open>The reference: an entry stays when no later entry has its key.\<close>

fun keep_last :: "Authorization list \<Rightarrow> Authorization list" where
  "keep_last [] = []"
| "keep_last (a # rest) = (if uniqueKey a \<in> uniqueKey ` set rest then keep_last rest else a # keep_last rest)"

lemma uniqueKey_keep_last [simp]: "uniqueKey ` set (keep_last l) = uniqueKey ` set l"
  by (induction l) auto

lemma distinct_keep_last: "distinct (map uniqueKey (keep_last l))"
proof (induction l)
  case Nil
  then show ?case by simp
next
  case (Cons a l)
  moreover have "uniqueKey a \<notin> set (map uniqueKey (keep_last l))" if "uniqueKey a \<notin> uniqueKey ` set l" using that by simp
  ultimately show ?case by simp
qed

lemma subseq_keep_last: "subseq (keep_last l) l"
  by (induction l) auto

lemma find_last_keep_last: "find (\<lambda>a. uniqueKey a = k) (rev (keep_last l)) = find (\<lambda>a. uniqueKey a = k) (rev l)"
proof (induction l)
  case Nil
  then show ?case by simp
next
  case (Cons a l)
  show ?case
  proof (cases "uniqueKey a = k \<and> k \<in> uniqueKey ` set l")
    case True
    then have "find (\<lambda>a. uniqueKey a = k) (rev l) \<noteq> None" by (simp add: find_key_None)
    with True Cons show ?thesis by (auto simp: find_append)
  next
    case False
    with Cons show ?thesis by (auto simp: find_append split: option.splits)
  qed
qed

lemma in_update:
  "distinct (map fst m) \<Longrightarrow> (k, v) \<in> set (AList.update k0 i m) \<longleftrightarrow> (if k = k0 then v = i else (k, v) \<in> set m)"
proof -
  assume d: "distinct (map fst m)"
  then have "(k, v) \<in> set (AList.update k0 i m) \<longleftrightarrow> map_of (AList.update k0 i m) k = Some v"
    by (simp only: map_of_eq_Some_iff distinct_update)
  also have "\<dots> \<longleftrightarrow> (if k = k0 then v = i else map_of m k = Some v)" by (auto simp: update_conv')
  finally show ?thesis using d by simp
qed

lemma distinct_lastOccurrence: "distinct (map fst m) \<Longrightarrow> distinct (map fst (lastOccurrence i l m))"
  by (induction l arbitrary: i m) (simp_all add: distinct_update)

text \<open>An index below the part scanned so far survives the rest of the scan when its key does not recur.\<close>

lemma lastOccurrence_old:
  "distinct (map fst m) \<Longrightarrow> j < i \<Longrightarrow> (k, j) \<in> set (lastOccurrence i l m) \<longleftrightarrow> (k, j) \<in> set m \<and> k \<notin> uniqueKey ` set l"
  by (induction l arbitrary: i m) (auto simp: distinct_update in_update split: if_splits)

lemma keep_included_last:
  "distinct (map fst m) \<Longrightarrow> \<forall>v \<in> snd ` set m. v < i \<Longrightarrow>
     keep_included (snd ` set (lastOccurrence i l m)) i l = keep_last l"
proof (induction l arbitrary: i m)
  case Nil
  then show ?case by simp
next
  case (Cons a l)
  let ?m = "AList.update (uniqueKey a) i m"
  have d: "distinct (map fst ?m)" using Cons.prems by (simp add: distinct_update)
  have v: "(k, i) \<notin> set m" for k using Cons.prems(2) by force
  have "\<forall>v \<in> snd ` set ?m. v < Suc i"
  proof
    fix v assume "v \<in> snd ` set ?m"
    then obtain k where "(k, v) \<in> set ?m" by force
    then show "v < Suc i" using Cons.prems by (auto simp: in_update split: if_splits)
  qed
  note IH = Cons.IH [OF d this]
  have "i \<in> snd ` set (lastOccurrence (Suc i) l ?m) \<longleftrightarrow> uniqueKey a \<notin> uniqueKey ` set l"
  proof -
    have "(k, i) \<in> set (lastOccurrence (Suc i) l ?m) \<longleftrightarrow> k = uniqueKey a \<and> k \<notin> uniqueKey ` set l" for k
      unfolding lastOccurrence_old [OF d lessI, where l = l] in_update [OF Cons.prems(1)] using v by simp
    moreover have "i \<in> snd ` S \<longleftrightarrow> (\<exists>k. (k, i) \<in> S)" for S :: "(string \<times> nat) set" by force
    ultimately show ?thesis by simp
  qed
  with IH show ?case by simp
qed

lemma Deduplicate_keep_last: "DeduplicateAuthorizationList l = keep_last l"
proof (cases "length l \<le> 1")
  case True
  then show ?thesis by (cases l; cases "tl l") (auto simp: DeduplicateAuthorizationList_def)
next
  case False
  then show ?thesis by (simp add: DeduplicateAuthorizationList_def keep_included_last)
qed

text \<open>
  Deduplication: the result passes \<open>ValidateDuplicateSubjects\<close>, is a subsequence of the input, and
  for every subject holds the input's last entry for it.
\<close>

theorem DeduplicateAuthorizationList_correct:
  "ValidateDuplicateSubjects (DeduplicateAuthorizationList l) = None \<and> subseq (DeduplicateAuthorizationList l) l \<and>
   (\<forall>k. find (\<lambda>a. uniqueKey a = k) (DeduplicateAuthorizationList l) = find (\<lambda>a. uniqueKey a = k) (rev l))"
proof -
  have "find (\<lambda>a. uniqueKey a = k) (keep_last l) = find (\<lambda>a. uniqueKey a = k) (rev l)" for k
    using find_rev_distinct [OF distinct_keep_last] by (simp add: find_last_keep_last)
  then show ?thesis
    by (simp add: Deduplicate_keep_last ValidateDuplicateSubjects_None distinct_keep_last subseq_keep_last)
qed

text \<open>
  What a key identifies: for providers without a colon, two grants have the same key exactly when
  they are both group grants or both not, name the same provider, and have the same provider
  identifier, or no identifier and the same email.
\<close>

theorem uniqueKey_identifies:
  assumes "CHR '':'' \<notin> set (auth_Provider a)" "CHR '':'' \<notin> set (auth_Provider b)"
  shows "uniqueKey a = uniqueKey b \<longleftrightarrow>
     (auth_PrincipalType a = ''group'' \<longleftrightarrow> auth_PrincipalType b = ''group'') \<and>
     auth_Provider a = auth_Provider b \<and> auth_ProviderId a = auth_ProviderId b \<and>
     (auth_PrincipalType a \<noteq> ''group'' \<and> auth_ProviderId a = [] \<longrightarrow> str0 (auth_Email a) = str0 (auth_Email b))"
proof -
  have c: "auth_Provider a @ CHR '':'' # x = auth_Provider b @ CHR '':'' # y \<longleftrightarrow> auth_Provider a = auth_Provider b \<and> x = y" for x y
    using colon_split [OF _ assms] by auto
  show ?thesis by (auto simp: uniqueKey_def c)
qed

theorem uniqueKey_identifies_witness:
  "uniqueKey (mkAuthorization ''user'' ''tmi'' ''bob'' RoleOwner) = uniqueKey (mkAuthorization [] ''tmi'' ''bob'' RoleReader)"
  by (subst uniqueKey_identifies) simp_all

text \<open>Two different subjects with one key, when a provider name holds a colon.\<close>

lemma uniqueKey_collision:
  "uniqueKey (mkAuthorization ''group'' ''a:b'' ''c'' r) = uniqueKey (mkAuthorization ''group'' ''a'' ''b:c'' r)"
  by (simp add: uniqueKey_def)

subsection \<open>Ownership and the security reviewer\<close>

lemma promote_first_Some:
  "promote_first P l = Some l' \<Longrightarrow> \<exists>pre a post. l = pre @ a # post \<and> P a \<and> (\<forall>b \<in> set pre. \<not> P b) \<and>
     l' = pre @ a\<lparr>auth_Role := RoleOwner\<rparr> # post"
proof (induction l arbitrary: l')
  case (Cons x l)
  show ?case
  proof (cases "P x")
    case True
    with Cons.prems show ?thesis by (intro exI [of _ "[]"]) auto
  next
    case False
    with Cons.prems obtain l1 where "promote_first P l = Some l1" "l' = x # l1" by auto
    with Cons.IH obtain pre a post where "l = pre @ a # post" "P a" "\<forall>b \<in> set pre. \<not> P b"
      "l1 = pre @ a\<lparr>auth_Role := RoleOwner\<rparr> # post" by blast
    with False \<open>l' = x # l1\<close> show ?thesis by (intro exI [of _ "x # pre"]) auto
  qed
qed simp

lemma promote_first_None: "promote_first P l = None \<longleftrightarrow> (\<forall>a \<in> set l. \<not> P a)"
  by (induction l) auto

text \<open>
  After a transfer of ownership the previous owner still has every access: when the list's grants
  under the previous owner's identifier are user grants with valid roles, \<open>AccessCheck\<close> grants the
  previous owner every valid role on the list the rule returns, whoever the new owner is.
\<close>

theorem transfer_keeps_access:
  assumes "\<forall>a \<in> set l. auth_ProviderId a = orig \<longrightarrow> user_entry a \<and> valid_role (auth_Role a)"
    and "ad_Type d = ''tmi-1.0''" "orig \<noteq> usr_ProviderId (ad_Owner d)" "valid_role req"
  shows "AccessCheck orig req (d\<lparr>ad_Authorization := ApplyOwnershipTransferRule l orig (usr_ProviderId (ad_Owner d))\<rparr>)"
proof -
  let ?l = "ApplyOwnershipTransferRule l orig (usr_ProviderId (ad_Owner d))"
  have "(\<exists>a \<in> set ?l. auth_ProviderId a = orig \<and> auth_Role a = RoleOwner) \<and>
        (\<forall>a \<in> set ?l. auth_ProviderId a = orig \<longrightarrow> user_entry a \<and> valid_role (auth_Role a))"
  proof (cases "promote_first (\<lambda>a. auth_ProviderId a = orig) l")
    case None
    then show ?thesis using assms
      by (simp add: ApplyOwnershipTransferRule_def) (auto simp: promote_first_None user_entry_def valid_role_def)
  next
    case (Some l')
    from promote_first_Some [OF this] obtain pre a post where
      "l = pre @ a # post" "auth_ProviderId a = orig" "l' = pre @ a\<lparr>auth_Role := RoleOwner\<rparr> # post" by blast
    with Some assms show ?thesis
      by (simp add: ApplyOwnershipTransferRule_def) (auto simp: user_entry_def valid_role_def)
  qed
  then have v: "\<forall>r \<in> set (map auth_Role (filter (\<lambda>a. user_entry a \<and> auth_ProviderId a = orig) ?l)). valid_role r"
    and o: "RoleOwner \<in> set (map auth_Role (filter (\<lambda>a. user_entry a \<and> auth_ProviderId a = orig) ?l))"
    by force+
  have "hasRequiredRole RoleOwner req" using roles_valid [OF assms(4)] by auto
  with decide_iff [OF v] o assms(2) show ?thesis by (auto simp: AccessCheck_decide)
qed

theorem transfer_keeps_access_witness:
  "AccessCheck ''bob'' RoleOwner (demo_data\<lparr>ad_Authorization :=
     ApplyOwnershipTransferRule [mkAuthorization ''user'' ''tmi'' ''bob'' RoleReader] ''bob'' (usr_ProviderId (ad_Owner demo_data))\<rparr>)"
  by (rule transfer_keeps_access) (simp_all add: demo_data_def demo_owner_def user_entry_def valid_role_def)

text \<open>
  The rule looks at identifiers only: when the first grant with the previous owner's identifier is
  a group's, the group becomes an owner, nothing is added for the previous owner, and without
  another grant of their own \<open>AccessCheck\<close> denies the previous owner everything.
\<close>

theorem transfer_promotes_group:
  assumes "orig \<noteq> usr_ProviderId (ad_Owner d)" "l = pre @ g # post" "\<forall>a \<in> set pre. auth_ProviderId a \<noteq> orig"
    and "auth_ProviderId g = orig" "auth_PrincipalType g = ''group''"
    and "\<forall>a \<in> set post. auth_ProviderId a = orig \<longrightarrow> \<not> user_entry a"
  shows "ApplyOwnershipTransferRule l orig (usr_ProviderId (ad_Owner d)) = pre @ g\<lparr>auth_Role := RoleOwner\<rparr> # post \<and>
     \<not> AccessCheck orig req (d\<lparr>ad_Authorization := ApplyOwnershipTransferRule l orig (usr_ProviderId (ad_Owner d))\<rparr>)"
proof -
  have p: "promote_first (\<lambda>a. auth_ProviderId a = orig) (pre @ g # post) = Some (pre @ g\<lparr>auth_Role := RoleOwner\<rparr> # post)"
    using assms(3,4) by (induction pre) auto
  have l': "ApplyOwnershipTransferRule l orig (usr_ProviderId (ad_Owner d)) = pre @ g\<lparr>auth_Role := RoleOwner\<rparr> # post"
    using p assms(1,2) by (simp add: ApplyOwnershipTransferRule_def)
  have "filter (\<lambda>a. user_entry a \<and> auth_ProviderId a = orig) (pre @ g\<lparr>auth_Role := RoleOwner\<rparr> # post) = []"
    using assms(3-6) by (auto simp: filter_empty_conv user_entry_def)
  then show ?thesis using assms(1) unfolding l' by (simp add: AccessCheck_decide decide_def eq_commute [of orig])
qed

theorem transfer_promotes_group_witness:
  "\<not> AccessCheck ''eng'' RoleReader (demo_data\<lparr>ad_Authorization :=
     ApplyOwnershipTransferRule [mkAuthorization ''group'' ''tmi'' ''eng'' RoleReader] ''eng'' (usr_ProviderId (ad_Owner demo_data))\<rparr>)"
  by (rule conjunct2 [OF transfer_promotes_group [where pre = "[]" and post = "[]"
        and g = "mkAuthorization ''group'' ''tmi'' ''eng'' RoleReader"]])
     (simp_all add: demo_data_def demo_owner_def)

text \<open>
  The security reviewer rule establishes what the protection check demands, and changes nothing
  else: the list it returns passes the check, and every entry of the input that is not the
  reviewer's own keeps its place and value.
\<close>

theorem security_reviewer_protected:
  "ValidateSecurityReviewerProtection (ApplySecurityReviewerRule l r) r = None \<and>
   (\<forall>i < length l. l ! i = ApplySecurityReviewerRule l r ! i \<or>
      (\<exists>u. r = Some u \<and> auth_PrincipalType (l ! i) = ''user'' \<and> auth_ProviderId (l ! i) = usr_ProviderId u \<and>
           ApplySecurityReviewerRule l r ! i = (l ! i)\<lparr>auth_Role := RoleOwner\<rparr>))"
proof (cases "\<exists>u. r = Some u \<and> usr_ProviderId u \<noteq> []")
  case False
  then show ?thesis by (auto simp: ValidateSecurityReviewerProtection_def ApplySecurityReviewerRule_def split: option.splits)
next
  case True
  then obtain u where u: "r = Some u" "usr_ProviderId u \<noteq> []" by blast
  let ?P = "\<lambda>a. auth_PrincipalType a = ''user'' \<and> auth_ProviderId a = usr_ProviderId u"
  have skip: "find ?P (pre @ x # post) = Some x" if "?P x" "\<forall>b \<in> set pre. \<not> ?P b" for pre x post
    using that by (induction pre) auto
  show ?thesis
  proof (cases "promote_first ?P l")
    case None
    then have "\<forall>b \<in> set l. \<not> ?P b" by (simp only: promote_first_None)
    then have "find ?P (l @ [mkAuthorization ''user'' (usr_Provider u) (usr_ProviderId u) RoleOwner]) =
        Some (mkAuthorization ''user'' (usr_Provider u) (usr_ProviderId u) RoleOwner)"
      by (intro skip) simp_all
    with None u show ?thesis
      by (simp add: ValidateSecurityReviewerProtection_def ApplySecurityReviewerRule_def nth_append)
  next
    case (Some l')
    from promote_first_Some [OF this] obtain pre a post where
      l: "l = pre @ a # post" "?P a" "\<forall>b \<in> set pre. \<not> ?P b" "l' = pre @ a\<lparr>auth_Role := RoleOwner\<rparr> # post" by blast
    then have "find ?P l' = Some (a\<lparr>auth_Role := RoleOwner\<rparr>)" using skip [of "a\<lparr>auth_Role := RoleOwner\<rparr>" pre post] by simp
    with Some u l show ?thesis
      by (auto simp: ValidateSecurityReviewerProtection_def ApplySecurityReviewerRule_def nth_append nth_Cons split: nat.splits)
  qed
qed

theorem security_reviewer_protected_witness:
  "ValidateSecurityReviewerProtection (ApplySecurityReviewerRule [mkAuthorization ''user'' ''tmi'' ''alice'' RoleReader] (Some demo_owner))
     (Some demo_owner) = None"
  by (rule conjunct1 [OF security_reviewer_protected])

subsection \<open>Inherited access\<close>

lemma access_entry_role: "access_entry d r = Some a \<Longrightarrow> valid_role (auth_Role a)"
  by (auto simp: access_entry_def valid_role_def split: if_splits)

lemma inherited_roles_valid:
  assumes "GetInheritedAuthData d tm = Inr a" "g \<in> set (ad_Authorization a)"
  shows "valid_role (auth_Role g)"
proof -
  have "\<exists>rows. ad_Authorization a = List.map_filter (access_entry d) rows"
    using assms(1) by (auto simp: GetInheritedAuthData_def split: option.splits prod.splits)
  with assms(2) obtain r where "access_entry d r = Some g" by (auto simp: List.map_filter_def)
  then show ?thesis by (rule access_entry_role)
qed

definition cache_coherent :: "authz_db \<Rightarrow> auth_cache \<Rightarrow> bool" where
  "cache_coherent d c \<longleftrightarrow> (\<forall>tm a. ac_entries c tm = Some (Some a) \<longrightarrow> GetInheritedAuthData d tm = Inr a)"


definition demo_db :: authz_db where
  "demo_db = \<lparr>adb_threat_models = [(''tm1'', ''u1'')], adb_users = [demo_row], adb_groups = [],
     adb_access = [\<lparr>ar_ThreatModelID = ''tm1'', ar_SubjectType = ''user'', ar_UserUUID = Some ''u1'', ar_GroupUUID = None, ar_Role = RoleReader\<rparr>],
     adb_owner_error = None, adb_access_error = None, adb_rows_error = None\<rparr>"

definition demo_cache :: auth_cache where
  "demo_cache = \<lparr>ac_entries = (\<lambda>_. None), ac_up = (\<lambda>_. True), ac_error = errors_New ''down''\<rparr>"


text \<open>
  C2. Inherited access: on a sub-resource a user has access exactly when the threat model's owner is
  the user or a row of the access table, with a known role at least as strong, names the user or a
  group of theirs; rows with unknown roles, and the order of the rows, play no part.
\<close>

theorem inherited_access_iff:
  assumes "GetInheritedAuthData d tm = Inr a"
  shows "CheckSubResourceAccessWithoutCache d user groups tm req = Inr (
     SamePrincipal user (ResolvedUserFromUser (ad_Owner a)) \<or>
     (\<exists>r \<in> set (adb_access d). ar_ThreatModelID r = tm \<and>
        (\<exists>g. access_entry d r = Some g \<and> grants user groups g \<and> hasRequiredRole (ar_Role r) req)))"
proof -
  have t: "ad_Type a = ''tmi-1.0''" and l: "ad_Authorization a = List.map_filter (access_entry d)
      (rev (sort_key ar_Role (filter (\<lambda>r. ar_ThreatModelID r = tm) (adb_access d))))"
    using assms by (auto simp: GetInheritedAuthData_def split: option.splits prod.splits)
  have role: "auth_Role g = ar_Role r" if "access_entry d r = Some g" for r g
    using that by (auto simp: access_entry_def split: if_splits)
  have v: "\<forall>g \<in> set (map auth_Role (filter (grants user groups) (ad_Authorization a))). valid_role g"
    using inherited_roles_valid [OF assms] by auto
  have "AccessCheckWithGroups user groups req a \<longleftrightarrow> SamePrincipal user (ResolvedUserFromUser (ad_Owner a)) \<or>
      (\<exists>g \<in> set (ad_Authorization a). grants user groups g \<and> hasRequiredRole (auth_Role g) req)"
    by (subst AccessCheckWithGroups_decide, subst decide_iff [OF v]) (auto simp: t)
  also have "(\<exists>g \<in> set (ad_Authorization a). grants user groups g \<and> hasRequiredRole (auth_Role g) req) \<longleftrightarrow>
      (\<exists>r \<in> set (adb_access d). ar_ThreatModelID r = tm \<and>
        (\<exists>g. access_entry d r = Some g \<and> grants user groups g \<and> hasRequiredRole (ar_Role r) req))"
    unfolding l by (auto simp: List.map_filter_def role)
  finally show ?thesis using assms by (simp add: CheckSubResourceAccessWithoutCache_def CheckSubResourceAccess_def)
qed

theorem inherited_access_iff_witness:
  "CheckSubResourceAccessWithoutCache demo_db demo_user [] ''tm1'' RoleReader = Inr False"
proof -
  obtain a where a: "GetInheritedAuthData demo_db ''tm1'' = Inr a" and o: "ad_Owner a = \<lparr>usr_PrincipalType = ''user'',
      usr_Provider = ''tmi'', usr_ProviderId = ''alice'', usr_Email = ''alice@x.org'', usr_DisplayName = ''Alice''\<rparr>"
    by (simp add: GetInheritedAuthData_def demo_db_def demo_row_def)
  have "\<not> SamePrincipal demo_user (ResolvedUserFromUser (ad_Owner a))"
    by (simp add: o SamePrincipal_def ResolvedUserFromUser_def demo_user_def)
  moreover have "\<forall>r \<in> set (adb_access demo_db). \<forall>g. access_entry demo_db r = Some g \<longrightarrow> \<not> grants demo_user [] g"
    by (simp add: demo_db_def access_entry_def join_user_def demo_row_def grants_def SamePrincipal_def
        ResolvedUserFromAuthorization_def demo_user_def)
  ultimately show ?thesis unfolding inherited_access_iff [OF a] by auto
qed

end
