(* ===== verification/Diagram_Cells.thy ===== *)
theory Diagram_Cells
  imports Complex_Main Identity
begin

text \<open>
  Diagram cells: the node decoder and encoder (\<open>api/node_unmarshal.go\<close>, \<open>api/cell_union_helpers.go\<close>),
  the sanitizer of cell metadata (\<open>api/markdown_sanitizer.go\<close>, \<open>api/html_injection_checker.go\<close>), the
  helpers on lists of cells (\<open>api/websocket_cell_helpers.go\<close>) and the validation of cell operations
  (\<open>api/asyncapi_types.go\<close>). A \<open>DfdDiagram_Cells_Item\<close> holds raw JSON; here it is what that JSON
  decodes to: the fields of a node, an edge, or neither. Coordinates are rationals (a \<open>float32\<close> is only
  stored and compared); attributes, ports and other opaque parts of a cell are one field each.
\<close>

record Metadata =
  md_Key :: string
  md_Value :: string

record Cell_Data =
  cd_Metadata :: "Metadata list option"
  cd_Rest :: string

text \<open>The intermediate struct of \<open>UnmarshalJSON\<close>: both coordinate formats; a size is width and height.\<close>

record NodeTemp =
  nt_X :: "rat option"
  nt_Y :: "rat option"
  nt_Width :: "rat option"
  nt_Height :: "rat option"
  nt_Position :: "(rat \<times> rat) option"
  nt_Size :: "(rat \<times> rat) option"
  nt_Id :: string
  nt_Shape :: string
  nt_Data :: "Cell_Data option"
  nt_Rest :: string

record Node =
  nd_X :: "rat option"
  nd_Y :: "rat option"
  nd_Width :: "rat option"
  nd_Height :: "rat option"
  nd_Position :: "(rat \<times> rat) option"
  nd_Size :: "(rat \<times> rat) option"
  nd_Id :: string
  nd_Shape :: string
  nd_Data :: "Cell_Data option"
  nd_Rest :: string

record Edge =
  ed_Id :: string
  ed_Shape :: string
  ed_Source :: string
  ed_Target :: string
  ed_Data :: "Cell_Data option"
  ed_Rest :: string

datatype Cells_Item = NodeJSON NodeTemp | EdgeJSON Edge | OtherJSON

subsection \<open>Decoding and encoding\<close>

definition UnmarshalNode :: "NodeTemp \<Rightarrow> string + Node" where
  "UnmarshalNode t =
    (let hasFlat = (nt_X t \<noteq> None \<and> nt_Y t \<noteq> None \<and> nt_Width t \<noteq> None \<and> nt_Height t \<noteq> None);
         hasNested = (nt_Position t \<noteq> None \<and> nt_Size t \<noteq> None) in
     if \<not> hasFlat \<and> \<not> hasNested then Inl ''node must have either x/y/width/height properties or position/size objects''
     else
       (let pos = (if hasFlat then (the (nt_X t), the (nt_Y t)) else the (nt_Position t));
            siz = (if hasFlat then (the (nt_Width t), the (nt_Height t)) else the (nt_Size t)) in
        if fst siz < 40 then Inl ''node width must be at least 40 pixels''
        else if snd siz < 30 then Inl ''node height must be at least 30 pixels''
        else Inr \<lparr>nd_X = None, nd_Y = None, nd_Width = None, nd_Height = None,
                  nd_Position = Some pos, nd_Size = Some siz, nd_Id = nt_Id t, nd_Shape = nt_Shape t,
                  nd_Data = nt_Data t, nd_Rest = nt_Rest t\<rparr>))"

definition MarshalNode :: "Node \<Rightarrow> NodeTemp" where
  "MarshalNode n =
    (let siz = (case nd_Size n of Some s \<Rightarrow> s | None \<Rightarrow> (0, 0));
         pos = (case nd_Position n of Some p \<Rightarrow> p | None \<Rightarrow> (0, 0)) in
     \<lparr>nt_X = Some (fst pos), nt_Y = Some (snd pos), nt_Width = Some (fst siz), nt_Height = Some (snd siz),
      nt_Position = None, nt_Size = None, nt_Id = nd_Id n, nt_Shape = nd_Shape n,
      nt_Data = nd_Data n, nt_Rest = nd_Rest n\<rparr>)"

definition AsNode :: "Cells_Item \<Rightarrow> string + Node" where
  "AsNode c = (case c of NodeJSON t \<Rightarrow> UnmarshalNode t
     | EdgeJSON _ \<Rightarrow> Inl ''node must have either x/y/width/height properties or position/size objects''
     | OtherJSON \<Rightarrow> Inl ''failed to unmarshal node'')"

text \<open>The edge decoder is lenient: a node's JSON decodes to an edge without terminals.\<close>

definition AsEdge :: "Cells_Item \<Rightarrow> string + Edge" where
  "AsEdge c = (case c of EdgeJSON e \<Rightarrow> Inr e
     | NodeJSON t \<Rightarrow> Inr \<lparr>ed_Id = nt_Id t, ed_Shape = nt_Shape t, ed_Source = [], ed_Target = [], ed_Data = nt_Data t, ed_Rest = nt_Rest t\<rparr>
     | OtherJSON \<Rightarrow> Inl ''failed to unmarshal edge'')"

definition Discriminator :: "Cells_Item \<Rightarrow> string + string" where
  "Discriminator c = (case c of NodeJSON t \<Rightarrow> Inr (nt_Shape t) | EdgeJSON e \<Rightarrow> Inr (ed_Shape e)
     | OtherJSON \<Rightarrow> Inl ''failed to unmarshal discriminator'')"

definition SafeFromNode :: "Node \<Rightarrow> Cells_Item" where
  "SafeFromNode n = NodeJSON (MarshalNode n)"

definition SafeFromEdge :: "Edge \<Rightarrow> Cells_Item" where
  "SafeFromEdge e = EdgeJSON e"

definition normalizeCellData :: "Cells_Item \<Rightarrow> Cells_Item" where
  "normalizeCellData c =
    (case AsNode c of
       Inl _ \<Rightarrow> c
     | Inr n \<Rightarrow>
       (let move = (nd_X n \<noteq> None \<and> nd_Y n \<noteq> None \<and> nd_Position n = None);
            n1 = (if move then n\<lparr>nd_Position := Some (the (nd_X n), the (nd_Y n)), nd_X := None, nd_Y := None\<rparr> else n);
            c1 = (if move then SafeFromNode n1 else c);
            resize = (nd_Width n1 \<noteq> None \<and> nd_Height n1 \<noteq> None \<and> nd_Size n1 = None);
            n2 = (if resize then n1\<lparr>nd_Size := Some (the (nd_Width n1), the (nd_Height n1)), nd_Width := None, nd_Height := None\<rparr> else n1)
        in if resize then SafeFromNode n2 else c1))"

definition NormalizeDiagramCells :: "Cells_Item list \<Rightarrow> Cells_Item list" where
  "NormalizeDiagramCells cells = map normalizeCellData cells"

subsection \<open>Sanitizing metadata\<close>

text \<open>
  \<open>bluemonday\<close>'s strict policy and \<open>html.UnescapeString\<close> are arguments; the regular expressions of
  \<open>htmlInjectionPatterns\<close> are matched with ASCII case folding.
\<close>

record text_lib =
  tl_unescape :: "string \<Rightarrow> string"
  tl_strict :: "string \<Rightarrow> string"

fun decode_entities :: "text_lib \<Rightarrow> nat \<Rightarrow> string \<Rightarrow> string" where
  "decode_entities lib 0 s = s"
| "decode_entities lib (Suc n) s = (let next = tl_unescape lib s in if next = s then s else decode_entities lib n next)"

definition SanitizePlainText :: "text_lib \<Rightarrow> string \<Rightarrow> string" where
  "SanitizePlainText lib s =
    (if s = [] then s else tl_unescape lib (tl_strict lib (decode_entities lib 10 s)))"

text \<open>The pattern \<open><tag[^>]*>\<close>: the opening characters and a later closing bracket.\<close>

fun tag_open :: "string \<Rightarrow> string \<Rightarrow> bool" where
  "tag_open tag [] = False"
| "tag_open tag (c # s) = ((strings_HasPrefix (c # s) tag \<and> CHR ''>'' \<in> set (drop (length tag) (c # s))) \<or> tag_open tag s)"

definition word_char :: "char \<Rightarrow> bool" where
  "word_char c \<longleftrightarrow> (let n = of_char c :: nat in (97 \<le> n \<and> n \<le> 122) \<or> (65 \<le> n \<and> n \<le> 90) \<or> (48 \<le> n \<and> n \<le> 57) \<or> n = 95)"

definition space_char :: "char \<Rightarrow> bool" where
  "space_char c \<longleftrightarrow> (of_char c :: nat) \<in> {9, 10, 12, 13, 32}"

text \<open>\<open>on\w+\s*=\<close> at the front of a string, and anywhere in it.\<close>

definition event_here :: "string \<Rightarrow> bool" where
  "event_here s = (strings_HasPrefix s ''on'' \<and>
     (let w = takeWhile word_char (drop 2 s); r = dropWhile space_char (drop (2 + length w) s)
      in w \<noteq> [] \<and> strings_HasPrefix r ''=''))"

fun event_handler :: "string \<Rightarrow> bool" where
  "event_handler [] = False"
| "event_handler (c # s) = (event_here (c # s) \<or> event_handler s)"

definition htmlInjectionPatterns :: "(string \<Rightarrow> bool) list" where
  "htmlInjectionPatterns =
    [\<lambda>v. tag_open ''<script'' v, \<lambda>v. strings_Contains v ''</script>'', \<lambda>v. tag_open ''<iframe'' v,
     \<lambda>v. strings_Contains v ''</iframe>'', \<lambda>v. tag_open ''<object'' v, \<lambda>v. tag_open ''<embed'' v,
     \<lambda>v. tag_open ''<applet'' v, \<lambda>v. strings_Contains v ''javascript:'', event_handler]"

definition templateInjectionPatterns :: "(string \<times> string) list" where
  "templateInjectionPatterns =
    [(''${{'', ''GitHub Actions context''), (''{{'', ''template expression''), (''}}'', ''template expression''),
     (''${'', ''template interpolation''), (''<%'', ''server template tag''), (''%>'', ''server template tag''),
     (''#{'', ''expression language'')]"

definition CheckHTMLInjection :: "string \<Rightarrow> string \<Rightarrow> RequestError option" where
  "CheckHTMLInjection v fieldName =
    (if list_ex (\<lambda>p. p (strings_ToLower v)) htmlInjectionPatterns then
       Some (requestError 400 ''invalid_input'' (''Field '' @ squote fieldName @ '' contains potentially unsafe content''))
     else case find (\<lambda>(p, d). strings_Contains v p) templateInjectionPatterns of
       Some (p, d) \<Rightarrow> Some (requestError 400 ''invalid_input''
         (''Field '' @ squote fieldName @ '' contains potentially unsafe '' @ d @ '' pattern ('' @ p @ '')''))
     | None \<Rightarrow> None)"

fun sanitize_values :: "text_lib \<Rightarrow> Metadata list \<Rightarrow> RequestError + Metadata list" where
  "sanitize_values lib [] = Inr []"
| "sanitize_values lib (m # ms) =
    (let v = SanitizePlainText lib (md_Value m) in
     case CheckHTMLInjection v ''value'' of
       Some e \<Rightarrow> Inl e
     | None \<Rightarrow> (case sanitize_values lib ms of Inl e \<Rightarrow> Inl e | Inr ms' \<Rightarrow> Inr (m\<lparr>md_Value := v\<rparr> # ms')))"

definition SanitizeMetadataSlice :: "text_lib \<Rightarrow> Metadata list option \<Rightarrow> RequestError + Metadata list option" where
  "SanitizeMetadataSlice lib md =
    (case md of None \<Rightarrow> Inr None
     | Some ms \<Rightarrow> (case sanitize_values lib ms of Inl e \<Rightarrow> Inl e | Inr ms' \<Rightarrow> Inr (Some ms')))"

text \<open>The data part of a cell with its metadata sanitized; None when the code leaves the cell alone.\<close>

definition sanitize_data :: "text_lib \<Rightarrow> Cell_Data option \<Rightarrow> RequestError + Cell_Data option" where
  "sanitize_data lib d =
    (case d of
       None \<Rightarrow> Inr None
     | Some cd \<Rightarrow>
       (case cd_Metadata cd of
          None \<Rightarrow> Inr None
        | Some ms \<Rightarrow> (case SanitizeMetadataSlice lib (Some ms) of Inl e \<Rightarrow> Inl e | Inr md \<Rightarrow> Inr (Some (cd\<lparr>cd_Metadata := md\<rparr>)))))"

definition sanitize_cell :: "text_lib \<Rightarrow> Cells_Item \<Rightarrow> RequestError + Cells_Item" where
  "sanitize_cell lib c =
    (case Discriminator c of
       Inl _ \<Rightarrow> Inr c
     | Inr disc \<Rightarrow>
       if disc = ''flow'' then
         (case AsEdge c of
            Inl _ \<Rightarrow> Inr c
          | Inr e \<Rightarrow> (case sanitize_data lib (ed_Data e) of
                        Inl err \<Rightarrow> Inl err
                      | Inr None \<Rightarrow> Inr c
                      | Inr (Some cd) \<Rightarrow> Inr (SafeFromEdge (e\<lparr>ed_Data := Some cd\<rparr>))))
       else
         (case AsNode c of
            Inl _ \<Rightarrow> Inr c
          | Inr n \<Rightarrow> (case sanitize_data lib (nd_Data n) of
                        Inl err \<Rightarrow> Inl err
                      | Inr None \<Rightarrow> Inr c
                      | Inr (Some cd) \<Rightarrow> Inr (SafeFromNode (n\<lparr>nd_Data := Some cd\<rparr>)))))"

text \<open>The slice is changed in place up to the first failure.\<close>

fun SanitizeDiagramCellMetadata :: "text_lib \<Rightarrow> Cells_Item list \<Rightarrow> Cells_Item list \<times> RequestError option" where
  "SanitizeDiagramCellMetadata lib [] = ([], None)"
| "SanitizeDiagramCellMetadata lib (c # cs) =
    (case sanitize_cell lib c of
       Inl e \<Rightarrow> (c # cs, Some e)
     | Inr c' \<Rightarrow> (let (cs', e) = SanitizeDiagramCellMetadata lib cs in (c' # cs', e)))"

subsection \<open>Lists of cells\<close>

definition extractCellID :: "Cells_Item \<Rightarrow> string" where
  "extractCellID c = (case AsNode c of Inr n \<Rightarrow> nd_Id n
     | Inl _ \<Rightarrow> (case AsEdge c of Inr e \<Rightarrow> ed_Id e | Inl _ \<Rightarrow> []))"

record CellOperation =
  co_ID :: string
  co_Operation :: string
  co_Data :: "Cells_Item option"

record CellPatchOperation =
  cp_Type :: string
  cp_Cells :: "CellOperation list"

fun dedup_cells :: "string list \<Rightarrow> CellOperation list \<Rightarrow> CellOperation list" where
  "dedup_cells seen [] = []"
| "dedup_cells seen (op # ops) =
    (if co_ID op \<in> set seen then dedup_cells seen ops else op # dedup_cells (co_ID op # seen) ops)"

definition deduplicateCellOperations :: "CellOperation list \<Rightarrow> CellOperation list" where
  "deduplicateCellOperations cells = dedup_cells [] cells"

fun findAndReplaceCellInDiagram :: "Cells_Item list \<Rightarrow> string \<Rightarrow> Cells_Item \<Rightarrow> Cells_Item list option" where
  "findAndReplaceCellInDiagram [] cellID newData = None"
| "findAndReplaceCellInDiagram (c # cs) cellID newData =
    (if extractCellID c = cellID then Some (newData # cs)
     else map_option (Cons c) (findAndReplaceCellInDiagram cs cellID newData))"

text \<open>Swap-remove: the last cell takes the place of the removed one.\<close>

fun cell_index :: "Cells_Item list \<Rightarrow> string \<Rightarrow> nat option" where
  "cell_index [] cellID = None"
| "cell_index (c # cs) cellID = (if extractCellID c = cellID then Some 0 else map_option Suc (cell_index cs cellID))"

definition removeCellFromDiagram :: "Cells_Item list \<Rightarrow> string \<Rightarrow> Cells_Item list option" where
  "removeCellFromDiagram cells cellID =
    (case cell_index cells cellID of
       None \<Rightarrow> None
     | Some i \<Rightarrow>
       (let lastIndex = length cells - 1;
            cells' = (if i \<noteq> lastIndex then cells[i := cells ! lastIndex] else cells)
        in Some (take lastIndex cells')))"

text \<open>A \<open>map[string]*DfdDiagram_Cells_Item\<close> is an association list, in the order \<open>range\<close> visits it.\<close>

type_synonym cell_map = "(string \<times> Cells_Item) list"

definition buildCellState :: "Cells_Item list \<Rightarrow> cell_map" where
  "buildCellState cells = foldl (\<lambda>m c. if extractCellID c \<noteq> [] then AList.update (extractCellID c) c m else m) [] cells"

definition copyPreviousState :: "cell_map \<Rightarrow> cell_map" where
  "copyPreviousState currentState = foldl (\<lambda>m (k, v). AList.update k v m) [] currentState"

definition buildCellStateMap :: "Cells_Item list \<Rightarrow> cell_map" where
  "buildCellStateMap cells =
     foldl (\<lambda>m c. let itemID = (case AsNode c of Inr n \<Rightarrow> nd_Id n | Inl _ \<Rightarrow> (case AsEdge c of Inr e \<Rightarrow> ed_Id e | Inl _ \<Rightarrow> []))
                  in if itemID \<noteq> [] then AList.update itemID c m else m) [] cells"

subsection \<open>Validating operations\<close>

text \<open>\<open>uuid.Parse\<close> is an argument: whether it accepts a string.\<close>

definition CellOperation_Validate :: "(string \<Rightarrow> bool) \<Rightarrow> CellOperation \<Rightarrow> string option" where
  "CellOperation_Validate uuid_ok op =
    (if co_ID op = [] then Some ''cell id is required''
     else if \<not> uuid_ok (co_ID op) then Some ''cell id must be a valid UUID''
     else if co_Operation op = ''add'' \<or> co_Operation op = ''update'' then
       (case co_Data op of
          None \<Rightarrow> Some (co_Operation op @ '' operation requires cell data'')
        | Some d \<Rightarrow>
          (case (case AsNode d of Inr n \<Rightarrow> Some (nd_Id n)
                 | Inl _ \<Rightarrow> (case AsEdge d of Inr e \<Rightarrow> Some (ed_Id e) | Inl _ \<Rightarrow> None)) of
             None \<Rightarrow> Some ''cell data must be either a Node or Edge''
           | Some cellID \<Rightarrow>
             if cellID \<noteq> co_ID op then Some (''cell data ID ('' @ cellID @ '') must match operation ID ('' @ co_ID op @ '')'')
             else None))
     else if co_Operation op = ''remove'' then
       (if co_Data op \<noteq> None then Some ''remove operation should not include cell data'' else None)
     else Some (''invalid operation type: '' @ co_Operation op @ '' (must be add, update, or remove)''))"

definition CellPatchOperation_Validate :: "(string \<Rightarrow> bool) \<Rightarrow> CellPatchOperation \<Rightarrow> string option" where
  "CellPatchOperation_Validate uuid_ok op =
    (if cp_Type op \<noteq> ''patch'' then Some (''operation type must be '' @ squote ''patch'' @ '', got: '' @ cp_Type op)
     else if cp_Cells op = [] then Some ''at least one cell operation is required''
     else check_each (\<lambda>i c. map_option (\<lambda>e. ''cell operation '' @ string_of_nat i @ '' invalid: '' @ e) (CellOperation_Validate uuid_ok c))
            0 (cp_Cells op))"

subsection \<open>The geometry of a node\<close>

lemma AsNode_cases:
  assumes "AsNode c = Inr n"
  shows "\<exists>t p s. c = NodeJSON t \<and> 40 \<le> fst s \<and> 30 \<le> snd s \<and>
     n = \<lparr>nd_X = None, nd_Y = None, nd_Width = None, nd_Height = None, nd_Position = Some p, nd_Size = Some s,
          nd_Id = nt_Id t, nd_Shape = nt_Shape t, nd_Data = nt_Data t, nd_Rest = nt_Rest t\<rparr>"
proof -
  obtain t where t: "c = NodeJSON t" using assms by (cases c) (auto simp: AsNode_def)
  then have "UnmarshalNode t = Inr n" using assms by (simp add: AsNode_def)
  then show ?thesis using t unfolding UnmarshalNode_def Let_def
    by (simp split: if_split_asm) (metis linorder_not_less)+
qed

text \<open>
  Reading and writing a node: a node read from a cell has both dimensions at least at their
  minimum, and writing it back and reading it again gives the same node, although the written form
  is always the flat one.
\<close>

theorem node_roundtrip:
  assumes "AsNode c = Inr n"
  shows "AsNode (SafeFromNode n) = Inr n \<and> (\<exists>w h. nd_Size n = Some (w, h) \<and> 40 \<le> w \<and> 30 \<le> h)"
  using AsNode_cases [OF assms] by (auto simp: AsNode_def SafeFromNode_def UnmarshalNode_def MarshalNode_def)

definition demo_temp :: NodeTemp where
  "demo_temp = \<lparr>nt_X = None, nt_Y = None, nt_Width = None, nt_Height = None, nt_Position = Some (1, 2), nt_Size = Some (80, 60),
     nt_Id = ''n1'', nt_Shape = ''process'', nt_Data = None, nt_Rest = []\<rparr>"

lemma demo_node: "AsNode (NodeJSON demo_temp) = Inr \<lparr>nd_X = None, nd_Y = None, nd_Width = None, nd_Height = None,
    nd_Position = Some (1, 2), nd_Size = Some (80, 60), nd_Id = ''n1'', nd_Shape = ''process'', nd_Data = None, nd_Rest = []\<rparr>"
  by (simp add: AsNode_def UnmarshalNode_def demo_temp_def)

theorem node_roundtrip_witness:
  "\<exists>n. AsNode (NodeJSON demo_temp) = Inr n \<and> AsNode (SafeFromNode n) = Inr n"
  using node_roundtrip [OF demo_node] demo_node by blast

text \<open>
  Normalization never changes a cell: reading a node has already moved its coordinates into
  position and size and left the flat fields empty, so that both branches of \<open>normalizeCellData\<close>
  are dead and \<open>NormalizeDiagramCells\<close> is the identity.
\<close>

theorem NormalizeDiagramCells_id: "NormalizeDiagramCells cells = cells"
proof -
  have "normalizeCellData c = c" for c
    by (cases "AsNode c") (auto simp: normalizeCellData_def dest!: AsNode_cases)
  then show ?thesis by (simp add: NormalizeDiagramCells_def map_idI)
qed

lemma normalizeCellData_id [simp]: "normalizeCellData c = c"
  by (cases "AsNode c") (auto simp: normalizeCellData_def dest!: AsNode_cases)

subsection \<open>Sanitized cells\<close>

definition clean :: "Cell_Data option \<Rightarrow> bool" where
  "clean d \<longleftrightarrow> (\<forall>cd ms. d = Some cd \<longrightarrow> cd_Metadata cd = Some ms \<longrightarrow> (\<forall>m \<in> set ms. CheckHTMLInjection (md_Value m) ''value'' = None))"

text \<open>The metadata a reader of the cell sees: as an edge for the flow shape, as a node otherwise.\<close>

definition clean_cell :: "Cells_Item \<Rightarrow> bool" where
  "clean_cell c \<longleftrightarrow> (case Discriminator c of Inl _ \<Rightarrow> True
     | Inr disc \<Rightarrow> if disc = ''flow'' then (\<forall>e. AsEdge c = Inr e \<longrightarrow> clean (ed_Data e))
                   else (\<forall>n. AsNode c = Inr n \<longrightarrow> clean (nd_Data n)))"

lemma sanitize_values_clean:
  "sanitize_values lib ms = Inr ms' \<Longrightarrow> (\<forall>m \<in> set ms'. CheckHTMLInjection (md_Value m) ''value'' = None) \<and> map md_Key ms' = map md_Key ms"
proof (induction ms arbitrary: ms')
  case (Cons m ms)
  then show ?case by (auto simp: Let_def split: option.splits sum.splits)
qed simp

lemma sanitize_data_clean:
  "sanitize_data lib d = Inr (Some cd) \<Longrightarrow> clean (Some cd)"
  "sanitize_data lib d = Inr None \<Longrightarrow> clean d"
  by (auto simp: sanitize_data_def SanitizeMetadataSlice_def clean_def dest: sanitize_values_clean split: option.splits sum.splits)

lemma SafeFromNode_read: "AsNode c = Inr n \<Longrightarrow> AsNode (SafeFromNode (n\<lparr>nd_Data := d\<rparr>)) = Inr (n\<lparr>nd_Data := d\<rparr>)"
  by (drule AsNode_cases) (auto simp: AsNode_def SafeFromNode_def UnmarshalNode_def MarshalNode_def)

lemma Discriminator_SafeFromNode: "Discriminator (SafeFromNode n) = Inr (nd_Shape n)"
  by (simp add: Discriminator_def SafeFromNode_def MarshalNode_def Let_def)

lemma AsNode_shape: "AsNode c = Inr n \<Longrightarrow> Discriminator c = Inr (nd_Shape n)"
  by (auto simp: Discriminator_def dest!: AsNode_cases)

lemma AsEdge_shape: "AsEdge c = Inr e \<Longrightarrow> Discriminator c = Inr (ed_Shape e)"
  by (cases c) (auto simp: Discriminator_def AsEdge_def)

lemma sanitize_cell_clean:
  assumes "sanitize_cell lib c = Inr c'"
  shows "clean_cell c'"
proof (cases "Discriminator c")
  case (Inl a)
  with assms show ?thesis by (simp add: sanitize_cell_def clean_cell_def)
next
  case (Inr disc)
  show ?thesis
  proof (cases "disc = ''flow''")
    case True
    then obtain e where e: "AsEdge c = Inr e" using Inr by (cases c) (auto simp: AsEdge_def Discriminator_def)
    then have "ed_Shape e = ''flow''" using AsEdge_shape Inr True by simp
    with e assms Inr True sanitize_data_clean show ?thesis
      by (auto simp: sanitize_cell_def clean_cell_def SafeFromEdge_def Discriminator_def AsEdge_def split: sum.splits option.splits)
  next
    case False
    show ?thesis
    proof (cases "AsNode c")
      case (Inl m)
      with assms Inr False show ?thesis by (auto simp: sanitize_cell_def clean_cell_def)
    next
      case n: (Inr n)
      have shape: "nd_Shape n = disc" using AsNode_shape [OF n] Inr by simp
      show ?thesis
      proof (cases "sanitize_data lib (nd_Data n)")
        case (Inl m)
        with assms Inr False n show ?thesis by (simp add: sanitize_cell_def)
      next
        case d: (Inr md)
        with assms Inr False n shape SafeFromNode_read [OF n] show ?thesis
          by (cases md) (auto simp: sanitize_cell_def clean_cell_def Discriminator_SafeFromNode dest: sanitize_data_clean)
      qed
    qed
  qed
qed

text \<open>
  Sanitized diagrams: when \<open>SanitizeDiagramCellMetadata\<close> succeeds, every metadata value a reader
  of the resulting cells sees passes \<open>CheckHTMLInjection\<close>, whatever the two text libraries do.
\<close>

theorem sanitized_cells_clean:
  assumes "SanitizeDiagramCellMetadata lib cells = (cells', None)"
  shows "length cells' = length cells \<and> (\<forall>c \<in> set cells'. clean_cell c)"
  using assms
proof (induction cells arbitrary: cells')
  case Nil
  then show ?case by simp
next
  case (Cons c cells)
  from Cons.prems obtain c1 cs1 where s: "sanitize_cell lib c = Inr c1"
    "SanitizeDiagramCellMetadata lib cells = (cs1, None)" "cells' = c1 # cs1"
    by (auto split: sum.splits prod.splits)
  with Cons.IH [OF s(2)] sanitize_cell_clean [OF s(1)] show ?case by simp
qed

definition demo_lib :: text_lib where
  "demo_lib = \<lparr>tl_unescape = (\<lambda>s. s), tl_strict = filter (\<lambda>c. c \<noteq> CHR ''<'')\<rparr>"

definition demo_meta :: "string \<Rightarrow> Cells_Item" where
  "demo_meta v = NodeJSON (demo_temp\<lparr>nt_Data := Some \<lparr>cd_Metadata = Some [\<lparr>md_Key = ''k'', md_Value = v\<rparr>], cd_Rest = []\<rparr>\<rparr>)"

theorem sanitized_cells_clean_witness:
  "SanitizeDiagramCellMetadata demo_lib [demo_meta ''a<b''] = (fst (SanitizeDiagramCellMetadata demo_lib [demo_meta ''a<b'']), None) \<and>
   clean_cell (hd (fst (SanitizeDiagramCellMetadata demo_lib [demo_meta ''a<b''])))"
proof -
  have r: "SanitizeDiagramCellMetadata demo_lib [demo_meta ''a<b''] = (fst (SanitizeDiagramCellMetadata demo_lib [demo_meta ''a<b'']), None)"
    by (rule prod_eqI) (simp, code_simp)
  with sanitized_cells_clean [OF r] show ?thesis
    by (cases "fst (SanitizeDiagramCellMetadata demo_lib [demo_meta ''a<b''])") auto
qed

subsection \<open>Cells by identifier\<close>

text \<open>Well-formed lists: every cell has an identifier, and no two share one.\<close>

definition wf_cells :: "Cells_Item list \<Rightarrow> bool" where
  "wf_cells cells \<longleftrightarrow> distinct (map extractCellID cells) \<and> [] \<notin> extractCellID ` set cells"

lemma wf_cells_simps [simp]:
  "wf_cells []"
  "wf_cells (c # cs) \<longleftrightarrow> extractCellID c \<noteq> [] \<and> extractCellID c \<notin> extractCellID ` set cs \<and> wf_cells cs"
  "wf_cells (xs @ ys) \<longleftrightarrow> wf_cells xs \<and> wf_cells ys \<and> extractCellID ` set xs \<inter> extractCellID ` set ys = {}"
  by (auto simp: wf_cells_def)

text \<open>What a list of cells binds: the specification's view of it.\<close>

type_synonym cell_state = "string \<Rightarrow> Cells_Item option"

definition cell_view :: "Cells_Item list \<Rightarrow> cell_state" where
  "cell_view cells = map_of (buildCellState cells)"

lemma cell_view_snoc:
  "cell_view (cells @ [c]) = (if extractCellID c \<noteq> [] then (cell_view cells)(extractCellID c \<mapsto> c) else cell_view cells)"
  by (simp add: cell_view_def buildCellState_def update_conv')

lemma cell_view_Nil [simp]: "cell_view [] = Map.empty"
  by (simp add: cell_view_def buildCellState_def)

lemma distinct_buildCellState: "distinct (map fst (buildCellState cells))"
  by (induction cells rule: rev_induct) (simp_all add: buildCellState_def distinct_update)

lemma cell_view_find: "cell_view cells k = (if k = [] then None else find (\<lambda>c. extractCellID c = k) (rev cells))"
proof (induction cells rule: rev_induct)
  case Nil
  then show ?case by simp
next
  case (snoc c cs)
  then show ?case by (auto simp: cell_view_snoc)
qed

lemma cell_view_iff:
  assumes "wf_cells cells"
  shows "cell_view cells k = Some x \<longleftrightarrow> x \<in> set cells \<and> extractCellID x = k"
proof -
  have "find (\<lambda>c. extractCellID c = k) (rev cells) = Some x \<longleftrightarrow> x \<in> set cells \<and> extractCellID x = k"
    using assms
  proof (induction cells rule: rev_induct)
    case Nil
    then show ?case by simp
  next
    case (snoc c cs)
    then show ?case by auto
  qed
  moreover have "k \<noteq> []" if "x \<in> set cells" "extractCellID x = k" using assms that by (auto simp: wf_cells_def image_iff)
  ultimately show ?thesis by (auto simp: cell_view_find)
qed

lemma cell_view_dom: "wf_cells cells \<Longrightarrow> cell_view cells k \<noteq> None \<longleftrightarrow> k \<in> extractCellID ` set cells"
  using cell_view_iff [of cells k] by (auto simp: image_iff)

lemma option_eqI: "(\<And>x. a = Some x \<longleftrightarrow> b = Some x) \<Longrightarrow> a = b"
  by (cases a; cases b) auto

lemma cell_view_eqI:
  assumes "wf_cells cells" "\<And>k x. m k = Some x \<longleftrightarrow> x \<in> set cells \<and> extractCellID x = k"
  shows "cell_view cells = m"
proof
  fix k
  show "cell_view cells k = m k"
    by (rule option_eqI) (simp add: cell_view_iff [OF assms(1)] assms(2))
qed

lemma buildCellStateMap_same: "buildCellStateMap cells = buildCellState cells"
  unfolding buildCellStateMap_def buildCellState_def extractCellID_def Let_def ..

lemma update_new: "k \<notin> fst ` set m \<Longrightarrow> AList.update k v m = m @ [(k, v)]"
  by (induction m) auto

lemma copyPreviousState_same [simp]: "distinct (map fst m) \<Longrightarrow> copyPreviousState m = m"
proof -
  have "distinct (map fst (acc @ m)) \<Longrightarrow> foldl (\<lambda>m (k, v). AList.update k v m) acc m = acc @ m" for acc
  proof (induction m arbitrary: acc)
    case (Cons x m)
    then have "AList.update (fst x) (snd x) acc = acc @ [x]" by (simp add: update_new)
    with Cons show ?case by (simp add: case_prod_beta)
  qed simp
  then show "distinct (map fst m) \<Longrightarrow> copyPreviousState m = m" by (simp add: copyPreviousState_def)
qed

lemma findAndReplace_None: "findAndReplaceCellInDiagram cells k d = None \<longleftrightarrow> k \<notin> extractCellID ` set cells"
  by (induction cells) auto

lemma findAndReplace_Some:
  "findAndReplaceCellInDiagram cells k d = Some cells' \<Longrightarrow>
     \<exists>pre c post. cells = pre @ c # post \<and> extractCellID c = k \<and> cells' = pre @ d # post"
proof (induction cells arbitrary: cells')
  case (Cons c cs)
  show ?case
  proof (cases "extractCellID c = k")
    case True
    with Cons.prems show ?thesis by (intro exI [of _ "[]"]) auto
  next
    case False
    with Cons.prems obtain cs' where "findAndReplaceCellInDiagram cs k d = Some cs'" "cells' = c # cs'" by auto
    with Cons.IH obtain pre x post where "cs = pre @ x # post" "extractCellID x = k" "cs' = pre @ d # post" by blast
    with \<open>cells' = c # cs'\<close> show ?thesis by (intro exI [of _ "c # pre"]) auto
  qed
qed simp

lemma replace_state:
  assumes "wf_cells cells" "findAndReplaceCellInDiagram cells k d = Some cells'" "extractCellID d = k"
  shows "wf_cells cells' \<and> cell_view cells' = (cell_view cells)(k \<mapsto> d)"
proof -
  obtain pre c post where sp: "cells = pre @ c # post" "extractCellID c = k" "cells' = pre @ d # post"
    using findAndReplace_Some [OF assms(2)] by blast
  have wf: "wf_cells cells'" using assms(1,3) sp by auto
  have old: "cell_view cells j = Some x \<longleftrightarrow> (x \<in> set pre \<or> x = c \<or> x \<in> set post) \<and> extractCellID x = j" for j x
    using cell_view_iff [OF assms(1)] sp(1) by auto
  have "k \<notin> extractCellID ` set pre" "k \<notin> extractCellID ` set post" using assms(1) sp(1,2) by auto
  then have "cell_view cells' = (cell_view cells)(k \<mapsto> d)"
    using assms(3) sp(2,3) by (intro cell_view_eqI [OF wf]) (auto simp: old image_iff)
  with wf show ?thesis by simp
qed

lemma cell_index_None: "cell_index cells k = None \<longleftrightarrow> k \<notin> extractCellID ` set cells"
  by (induction cells) auto

lemma cell_index_Some:
  "cell_index cells k = Some i \<Longrightarrow> \<exists>pre c post. cells = pre @ c # post \<and> extractCellID c = k \<and> i = length pre"
proof (induction cells arbitrary: i)
  case (Cons c cs)
  show ?case
  proof (cases "extractCellID c = k")
    case True
    with Cons.prems show ?thesis by (intro exI [of _ "[]"]) auto
  next
    case False
    with Cons.prems obtain j where "cell_index cs k = Some j" "i = Suc j" by auto
    with Cons.IH obtain pre x post where "cs = pre @ x # post" "extractCellID x = k" "j = length pre" by blast
    with \<open>i = Suc j\<close> show ?thesis by (intro exI [of _ "c # pre"]) auto
  qed
qed simp

lemma removeCell_None: "removeCellFromDiagram cells k = None \<longleftrightarrow> k \<notin> extractCellID ` set cells"
  by (auto simp: removeCellFromDiagram_def cell_index_None [symmetric] Let_def split: option.splits)

lemma removeCell_Some:
  assumes "removeCellFromDiagram cells k = Some cells'"
  shows "\<exists>pre c post. cells = pre @ c # post \<and> extractCellID c = k \<and>
     cells' = (if post = [] then pre else pre @ last post # butlast post)"
proof -
  obtain i where "cell_index cells k = Some i"
    and c': "cells' = take (length cells - 1) (if i \<noteq> length cells - 1 then cells[i := cells ! (length cells - 1)] else cells)"
    using assms by (auto simp: removeCellFromDiagram_def Let_def split: option.splits)
  from cell_index_Some [OF this(1)] obtain pre c post where
    sp: "cells = pre @ c # post" "extractCellID c = k" "i = length pre" by blast
  have "cells' = (if post = [] then pre else pre @ last post # butlast post)"
    by (cases post rule: rev_cases) (auto simp: c' sp nth_append list_update_append)
  with sp show ?thesis by blast
qed

lemma remove_state:
  assumes "wf_cells cells" "removeCellFromDiagram cells k = Some cells'"
  shows "wf_cells cells' \<and> cell_view cells' = (cell_view cells)(k := None)"
proof -
  obtain pre c post where sp: "cells = pre @ c # post" "extractCellID c = k"
    "cells' = (if post = [] then pre else pre @ last post # butlast post)" using removeCell_Some [OF assms(2)] by blast
  have set': "set cells' = set (pre @ post)" and wf: "wf_cells cells'"
    using assms(1) sp by (cases post rule: rev_cases; auto)+
  have old: "cell_view cells j = Some x \<longleftrightarrow> (x \<in> set pre \<or> x = c \<or> x \<in> set post) \<and> extractCellID x = j" for j x
    using cell_view_iff [OF assms(1)] sp(1) by auto
  have "k \<notin> extractCellID ` set pre" "k \<notin> extractCellID ` set post" using assms(1) sp(1,2) by auto
  then have "cell_view cells' = (cell_view cells)(k := None)"
    using sp(2) set' by (intro cell_view_eqI [OF wf]) (auto simp: old image_iff)
  with wf show ?thesis by simp
qed

lemma append_state:
  assumes "wf_cells cells" "extractCellID d = k" "k \<noteq> []" "k \<notin> extractCellID ` set cells"
  shows "wf_cells (cells @ [d]) \<and> cell_view (cells @ [d]) = (cell_view cells)(k \<mapsto> d)"
proof
  show wf: "wf_cells (cells @ [d])" using assms by simp
  show "cell_view (cells @ [d]) = (cell_view cells)(k \<mapsto> d)"
    using assms by (intro cell_view_eqI [OF wf]) (auto simp: cell_view_iff [OF assms(1)] image_iff)
qed

lemma dedup_cells_spec:
  "distinct (map co_ID (dedup_cells seen ops)) \<and> co_ID ` set (dedup_cells seen ops) \<inter> set seen = {} \<and>
   set (dedup_cells seen ops) \<subseteq> set ops"
  by (induction seen ops rule: dedup_cells.induct) auto

lemma distinct_dedup: "distinct (map co_ID (deduplicateCellOperations ops))"
  "set (deduplicateCellOperations ops) \<subseteq> set ops"
  using dedup_cells_spec [of "[]" ops] by (auto simp: deduplicateCellOperations_def)

text \<open>What a validated operation is.\<close>

lemma CellOperation_Validate_None:
  assumes "CellOperation_Validate uuid_ok op = None"
  shows "co_ID op \<noteq> [] \<and>
     (((co_Operation op = ''add'' \<or> co_Operation op = ''update'') \<and> (\<exists>d. co_Data op = Some d \<and> extractCellID d = co_ID op)) \<or>
      (co_Operation op = ''remove'' \<and> co_Data op = None))"
proof -
  have "co_ID op \<noteq> []" using assms by (auto simp: CellOperation_Validate_def)
  moreover have "\<exists>d. co_Data op = Some d \<and> extractCellID d = co_ID op" if "co_Operation op = ''add'' \<or> co_Operation op = ''update''"
  proof -
    have v: "(case co_Data op of None \<Rightarrow> Some (co_Operation op @ '' operation requires cell data'')
        | Some d \<Rightarrow> (case (case AsNode d of Inr n \<Rightarrow> Some (nd_Id n)
                 | Inl _ \<Rightarrow> (case AsEdge d of Inr e \<Rightarrow> Some (ed_Id e) | Inl _ \<Rightarrow> None)) of
             None \<Rightarrow> Some ''cell data must be either a Node or Edge''
           | Some cellID \<Rightarrow>
             if cellID \<noteq> co_ID op then Some (''cell data ID ('' @ cellID @ '') must match operation ID ('' @ co_ID op @ '')'')
             else None)) = None"
      using assms unfolding CellOperation_Validate_def by (simp only: that if_True option.distinct split: if_split_asm)
    then obtain d where d: "co_Data op = Some d" by (cases "co_Data op") simp_all
    show ?thesis using v unfolding d
      by (cases "AsNode d"; cases "AsEdge d") (simp_all add: extractCellID_def split: if_split_asm)
  qed
  moreover have "co_Operation op = ''remove'' \<and> co_Data op = None" if "\<not> (co_Operation op = ''add'' \<or> co_Operation op = ''update'')"
    using assms unfolding CellOperation_Validate_def
    by (simp only: that if_False option.distinct simp_thms split: if_split_asm)
  ultimately show ?thesis by blast
qed

lemma CellPatchOperation_Validate_None:
  assumes "CellPatchOperation_Validate uuid_ok op = None"
  shows "cp_Type op = ''patch'' \<and> cp_Cells op \<noteq> [] \<and> (\<forall>c \<in> set (cp_Cells op). CellOperation_Validate uuid_ok c = None)"
  using assms by (auto simp: CellPatchOperation_Validate_def
      check_each_None_uniform [where P = "\<lambda>c. CellOperation_Validate uuid_ok c = None"] split: if_splits)

end
