(* ===== verification/Diagram_Store.thy ===== *)
theory Diagram_Store
  imports Diagram_Cells
begin

text \<open>
  Stored diagrams: the part of \<open>DiagramStoreInterface\<close> (\<open>api/store.go\<close>) the collaboration engine
  uses, its GORM implementation (\<open>api/database_store_gorm.go\<close>) and the hub's central update function
  (\<open>UpdateDiagram\<close>, \<open>UpdateDiagramCells\<close> in \<open>api/websocket.go\<close>). The contract of the store is the
  locale \<open>diagram_store\<close>, interpreted here on the GORM store. The update vector is an \<open>int64\<close>, as in
  the code, and wraps. Audit records, written after the save, are not modelled.
\<close>

record DfdDiagram =
  df_Name :: string
  df_Description :: "string option"
  df_Type :: string
  df_Cells :: "Cells_Item list"
  df_ColorPalette :: "string list option"
  df_Metadata :: "Metadata list option"
  df_Image :: "(string option \<times> int64 option) option"
  df_UpdateVector :: "int64 option"
  df_IncludeInReport :: "bool option"
  df_TimmyEnabled :: "bool option"
  df_ModifiedAt :: "time option"

record 's DiagramStoreInterface =
  ds_Get :: "'s \<Rightarrow> string \<Rightarrow> go_error + DfdDiagram"
  ds_Update :: "'s \<Rightarrow> string \<Rightarrow> DfdDiagram \<Rightarrow> 's \<times> go_error option"

text \<open>\<open>*d.UpdateVector\<close>, or zero for a nil pointer.\<close>

definition vector_of :: "DfdDiagram \<Rightarrow> int64" where
  "vector_of d = (case df_UpdateVector d of Some v \<Rightarrow> v | None \<Rightarrow> 0)"

subsection \<open>The central update function\<close>

record UpdateDiagramResult =
  ur_UpdatedDiagram :: DfdDiagram
  ur_PreviousVector :: int64
  ur_NewVector :: int64
  ur_VectorIncremented :: bool

text \<open>The image without a version of its own takes the diagram's.\<close>

definition stamp_image :: "int64 \<Rightarrow> DfdDiagram \<Rightarrow> DfdDiagram" where
  "stamp_image v d =
    (case df_Image d of Some (Some svg, None) \<Rightarrow> d\<lparr>df_Image := Some (Some svg, Some v)\<rparr> | _ \<Rightarrow> d)"

definition UpdateDiagram ::
  "'s DiagramStoreInterface \<Rightarrow> time \<Rightarrow> 's \<Rightarrow> string \<Rightarrow> (DfdDiagram \<Rightarrow> go_error + DfdDiagram \<times> bool) \<Rightarrow>
   's \<times> (go_error + UpdateDiagramResult)" where
  "UpdateDiagram st now s diagramID updateFunc =
    (case ds_Get st s diagramID of
       Inl e \<Rightarrow> (s, Inl (errorf_wrap (''failed to get diagram '' @ diagramID @ '': '') e))
     | Inr currentDiagram \<Rightarrow>
       (let previousVector = vector_of currentDiagram in
        case updateFunc currentDiagram of
          Inl e \<Rightarrow> (s, Inl (errorf_wrap (''update function failed for diagram '' @ diagramID @ '': '') e))
        | Inr (updated, shouldIncrement) \<Rightarrow>
          (let newVector = (if shouldIncrement then previousVector + 1 else previousVector);
               d1 = updated\<lparr>df_UpdateVector := Some newVector\<rparr>;
               d2 = (stamp_image newVector d1)\<lparr>df_ModifiedAt := Some now\<rparr>
           in case ds_Update st s diagramID d2 of
                (s', Some e) \<Rightarrow> (s', Inl (errorf_wrap (''failed to update diagram '' @ diagramID @ '': '') e))
              | (s', None) \<Rightarrow> (s', Inr \<lparr>ur_UpdatedDiagram = d2, ur_PreviousVector = previousVector,
                                         ur_NewVector = newVector, ur_VectorIncremented = shouldIncrement\<rparr>))))"

definition UpdateDiagramCells ::
  "'s DiagramStoreInterface \<Rightarrow> time \<Rightarrow> 's \<Rightarrow> string \<Rightarrow> Cells_Item list \<Rightarrow> 's \<times> (go_error + UpdateDiagramResult)" where
  "UpdateDiagramCells st now s diagramID newCells =
     UpdateDiagram st now s diagramID (\<lambda>d. Inr (d\<lparr>df_Cells := newCells\<rparr>, True))"

subsection \<open>The GORM store\<close>

text \<open>
  A row of \<open>diagrams\<close> with its metadata rows. The cells column is JSON: None stands for text that does
  not decode, a NULL column for no cells. Errors of the database are those of this moment; a write
  error is the one the retrying transaction finally returns.
\<close>

record models_Diagram =
  mdg_ID :: string
  mdg_ThreatModelID :: string
  mdg_Name :: string
  mdg_Description :: "string option"
  mdg_Type :: "string option"
  mdg_Cells :: "Cells_Item list option"
  mdg_ColorPalette :: "string list"
  mdg_SVGImage :: "string option"
  mdg_ImageUpdateVector :: "int64 option"
  mdg_UpdateVector :: int64
  mdg_IncludeInReport :: bool
  mdg_TimmyEnabled :: bool
  mdg_Metadata :: "Metadata list"
  mdg_ModifiedAt :: time
  mdg_Deleted :: bool

record diagram_db =
  ddb_rows :: "models_Diagram list"
  ddb_now :: time
  ddb_read_error :: "go_error option"
  ddb_write_error :: "go_error option"

definition convertToAPIDiagram :: "models_Diagram \<Rightarrow> go_error + DfdDiagram" where
  "convertToAPIDiagram m =
    (case mdg_Cells m of
       None \<Rightarrow> Inl (errors_New ''failed to parse cells JSON'')
     | Some cells \<Rightarrow>
       Inr \<lparr>df_Name = mdg_Name m, df_Description = mdg_Description m,
            df_Type = (case mdg_Type m of Some t \<Rightarrow> if t \<noteq> [] then t else ''DFD-1.0.0'' | None \<Rightarrow> ''DFD-1.0.0''),
            df_Cells = cells,
            df_ColorPalette = (if mdg_ColorPalette m \<noteq> [] then Some (mdg_ColorPalette m) else None),
            df_Metadata = Some (mdg_Metadata m),
            df_Image = (case mdg_SVGImage m of Some svg \<Rightarrow> Some (Some svg, mdg_ImageUpdateVector m) | None \<Rightarrow> None),
            df_UpdateVector = Some (mdg_UpdateVector m),
            df_IncludeInReport = Some (mdg_IncludeInReport m), df_TimmyEnabled = Some (mdg_TimmyEnabled m),
            df_ModifiedAt = Some (mdg_ModifiedAt m)\<rparr>)"

definition Gorm_Get :: "bool \<Rightarrow> diagram_db \<Rightarrow> string \<Rightarrow> go_error + DfdDiagram" where
  "Gorm_Get oracle s i =
    (case ddb_read_error s of
       Some e \<Rightarrow> Inl (if errors_Is e GormErrRecordNotFound then sentinel_error ErrDiagramNotFound else Classify oracle e)
     | None \<Rightarrow>
       (case find (\<lambda>m. mdg_ID m = i \<and> \<not> mdg_Deleted m) (ddb_rows s) of
          None \<Rightarrow> Inl (sentinel_error ErrDiagramNotFound)
        | Some m \<Rightarrow> convertToAPIDiagram m))"

definition GetThreatModelID :: "bool \<Rightarrow> diagram_db \<Rightarrow> string \<Rightarrow> go_error + string" where
  "GetThreatModelID oracle s i =
    (case ddb_read_error s of
       Some e \<Rightarrow> Inl (if errors_Is e GormErrRecordNotFound then sentinel_error ErrDiagramNotFound else Classify oracle e)
     | None \<Rightarrow>
       (case find (\<lambda>m. mdg_ID m = i \<and> \<not> mdg_Deleted m) (ddb_rows s) of
          None \<Rightarrow> Inl (sentinel_error ErrDiagramNotFound)
        | Some m \<Rightarrow> Inr (mdg_ThreatModelID m)))"

text \<open>The columns of the \<open>updates\<close> map, the metadata rows and GORM's own \<open>modified_at\<close>.\<close>

definition diagram_updates :: "time \<Rightarrow> DfdDiagram \<Rightarrow> models_Diagram \<Rightarrow> models_Diagram" where
  "diagram_updates now item m =
    m\<lparr>mdg_Name := df_Name item, mdg_Description := df_Description item,
      mdg_Type := (if df_Type item \<noteq> [] then Some (df_Type item) else None),
      mdg_Cells := Some (df_Cells item),
      mdg_ColorPalette := (case df_ColorPalette item of Some l \<Rightarrow> l | None \<Rightarrow> []),
      mdg_SVGImage := (case df_Image item of Some (Some svg, _) \<Rightarrow> Some svg | _ \<Rightarrow> None),
      mdg_ImageUpdateVector := (case df_Image item of Some (Some svg, v) \<Rightarrow> v | _ \<Rightarrow> None),
      mdg_UpdateVector := vector_of item,
      mdg_IncludeInReport := (case df_IncludeInReport item of Some b \<Rightarrow> b | None \<Rightarrow> mdg_IncludeInReport m),
      mdg_TimmyEnabled := (case df_TimmyEnabled item of Some b \<Rightarrow> b | None \<Rightarrow> mdg_TimmyEnabled m),
      mdg_Metadata := (case df_Metadata item of Some l \<Rightarrow> l | None \<Rightarrow> mdg_Metadata m),
      mdg_ModifiedAt := now\<rparr>"

definition Gorm_Update :: "bool \<Rightarrow> diagram_db \<Rightarrow> string \<Rightarrow> DfdDiagram \<Rightarrow> diagram_db \<times> go_error option" where
  "Gorm_Update oracle s i item =
    (case ddb_write_error s of
       Some e \<Rightarrow> (s, Some (Classify oracle e))
     | None \<Rightarrow>
       if list_ex (\<lambda>m. mdg_ID m = i) (ddb_rows s)
       then (s\<lparr>ddb_rows := map (\<lambda>m. if mdg_ID m = i then diagram_updates (ddb_now s) item m else m) (ddb_rows s)\<rparr>, None)
       else (s, Some (sentinel_error ErrDiagramNotFound)))"

definition GormDiagramStore :: "bool \<Rightarrow> diagram_db DiagramStoreInterface" where
  "GormDiagramStore oracle = \<lparr>ds_Get = Gorm_Get oracle, ds_Update = Gorm_Update oracle\<rparr>"

subsection \<open>The contract of a store\<close>

text \<open>
  What the engine relies on: an accepted update of a visible diagram is what the next read shows, of
  its cells and version; other diagrams do not change; a refused update changes nothing.
\<close>

locale diagram_store =
  fixes st :: "'s DiagramStoreInterface"
  assumes get_update: "ds_Get st s i = Inr old \<Longrightarrow> ds_Update st s i d = (s', None) \<Longrightarrow>
      \<exists>d'. ds_Get st s' i = Inr d' \<and> df_Cells d' = df_Cells d \<and> df_UpdateVector d' = Some (vector_of d)"
    and get_other: "ds_Update st s i d = (s', None) \<Longrightarrow> j \<noteq> i \<Longrightarrow> ds_Get st s' j = ds_Get st s j"
    and update_fails: "ds_Update st s i d = (s', Some e) \<Longrightarrow> s' = s"
begin

lemma UpdateDiagram_fails:
  assumes "UpdateDiagram st now s i f = (s', Inl e)"
  shows "s' = s"
  using assms update_fails by (auto simp: UpdateDiagram_def Let_def split: sum.splits prod.splits option.splits)

lemma UpdateDiagram_stores:
  assumes run: "UpdateDiagram st now s i f = (s', Inr r)"
  shows "\<exists>d upd inc d'. ds_Get st s i = Inr d \<and> f d = Inr (upd, inc) \<and>
     ur_PreviousVector r = vector_of d \<and> ur_VectorIncremented r = inc \<and>
     ur_NewVector r = (if inc then vector_of d + 1 else vector_of d) \<and>
     ds_Get st s' i = Inr d' \<and> df_Cells d' = df_Cells upd \<and> df_UpdateVector d' = Some (ur_NewVector r) \<and>
     (\<forall>j. j \<noteq> i \<longrightarrow> ds_Get st s' j = ds_Get st s j)"
proof -
  obtain d where d: "ds_Get st s i = Inr d" using run by (auto simp: UpdateDiagram_def split: sum.splits)
  obtain upd inc where f: "f d = Inr (upd, inc)" using run d by (auto simp: UpdateDiagram_def Let_def split: sum.splits)
  define v where "v = (if inc then vector_of d + 1 else vector_of d)"
  define d2 where "d2 = (stamp_image v (upd\<lparr>df_UpdateVector := Some v\<rparr>))\<lparr>df_ModifiedAt := Some now\<rparr>"
  have up: "ds_Update st s i d2 = (s', None)"
    and r: "r = \<lparr>ur_UpdatedDiagram = d2, ur_PreviousVector = vector_of d, ur_NewVector = v, ur_VectorIncremented = inc\<rparr>"
    using run d f by (auto simp: UpdateDiagram_def Let_def v_def d2_def split: prod.splits option.splits)
  have "df_Cells d2 = df_Cells upd" "vector_of d2 = v"
    by (auto simp: d2_def stamp_image_def vector_of_def split: option.splits prod.splits)
  with get_update [OF d up] get_other [OF up] d f show ?thesis by (auto simp: r v_def)
qed

lemma UpdateDiagramCells_stores:
  assumes "UpdateDiagramCells st now s i cells = (s', Inr r)"
  shows "\<exists>d d'. ds_Get st s i = Inr d \<and> ds_Get st s' i = Inr d' \<and> df_Cells d' = cells \<and>
     df_UpdateVector d' = Some (vector_of d + 1) \<and> (\<forall>j. j \<noteq> i \<longrightarrow> ds_Get st s' j = ds_Get st s j)"
  using UpdateDiagram_stores [OF assms [unfolded UpdateDiagramCells_def]] by auto

end

text \<open>The GORM store keeps the contract.\<close>

lemma find_map_id:
  "find P (map (\<lambda>m. if Q m then f m else m) xs) = map_option (\<lambda>m. if Q m then f m else m) (find P xs)"
  if "\<And>m. Q m \<Longrightarrow> P (f m) \<longleftrightarrow> P m"
  using that by (induction xs) auto

lemma diagram_updates_key [simp]:
  "mdg_ID (diagram_updates now d m) = mdg_ID m" "mdg_Deleted (diagram_updates now d m) = mdg_Deleted m"
  by (simp_all add: diagram_updates_def)

lemma Gorm_find:
  "find (\<lambda>m. mdg_ID m = j \<and> \<not> mdg_Deleted m) (map (\<lambda>m. if mdg_ID m = i then diagram_updates now d m else m) rows) =
   map_option (\<lambda>m. if mdg_ID m = i then diagram_updates now d m else m) (find (\<lambda>m. mdg_ID m = j \<and> \<not> mdg_Deleted m) rows)"
  by (rule find_map_id) simp

lemma convert_updates:
  "\<exists>d'. convertToAPIDiagram (diagram_updates now d m) = Inr d' \<and> df_Cells d' = df_Cells d \<and> df_UpdateVector d' = Some (vector_of d)"
  by (simp add: convertToAPIDiagram_def diagram_updates_def)

lemma find_prop: "find P xs = Some x \<Longrightarrow> P x"
  by (induction xs) (auto split: if_splits)

interpretation gorm: diagram_store "GormDiagramStore ora" for ora
proof
  fix s i old d and s' :: diagram_db
  assume get: "ds_Get (GormDiagramStore ora) s i = Inr old" and upd: "ds_Update (GormDiagramStore ora) s i d = (s', None)"
  have s': "s' = s\<lparr>ddb_rows := map (\<lambda>m. if mdg_ID m = i then diagram_updates (ddb_now s) d m else m) (ddb_rows s)\<rparr>"
    using upd by (auto simp: GormDiagramStore_def Gorm_Update_def split: option.splits if_splits)
  obtain m where m: "find (\<lambda>m. mdg_ID m = i \<and> \<not> mdg_Deleted m) (ddb_rows s) = Some m" and e: "ddb_read_error s = None"
    using get by (auto simp: GormDiagramStore_def Gorm_Get_def split: option.splits)
  have "ds_Get (GormDiagramStore ora) s' i = convertToAPIDiagram (diagram_updates (ddb_now s) d m)"
    using m e find_prop [OF m] by (simp add: GormDiagramStore_def Gorm_Get_def s' Gorm_find)
  with convert_updates show "\<exists>d'. ds_Get (GormDiagramStore ora) s' i = Inr d' \<and> df_Cells d' = df_Cells d \<and> df_UpdateVector d' = Some (vector_of d)"
    by simp
next
  fix s i d j and s' :: diagram_db
  assume upd: "ds_Update (GormDiagramStore ora) s i d = (s', None)" and j: "j \<noteq> i"
  have s': "s' = s\<lparr>ddb_rows := map (\<lambda>m. if mdg_ID m = i then diagram_updates (ddb_now s) d m else m) (ddb_rows s)\<rparr>"
    using upd by (auto simp: GormDiagramStore_def Gorm_Update_def split: option.splits if_splits)
  show "ds_Get (GormDiagramStore ora) s' j = ds_Get (GormDiagramStore ora) s j"
  proof (cases "find (\<lambda>m. mdg_ID m = j \<and> \<not> mdg_Deleted m) (ddb_rows s)")
    case None
    then show ?thesis by (simp add: GormDiagramStore_def Gorm_Get_def s' Gorm_find split: option.splits)
  next
    case (Some m)
    with find_prop [OF Some] j show ?thesis by (simp add: GormDiagramStore_def Gorm_Get_def s' Gorm_find split: option.splits)
  qed
next
  fix s i d e and s' :: diagram_db
  assume "ds_Update (GormDiagramStore ora) s i d = (s', Some e)"
  then show "s' = s" by (auto simp: GormDiagramStore_def Gorm_Update_def split: option.splits if_splits)
qed

text \<open>
  \<open>UpdateDiagramCells\<close> on the GORM store: when it succeeds, the next read shows exactly the new
  cells under a version one above the previous one, and no other diagram changes; when it fails, the
  database is unchanged.
\<close>

theorem UpdateDiagramCells_correct:
  "case UpdateDiagramCells (GormDiagramStore ora) now s i cells of
     (s', Inl e) \<Rightarrow> s' = s
   | (s', Inr r) \<Rightarrow> \<exists>d d'. Gorm_Get ora s i = Inr d \<and> Gorm_Get ora s' i = Inr d' \<and> df_Cells d' = cells \<and>
        df_UpdateVector d' = Some (vector_of d + 1) \<and> (\<forall>j. j \<noteq> i \<longrightarrow> Gorm_Get ora s' j = Gorm_Get ora s j)"
proof (cases "UpdateDiagramCells (GormDiagramStore ora) now s i cells")
  case (Pair s' out)
  have get: "ds_Get (GormDiagramStore ora) = Gorm_Get ora" by (simp add: GormDiagramStore_def)
  show ?thesis
  proof (cases out)
    case (Inl e)
    then show ?thesis using Pair gorm.UpdateDiagram_fails by (auto simp: UpdateDiagramCells_def)
  next
    case (Inr r)
    then show ?thesis using gorm.UpdateDiagramCells_stores [OF Pair [unfolded Inr]] Pair by (simp add: get)
  qed
qed

definition demo_diagram :: models_Diagram where
  "demo_diagram = \<lparr>mdg_ID = ''d1'', mdg_ThreatModelID = ''tm1'', mdg_Name = ''dfd'', mdg_Description = None, mdg_Type = None,
     mdg_Cells = Some [], mdg_ColorPalette = [], mdg_SVGImage = None, mdg_ImageUpdateVector = None, mdg_UpdateVector = 4,
     mdg_IncludeInReport = True, mdg_TimmyEnabled = True, mdg_Metadata = [], mdg_ModifiedAt = 0, mdg_Deleted = False\<rparr>"

definition demo_ddb :: diagram_db where
  "demo_ddb = \<lparr>ddb_rows = [demo_diagram], ddb_now = 1, ddb_read_error = None, ddb_write_error = None\<rparr>"

theorem UpdateDiagramCells_correct_witness:
  "\<exists>d'. Gorm_Get False (fst (UpdateDiagramCells (GormDiagramStore False) 1 demo_ddb ''d1'' [NodeJSON demo_temp])) ''d1'' = Inr d' \<and>
     df_Cells d' = [NodeJSON demo_temp] \<and> df_UpdateVector d' = Some 5"
proof -
  have "\<not> isl (snd (UpdateDiagramCells (GormDiagramStore False) 1 demo_ddb ''d1'' [NodeJSON demo_temp]))" by code_simp
  moreover have "Gorm_Get False demo_ddb ''d1'' = Inr d \<Longrightarrow> vector_of d = 4" for d
    by (auto simp: Gorm_Get_def demo_ddb_def demo_diagram_def convertToAPIDiagram_def vector_of_def)
  ultimately show ?thesis
    using UpdateDiagramCells_correct [where ora = False and now = 1 and s = demo_ddb and i = "''d1''" and cells = "[NodeJSON demo_temp]"]
    by (auto split: prod.splits sum.splits)
qed

end
