(* ===== verification/Cell_Operations.thy ===== *)
theory Cell_Operations
  imports Diagram_Store
begin

text \<open>
  Applying cell operations to a diagram (\<open>api/websocket.go\<close>): the shared \<open>CellOperationProcessor\<close>,
  behind REST patches and redo, and the methods of \<open>DiagramSession\<close> behind the WebSocket handler,
  which save after every single operation. The diagram is passed by pointer and changed in place; here
  its cells are passed and returned. The specification is a map from identifiers to cells, and the
  theorems show that both implementations refine it.
\<close>

record OperationValidationResult =
  ov_Valid :: bool
  ov_Reason :: string
  ov_CorrectionNeeded :: bool
  ov_ConflictDetected :: bool
  ov_StateChanged :: bool
  ov_CellsModified :: "string list"
  ov_PreviousState :: cell_map

text \<open>\<open>&OperationValidationResult{Valid: true}\<close>, and a refusal with a reason.\<close>

definition ov_ok :: OperationValidationResult where
  "ov_ok = \<lparr>ov_Valid = True, ov_Reason = [], ov_CorrectionNeeded = False, ov_ConflictDetected = False,
     ov_StateChanged = False, ov_CellsModified = [], ov_PreviousState = []\<rparr>"

definition ov_changed :: OperationValidationResult where
  "ov_changed = ov_ok\<lparr>ov_StateChanged := True\<rparr>"

definition ov_refuse :: "string \<Rightarrow> bool \<Rightarrow> bool \<Rightarrow> OperationValidationResult" where
  "ov_refuse reason conflict correction =
     ov_ok\<lparr>ov_Valid := False, ov_Reason := reason, ov_ConflictDetected := conflict, ov_CorrectionNeeded := correction\<rparr>"

subsection \<open>The processor\<close>

definition cop_validateAddOperation ::
  "text_lib \<Rightarrow> Cells_Item list \<Rightarrow> cell_map \<Rightarrow> CellOperation \<Rightarrow> Cells_Item list \<times> OperationValidationResult" where
  "cop_validateAddOperation lib cells currentState op =
    (case co_Data op of
       None \<Rightarrow> (cells, ov_refuse ''add_requires_cell_data'' False False)
     | Some d \<Rightarrow>
       (case SanitizeDiagramCellMetadata lib [normalizeCellData d] of
          (_, Some e) \<Rightarrow> (cells, ov_refuse ''metadata_sanitization_failed'' False False)
        | (ds, None) \<Rightarrow>
          if map_of currentState (co_ID op) \<noteq> None then
            (case findAndReplaceCellInDiagram cells (co_ID op) (hd ds) of
               None \<Rightarrow> (cells, ov_refuse ''cell_not_found_in_diagram'' True False)
             | Some cells' \<Rightarrow> (cells', ov_changed))
          else (cells @ [hd ds], ov_changed)))"

definition cop_validateUpdateOperation ::
  "text_lib \<Rightarrow> Cells_Item list \<Rightarrow> cell_map \<Rightarrow> CellOperation \<Rightarrow> Cells_Item list \<times> OperationValidationResult" where
  "cop_validateUpdateOperation lib cells currentState op =
    (if map_of currentState (co_ID op) = None then (cells, ov_refuse ''update_nonexistent_cell'' True True)
     else case co_Data op of
       None \<Rightarrow> (cells, ov_refuse ''update_requires_cell_data'' False False)
     | Some d \<Rightarrow>
       (case SanitizeDiagramCellMetadata lib [normalizeCellData d] of
          (_, Some e) \<Rightarrow> (cells, ov_refuse ''metadata_sanitization_failed'' False False)
        | (ds, None) \<Rightarrow>
          (case findAndReplaceCellInDiagram cells (co_ID op) (hd ds) of
             None \<Rightarrow> (cells, ov_refuse ''cell_not_found_in_diagram'' True False)
           | Some cells' \<Rightarrow> (cells', ov_changed))))"

definition cop_validateRemoveOperation ::
  "Cells_Item list \<Rightarrow> cell_map \<Rightarrow> CellOperation \<Rightarrow> Cells_Item list \<times> OperationValidationResult" where
  "cop_validateRemoveOperation cells currentState op =
    (if map_of currentState (co_ID op) = None then (cells, ov_ok)
     else case removeCellFromDiagram cells (co_ID op) of
       None \<Rightarrow> (cells, ov_ok)
     | Some cells' \<Rightarrow> (cells', ov_changed))"

definition cop_validateAndProcessCellOperation ::
  "text_lib \<Rightarrow> Cells_Item list \<Rightarrow> cell_map \<Rightarrow> CellOperation \<Rightarrow> Cells_Item list \<times> OperationValidationResult" where
  "cop_validateAndProcessCellOperation lib cells currentState op =
    (if co_Operation op = ''add'' then cop_validateAddOperation lib cells currentState op
     else if co_Operation op = ''update'' then cop_validateUpdateOperation lib cells currentState op
     else if co_Operation op = ''remove'' then cop_validateRemoveOperation cells currentState op
     else (cells, ov_refuse ''invalid_cell_operation'' False False))"

text \<open>The loop over the operations, on any one-operation step that threads a state \<open>'s\<close>.\<close>

fun process_each ::
  "('s \<Rightarrow> CellOperation \<Rightarrow> 's \<times> OperationValidationResult) \<Rightarrow> CellOperation list \<Rightarrow> 's \<Rightarrow> OperationValidationResult \<Rightarrow>
   's \<times> OperationValidationResult" where
  "process_each step [] s result = (s, result)"
| "process_each step (op # ops) s result =
    (case step s op of
       (s', r) \<Rightarrow>
         if \<not> ov_Valid r then
           (s', result\<lparr>ov_Valid := False, ov_Reason := ov_Reason r, ov_ConflictDetected := ov_ConflictDetected r,
                       ov_CorrectionNeeded := ov_CorrectionNeeded r, ov_CellsModified := ov_CellsModified result @ [co_ID op]\<rparr>)
         else process_each step ops s'
                (if ov_StateChanged r
                 then result\<lparr>ov_StateChanged := True, ov_CellsModified := ov_CellsModified result @ [co_ID op]\<rparr>
                 else result))"

text \<open>The frame both implementations share: check the operation's shape, drop duplicates, loop.\<close>

definition process_frame ::
  "('s \<Rightarrow> CellOperation \<Rightarrow> 's \<times> OperationValidationResult) \<Rightarrow> cell_map \<Rightarrow> CellPatchOperation \<Rightarrow> 's \<Rightarrow> 's \<times> OperationValidationResult" where
  "process_frame step currentState operation s =
    (let result = ov_ok\<lparr>ov_PreviousState := copyPreviousState currentState\<rparr> in
     if cp_Type operation \<noteq> ''patch'' then (s, result\<lparr>ov_Valid := False, ov_Reason := ''invalid_operation_type''\<rparr>)
     else if cp_Cells operation = [] then (s, result\<lparr>ov_Valid := False, ov_Reason := ''empty_cell_operations''\<rparr>)
     else process_each step (deduplicateCellOperations (cp_Cells operation)) s result)"

definition cop_processAndValidateCellOperations ::
  "text_lib \<Rightarrow> Cells_Item list \<Rightarrow> cell_map \<Rightarrow> CellPatchOperation \<Rightarrow> Cells_Item list \<times> OperationValidationResult" where
  "cop_processAndValidateCellOperations lib cells currentState operation =
     process_frame (\<lambda>cs op. cop_validateAndProcessCellOperation lib cs currentState op) currentState operation cells"

definition ProcessCellOperations ::
  "text_lib \<Rightarrow> 's DiagramStoreInterface \<Rightarrow> 's \<Rightarrow> string \<Rightarrow> CellPatchOperation \<Rightarrow>
   's \<times> (OperationValidationResult option \<times> go_error option)" where
  "ProcessCellOperations lib st s diagramID operation =
    (case ds_Get st s diagramID of
       Inl e \<Rightarrow> (s, None, Some (errorf_wrap (''failed to get diagram '' @ diagramID @ '': '') e))
     | Inr diagram \<Rightarrow>
       (let (cells', result) = cop_processAndValidateCellOperations lib (df_Cells diagram) (buildCellState (df_Cells diagram)) operation in
        if ov_Valid result \<and> ov_StateChanged result then
          (case ds_Update st s diagramID (diagram\<lparr>df_Cells := cells'\<rparr>) of
             (s', Some e) \<Rightarrow> (s', Some (result\<lparr>ov_Valid := False, ov_Reason := ''save_failed''\<rparr>),
                               Some (errorf_wrap ''failed to save diagram: '' e))
           | (s', None) \<Rightarrow> (s', Some result, None))
        else (s, Some result, None)))"

subsection \<open>The session's variant\<close>

text \<open>The state is the store together with the cells of the handler's diagram.\<close>

definition save_cells ::
  "'s DiagramStoreInterface \<Rightarrow> time \<Rightarrow> string \<Rightarrow> 's \<Rightarrow> Cells_Item list \<Rightarrow> ('s \<times> Cells_Item list) \<times> OperationValidationResult" where
  "save_cells st now diagramID s cells =
    (case UpdateDiagramCells st now s diagramID cells of
       (s', Inl e) \<Rightarrow> ((s', cells), ov_changed\<lparr>ov_Valid := False, ov_Reason := ''save_failed''\<rparr>)
     | (s', Inr _) \<Rightarrow> ((s', cells), ov_changed))"

definition session_validateAddOperation ::
  "'s DiagramStoreInterface \<Rightarrow> time \<Rightarrow> string \<Rightarrow> cell_map \<Rightarrow> 's \<times> Cells_Item list \<Rightarrow> CellOperation \<Rightarrow>
   ('s \<times> Cells_Item list) \<times> OperationValidationResult" where
  "session_validateAddOperation st now diagramID currentState sc op =
    (case sc of (s, cells) \<Rightarrow>
       if map_of currentState (co_ID op) \<noteq> None then ((s, cells), ov_refuse ''cell_already_exists'' True True)
       else case co_Data op of
         None \<Rightarrow> ((s, cells), ov_refuse ''add_requires_cell_data'' False False)
       | Some d \<Rightarrow> save_cells st now diagramID s (cells @ [d]))"

definition session_validateUpdateOperation ::
  "'s DiagramStoreInterface \<Rightarrow> time \<Rightarrow> string \<Rightarrow> cell_map \<Rightarrow> 's \<times> Cells_Item list \<Rightarrow> CellOperation \<Rightarrow>
   ('s \<times> Cells_Item list) \<times> OperationValidationResult" where
  "session_validateUpdateOperation st now diagramID currentState sc op =
    (case sc of (s, cells) \<Rightarrow>
       if map_of currentState (co_ID op) = None then ((s, cells), ov_refuse ''update_nonexistent_cell'' True True)
       else case co_Data op of
         None \<Rightarrow> ((s, cells), ov_refuse ''update_requires_cell_data'' False False)
       | Some d \<Rightarrow>
         (case findAndReplaceCellInDiagram cells (co_ID op) d of
            None \<Rightarrow> ((s, cells), ov_refuse ''cell_not_found_in_diagram'' True False)
          | Some cells' \<Rightarrow> save_cells st now diagramID s cells'))"

definition session_validateRemoveOperation ::
  "'s DiagramStoreInterface \<Rightarrow> time \<Rightarrow> string \<Rightarrow> cell_map \<Rightarrow> 's \<times> Cells_Item list \<Rightarrow> CellOperation \<Rightarrow>
   ('s \<times> Cells_Item list) \<times> OperationValidationResult" where
  "session_validateRemoveOperation st now diagramID currentState sc op =
    (case sc of (s, cells) \<Rightarrow>
       if map_of currentState (co_ID op) = None then ((s, cells), ov_ok)
       else case removeCellFromDiagram cells (co_ID op) of
         None \<Rightarrow> ((s, cells), ov_ok)
       | Some cells' \<Rightarrow> save_cells st now diagramID s cells')"

definition session_validateAndProcessCellOperation ::
  "'s DiagramStoreInterface \<Rightarrow> time \<Rightarrow> string \<Rightarrow> cell_map \<Rightarrow> 's \<times> Cells_Item list \<Rightarrow> CellOperation \<Rightarrow>
   ('s \<times> Cells_Item list) \<times> OperationValidationResult" where
  "session_validateAndProcessCellOperation st now diagramID currentState sc op =
    (if co_Operation op = ''add'' then session_validateAddOperation st now diagramID currentState sc op
     else if co_Operation op = ''update'' then session_validateUpdateOperation st now diagramID currentState sc op
     else if co_Operation op = ''remove'' then session_validateRemoveOperation st now diagramID currentState sc op
     else (sc, ov_refuse ''invalid_cell_operation'' False False))"

definition session_processAndValidateCellOperations ::
  "'s DiagramStoreInterface \<Rightarrow> time \<Rightarrow> string \<Rightarrow> 's \<Rightarrow> Cells_Item list \<Rightarrow> cell_map \<Rightarrow> CellPatchOperation \<Rightarrow>
   ('s \<times> Cells_Item list) \<times> OperationValidationResult" where
  "session_processAndValidateCellOperations st now diagramID s cells currentState operation =
     process_frame (session_validateAndProcessCellOperation st now diagramID currentState) currentState operation (s, cells)"

subsection \<open>The specification\<close>

text \<open>
  A one-operation step refines the map update \<open>m(id := eff op)\<close>: when the cells the step sees under the
  operation's identifier are those of the snapshot \<open>cur\<close>, an accepted step performs the update on the
  view of the state and keeps the invariant; a refused step keeps the invariant.
\<close>

locale cell_step =
  fixes step :: "'s \<Rightarrow> CellOperation \<Rightarrow> 's \<times> OperationValidationResult"
    and inv :: "'s \<Rightarrow> bool"
    and view :: "'s \<Rightarrow> cell_state"
    and eff :: "CellOperation \<Rightarrow> Cells_Item option"
    and good :: "CellOperation \<Rightarrow> bool"
    and cur :: cell_state
  assumes step_accepts: "inv s \<Longrightarrow> good op \<Longrightarrow> view s (co_ID op) = cur (co_ID op) \<Longrightarrow> step s op = (s', r) \<Longrightarrow> ov_Valid r \<Longrightarrow>
      inv s' \<and> view s' = (view s)(co_ID op := eff op)"
    and step_refuses: "inv s \<Longrightarrow> good op \<Longrightarrow> view s (co_ID op) = cur (co_ID op) \<Longrightarrow> step s op = (s', r) \<Longrightarrow> \<not> ov_Valid r \<Longrightarrow> inv s'"
begin

lemma process_each_correct:
  assumes "inv s" "\<forall>op \<in> set ops. good op" "distinct (map co_ID ops)" "\<forall>op \<in> set ops. view s (co_ID op) = cur (co_ID op)"
    and "ov_Valid res" "process_each step ops s res = (s', res')"
  shows "inv s' \<and> (ov_Valid res' \<longrightarrow> view s' = foldl (\<lambda>m op. m(co_ID op := eff op)) (view s) ops)"
  using assms
proof (induction ops arbitrary: s res)
  case Nil
  then show ?case by simp
next
  case (Cons op ops)
  obtain s1 r1 where s1: "step s op = (s1, r1)" by fastforce
  show ?case
  proof (cases "ov_Valid r1")
    case False
    with s1 Cons.prems step_refuses [OF _ _ _ s1 False] show ?thesis by auto
  next
    case True
    have 1: "inv s1" "view s1 = (view s)(co_ID op := eff op)"
      using step_accepts [OF _ _ _ s1 True] Cons.prems by auto
    have agree: "\<forall>o' \<in> set ops. view s1 (co_ID o') = cur (co_ID o')"
      using Cons.prems(3,4) by (auto simp: 1(2) image_iff)
    define res1 where "res1 = (if ov_StateChanged r1 then res\<lparr>ov_StateChanged := True, ov_CellsModified := ov_CellsModified res @ [co_ID op]\<rparr> else res)"
    have v: "ov_Valid res1" using Cons.prems(5) by (simp add: res1_def)
    have "process_each step ops s1 res1 = (s', res')" using Cons.prems(6) s1 True by (simp add: res1_def)
    from Cons.IH [OF 1(1) _ _ agree v this] Cons.prems(2,3) show ?thesis by (simp add: 1(2))
  qed
qed

lemma process_frame_correct:
  assumes "inv s" "\<forall>op \<in> set (cp_Cells p). good op" "view s = cur" "process_frame step cs p s = (s', res)"
  shows "inv s' \<and> (ov_Valid res \<longrightarrow>
     view s' = foldl (\<lambda>m op. m(co_ID op := eff op)) (view s) (deduplicateCellOperations (cp_Cells p)))"
proof (cases "cp_Type p = ''patch'' \<and> cp_Cells p \<noteq> []")
  case False
  with assms show ?thesis by (auto simp: process_frame_def Let_def split: if_splits)
next
  case True
  with assms(4) have run: "process_each step (deduplicateCellOperations (cp_Cells p)) s
      (ov_ok\<lparr>ov_PreviousState := copyPreviousState cs\<rparr>) = (s', res)" by (simp add: process_frame_def)
  show ?thesis
    by (rule process_each_correct [OF assms(1) _ distinct_dedup(1) _ _ run])
       (use assms(2,3) distinct_dedup(2) in \<open>auto simp: ov_ok_def\<close>)
qed

end

text \<open>The previous state the result carries is the snapshot, on every path.\<close>

lemma process_each_PreviousState:
  "process_each step ops s res = (s', res') \<Longrightarrow> ov_PreviousState res' = ov_PreviousState res"
  by (induction ops arbitrary: s res) (auto split: prod.splits if_splits)

lemma process_frame_PreviousState:
  "process_frame step cur p s = (s', res) \<Longrightarrow> distinct (map fst cur) \<Longrightarrow> ov_PreviousState res = cur"
  by (auto simp: process_frame_def Let_def split: if_splits dest!: process_each_PreviousState)

subsection \<open>The processor refines the specification\<close>

lemma extractCellID_simps [simp]:
  "extractCellID (NodeJSON t) = nt_Id t" "extractCellID (EdgeJSON e) = ed_Id e" "extractCellID OtherJSON = []"
  by (auto simp: extractCellID_def AsNode_def AsEdge_def UnmarshalNode_def Let_def split: sum.splits)

lemma sanitize_cell_ID: "sanitize_cell lib c = Inr c' \<Longrightarrow> extractCellID c' = extractCellID c"
proof (cases c)
  case (NodeJSON t)
  assume s: "sanitize_cell lib c = Inr c'"
  show ?thesis
  proof (cases "nt_Shape t = ''flow''")
    case True
    with s NodeJSON show ?thesis
      by (auto simp: sanitize_cell_def Discriminator_def AsEdge_def SafeFromEdge_def split: sum.splits option.splits)
  next
    case False
    have "nd_Id n = nt_Id t" if "AsNode c = Inr n" for n using AsNode_cases [OF that] NodeJSON by auto
    with s NodeJSON False show ?thesis
      by (auto simp: sanitize_cell_def Discriminator_def SafeFromNode_def MarshalNode_def Let_def split: sum.splits option.splits)
  qed
next
  case (EdgeJSON e)
  assume "sanitize_cell lib c = Inr c'"
  with EdgeJSON show ?thesis
    by (auto simp: sanitize_cell_def Discriminator_def AsEdge_def AsNode_def SafeFromEdge_def split: if_splits sum.splits option.splits)
next
  case OtherJSON
  assume "sanitize_cell lib c = Inr c'"
  with OtherJSON show ?thesis by (simp add: sanitize_cell_def Discriminator_def)
qed

lemma sanitize_one:
  assumes "SanitizeDiagramCellMetadata lib [d] = (ds, None)"
  shows "\<exists>d'. ds = [d'] \<and> extractCellID d' = extractCellID d"
  using assms sanitize_cell_ID by (auto split: sum.splits)

definition cop_effect :: "text_lib \<Rightarrow> CellOperation \<Rightarrow> Cells_Item option" where
  "cop_effect lib op = (if co_Operation op = ''remove'' then None
     else map_option (\<lambda>d. hd (fst (SanitizeDiagramCellMetadata lib [d]))) (co_Data op))"

lemma add_or_update:
  assumes "CellOperation_Validate uuid_ok op = None" "co_Operation op \<noteq> ''remove''"
  obtains d where "co_Data op = Some d" "extractCellID d = co_ID op" "co_ID op \<noteq> []"
    "co_Operation op = ''add'' \<or> co_Operation op = ''update''"
  using CellOperation_Validate_None [OF assms(1)] assms(2) by blast

lemma store_new_cell:
  assumes "wf_cells cells" "cell_view cells k = None" "extractCellID d = k" "k \<noteq> []"
  shows "wf_cells (cells @ [d]) \<and> cell_view (cells @ [d]) = (cell_view cells)(k \<mapsto> d)"
  using append_state [OF assms(1,3,4)] cell_view_dom [OF assms(1), of k] assms(2) by blast

lemma remove_present:
  assumes "wf_cells cells" "cell_view cells k \<noteq> None"
  obtains cells' where "removeCellFromDiagram cells k = Some cells'"
  using assms cell_view_dom removeCell_None by (cases "removeCellFromDiagram cells k") auto

interpretation cop: cell_step "\<lambda>cs op. cop_validateAndProcessCellOperation lib cs cur op" wf_cells cell_view
  "cop_effect lib" "\<lambda>op. CellOperation_Validate uuid_ok op = None" "map_of cur" for lib cur uuid_ok
proof (unfold_locales, goal_cases)
  case (1 cells op cells' r)
  show ?case
  proof (cases "co_Operation op = ''remove''")
    case True
    with 1 have run: "cop_validateRemoveOperation cells cur op = (cells', r)"
      by (simp add: cop_validateAndProcessCellOperation_def)
    show ?thesis
    proof (cases "map_of cur (co_ID op)")
      case None
      with run 1 True show ?thesis by (auto simp: cop_validateRemoveOperation_def cop_effect_def fun_upd_idem)
    next
      case (Some c)
      then obtain cs where "removeCellFromDiagram cells (co_ID op) = Some cs" using remove_present 1(1,3) by (metis option.distinct(1))
      with run Some remove_state [OF 1(1) this] True show ?thesis by (auto simp: cop_validateRemoveOperation_def cop_effect_def)
    qed
  next
    case False
    from add_or_update [OF 1(2) False] obtain d where d: "co_Data op = Some d" "extractCellID d = co_ID op" "co_ID op \<noteq> []"
      "co_Operation op = ''add'' \<or> co_Operation op = ''update''" by blast
    obtain ds e where s: "SanitizeDiagramCellMetadata lib [d] = (ds, e)" by fastforce
    have e: "e = None" using 1(4,5) d s False
      by (auto simp: cop_validateAndProcessCellOperation_def cop_validateAddOperation_def cop_validateUpdateOperation_def
          ov_refuse_def split: if_splits option.splits)
    with sanitize_one [of lib d ds] s obtain d' where d': "ds = [d']" "extractCellID d' = co_ID op" using d(2) by auto
    have eff: "cop_effect lib op = Some d'" using False d s e d' by (simp add: cop_effect_def)
    have "(\<exists>cs. cells' = cs \<and> findAndReplaceCellInDiagram cells (co_ID op) d' = Some cs) \<or>
          (map_of cur (co_ID op) = None \<and> cells' = cells @ [d'])"
      using 1(4,5) d s e d'(1) False
      by (auto simp: cop_validateAndProcessCellOperation_def cop_validateAddOperation_def cop_validateUpdateOperation_def
          ov_refuse_def split: if_splits option.splits)
    then show ?thesis
      using replace_state [OF 1(1) _ d'(2)] store_new_cell [OF 1(1) _ d'(2) d(3)] 1(3) eff by auto
  qed
next
  case (2 cells op cells' r)
  have "cells' = cells" using 2(4,5)
    by (auto simp: cop_validateAndProcessCellOperation_def cop_validateAddOperation_def cop_validateUpdateOperation_def
        cop_validateRemoveOperation_def ov_ok_def ov_changed_def split: if_splits option.splits prod.splits)
  with 2 show ?case by simp
qed

text \<open>A run that reports no change has made none.\<close>

lemma process_each_unchanged:
  assumes "\<And>s op s' r. step s op = (s', r) \<Longrightarrow> ov_Valid r \<Longrightarrow> \<not> ov_StateChanged r \<Longrightarrow> s' = s"
    and "process_each step ops s res = (s', res')" "ov_Valid res'" "\<not> ov_StateChanged res'"
  shows "s' = s \<and> \<not> ov_StateChanged res"
  using assms(2-)
proof (induction ops arbitrary: s res)
  case Nil
  then show ?case by simp
next
  case (Cons op ops)
  obtain s1 r1 where s1: "step s op = (s1, r1)" by fastforce
  with Cons.prems have v: "ov_Valid r1" by (auto split: if_splits)
  with Cons.prems s1 Cons.IH [of s1] have "s' = s1" "\<not> ov_StateChanged r1" "\<not> ov_StateChanged res"
    by (fastforce split: if_splits)+
  with assms(1) [OF s1 v] show ?case by simp
qed

lemma cop_unchanged:
  assumes "cop_processAndValidateCellOperations lib cells cur p = (cells', r)" "ov_Valid r" "\<not> ov_StateChanged r"
  shows "cells' = cells"
proof -
  have step: "cs' = cs" if "cop_validateAndProcessCellOperation lib cs cur op = (cs', q)" "ov_Valid q" "\<not> ov_StateChanged q" for cs op cs' q
    using that by (auto simp: cop_validateAndProcessCellOperation_def cop_validateAddOperation_def cop_validateUpdateOperation_def
        cop_validateRemoveOperation_def ov_ok_def ov_changed_def ov_refuse_def split: if_splits option.splits prod.splits)
  show ?thesis using assms process_each_unchanged [OF step]
    by (auto simp: cop_processAndValidateCellOperations_def process_frame_def Let_def split: if_splits)
qed

text \<open>
  C3. \<open>ProcessCellOperations\<close> on the GORM store: for a valid patch of a diagram whose cells are
  identified, an accepted run leaves a diagram that is again identified and whose cells, by
  identifier, are the old ones updated by the sanitized operations in order, keeping the first of
  several operations on one cell; a run that is not accepted leaves the database as it was.
\<close>

theorem ProcessCellOperations_refines:
  assumes valid: "CellPatchOperation_Validate uuid_ok p = None"
    and get: "Gorm_Get ora s i = Inr d" and wf: "wf_cells (df_Cells d)"
    and run: "ProcessCellOperations lib (GormDiagramStore ora) s i p = (s', Some r, err)"
  shows "if ov_Valid r then \<exists>d'. Gorm_Get ora s' i = Inr d' \<and> wf_cells (df_Cells d') \<and>
       cell_view (df_Cells d') =
         foldl (\<lambda>m op. m(co_ID op := cop_effect lib op)) (cell_view (df_Cells d)) (deduplicateCellOperations (cp_Cells p))
     else s' = s"
proof -
  have g: "ds_Get (GormDiagramStore ora) s i = Inr d" using get by (simp add: GormDiagramStore_def)
  obtain cells' res where c: "cop_processAndValidateCellOperations lib (df_Cells d) (buildCellState (df_Cells d)) p = (cells', res)"
    by fastforce
  have good: "\<forall>op \<in> set (cp_Cells p). CellOperation_Validate uuid_ok op = None"
    using CellPatchOperation_Validate_None [OF valid] by blast
  note ref = cop.process_frame_correct [OF wf good cell_view_def c [unfolded cop_processAndValidateCellOperations_def]]
  show ?thesis
  proof (cases "ov_Valid res \<and> ov_StateChanged res")
    case False
    then have r: "s' = s" "r = res" using run g c by (auto simp: ProcessCellOperations_def)
    show ?thesis
    proof (cases "ov_Valid res")
      case True
      then have "cells' = df_Cells d" using cop_unchanged [OF c] False by blast
      with ref get True r show ?thesis by auto
    qed (simp add: r)
  next
    case True
    obtain s1 e where u: "ds_Update (GormDiagramStore ora) s i (d\<lparr>df_Cells := cells'\<rparr>) = (s1, e)" by fastforce
    show ?thesis
    proof (cases e)
      case (Some x)
      with u gorm.update_fails have "s1 = s" by blast
      with run g c True u Some show ?thesis by (auto simp: ProcessCellOperations_def)
    next
      case None
      from gorm.get_update [OF g u [unfolded None]] obtain d' where
        "ds_Get (GormDiagramStore ora) s1 i = Inr d'" "df_Cells d' = cells'" by auto
      with run g c True u None ref show ?thesis by (auto simp: ProcessCellOperations_def GormDiagramStore_def)
    qed
  qed
qed

definition demo_patch :: CellPatchOperation where
  "demo_patch = \<lparr>cp_Type = ''patch'', cp_Cells = [\<lparr>co_ID = ''n1'', co_Operation = ''add'', co_Data = Some (NodeJSON demo_temp)\<rparr>]\<rparr>"

lemma demo_get: "Gorm_Get False demo_ddb ''d1'' = Inr (projr (Gorm_Get False demo_ddb ''d1''))"
  by (simp add: Gorm_Get_def demo_ddb_def demo_diagram_def convertToAPIDiagram_def)

lemma demo_run: "ProcessCellOperations demo_lib (GormDiagramStore False) demo_ddb ''d1'' demo_patch =
   (let o' = ProcessCellOperations demo_lib (GormDiagramStore False) demo_ddb ''d1'' demo_patch in (fst o', Some (the (fst (snd o'))), snd (snd o')))"
proof -
  have "fst (snd (ProcessCellOperations demo_lib (GormDiagramStore False) demo_ddb ''d1'' demo_patch)) \<noteq> None"
    by (simp add: ProcessCellOperations_def GormDiagramStore_def Gorm_Get_def demo_ddb_def demo_diagram_def convertToAPIDiagram_def
        split: prod.splits if_splits option.splits)
  then show ?thesis by (auto simp: Let_def prod_eq_iff)
qed

theorem ProcessCellOperations_refines_witness:
  "\<exists>d'. Gorm_Get False (fst (ProcessCellOperations demo_lib (GormDiagramStore False) demo_ddb ''d1'' demo_patch)) ''d1'' = Inr d' \<and>
     cell_view (df_Cells d') ''n1'' = Some (NodeJSON demo_temp)"
proof -
  let ?o = "ProcessCellOperations demo_lib (GormDiagramStore False) demo_ddb ''d1'' demo_patch"
  have v: "CellPatchOperation_Validate (\<lambda>_. True) demo_patch = None" by code_simp
  have w: "wf_cells (df_Cells (projr (Gorm_Get False demo_ddb ''d1'')))" by code_simp
  have ok: "ov_Valid (the (fst (snd ?o)))" by code_simp
  have e: "foldl (\<lambda>m op. m(co_ID op := cop_effect demo_lib op)) (cell_view (df_Cells (projr (Gorm_Get False demo_ddb ''d1''))))
      (deduplicateCellOperations (cp_Cells demo_patch)) ''n1'' = Some (NodeJSON demo_temp)" by code_simp
  from ProcessCellOperations_refines [OF v demo_get w demo_run [unfolded Let_def]] ok e show ?thesis by auto
qed

subsection \<open>The session's variant refines the specification\<close>

definition session_effect :: "CellOperation \<Rightarrow> Cells_Item option" where
  "session_effect op = (if co_Operation op = ''remove'' then None else co_Data op)"

definition session_inv :: "'s DiagramStoreInterface \<Rightarrow> string \<Rightarrow> 's \<times> Cells_Item list \<Rightarrow> bool" where
  "session_inv st i sc \<longleftrightarrow> wf_cells (snd sc) \<and> (\<exists>d. ds_Get st (fst sc) i = Inr d)"

lemma save_cells_view: "save_cells st now i s cells = ((s', cells'), r) \<Longrightarrow> cells' = cells"
  by (auto simp: save_cells_def split: prod.splits sum.splits)

context diagram_store
begin

lemma save_cells_get:
  assumes "save_cells st now i s cells = ((s', cells'), r)" "ds_Get st s i = Inr d"
  shows "\<exists>d'. ds_Get st s' i = Inr d' \<and> (ov_Valid r \<longrightarrow> df_Cells d' = cells)"
proof (cases "UpdateDiagramCells st now s i cells")
  case (Pair s1 out)
  show ?thesis
  proof (cases out)
    case (Inl e)
    then have "s1 = s" using Pair UpdateDiagram_fails by (auto simp: UpdateDiagramCells_def)
    with assms Pair Inl show ?thesis by (auto simp: save_cells_def)
  next
    case (Inr x)
    with UpdateDiagramCells_stores [OF Pair [unfolded Inr]] assms Pair show ?thesis by (auto simp: save_cells_def)
  qed
qed

lemma session_step_cases:
  assumes step: "session_validateAndProcessCellOperation st now i cur (s, cells) op = ((s', cells'), r)"
    and good: "CellOperation_Validate uuid_ok op = None" and wf: "wf_cells cells"
    and agree: "cell_view cells (co_ID op) = map_of cur (co_ID op)"
  shows "(s' = s \<and> cells' = cells \<and> (ov_Valid r \<longrightarrow> cell_view cells (co_ID op) = None \<and> session_effect op = None)) \<or>
     (wf_cells cells' \<and> cell_view cells' = (cell_view cells)(co_ID op := session_effect op) \<and>
      save_cells st now i s cells' = ((s', cells'), r))"
proof (cases "co_Operation op = ''remove''")
  case True
  with step have run: "session_validateRemoveOperation st now i cur (s, cells) op = ((s', cells'), r)"
    by (simp add: session_validateAndProcessCellOperation_def)
  show ?thesis
  proof (cases "map_of cur (co_ID op)")
    case None
    with run True agree show ?thesis by (auto simp: session_validateRemoveOperation_def session_effect_def)
  next
    case (Some c)
    with remove_present [OF wf] agree obtain cs where cs: "removeCellFromDiagram cells (co_ID op) = Some cs" by auto
    with run Some have sv: "save_cells st now i s cs = ((s', cells'), r)" by (simp add: session_validateRemoveOperation_def)
    with save_cells_view [OF sv] remove_state [OF wf cs] True show ?thesis by (simp add: session_effect_def)
  qed
next
  case False
  from add_or_update [OF good False] obtain d where d: "co_Data op = Some d" "extractCellID d = co_ID op" "co_ID op \<noteq> []"
    "co_Operation op = ''add'' \<or> co_Operation op = ''update''" by blast
  have eff: "session_effect op = Some d" using False d by (simp add: session_effect_def)
  have "(s' = s \<and> cells' = cells \<and> \<not> ov_Valid r) \<or>
        (\<exists>cs. (findAndReplaceCellInDiagram cells (co_ID op) d = Some cs \<or> (map_of cur (co_ID op) = None \<and> cs = cells @ [d])) \<and>
              save_cells st now i s cs = ((s', cells'), r))"
    using step d(1,4) False
    by (auto simp: session_validateAndProcessCellOperation_def session_validateAddOperation_def session_validateUpdateOperation_def
        ov_refuse_def split: if_splits option.splits)
  then show ?thesis
    using replace_state [OF wf _ d(2)] store_new_cell [OF wf _ d(2,3)] agree eff save_cells_view by fastforce
qed

end

sublocale diagram_store \<subseteq> session: cell_step "session_validateAndProcessCellOperation st now i cur" "session_inv st i"
  "\<lambda>sc. cell_view (snd sc)" session_effect "\<lambda>op. CellOperation_Validate uuid_ok op = None" "map_of cur" for now i cur uuid_ok
proof (unfold_locales, goal_cases)
  case (1 sc op sc' r)
  obtain s cells s' cells' where sc: "sc = (s, cells)" "sc' = (s', cells')" by fastforce
  from session_step_cases [of now i cur s cells op s' cells' r uuid_ok] 1 sc have
    "(s' = s \<and> cells' = cells \<and> (ov_Valid r \<longrightarrow> cell_view cells (co_ID op) = None \<and> session_effect op = None)) \<or>
     (wf_cells cells' \<and> cell_view cells' = (cell_view cells)(co_ID op := session_effect op) \<and>
      save_cells st now i s cells' = ((s', cells'), r))" by (simp add: session_inv_def)
  with 1 sc save_cells_get show ?case by (fastforce simp: session_inv_def fun_upd_idem)
next
  case (2 sc op sc' r)
  obtain s cells s' cells' where sc: "sc = (s, cells)" "sc' = (s', cells')" by fastforce
  from session_step_cases [of now i cur s cells op s' cells' r uuid_ok] 2 sc have
    "(s' = s \<and> cells' = cells) \<or> (wf_cells cells' \<and> save_cells st now i s cells' = ((s', cells'), r))" by (auto simp: session_inv_def)
  with 2 sc save_cells_get show ?case by (fastforce simp: session_inv_def)
qed


definition demo_session_result :: "(diagram_db \<times> Cells_Item list) \<times> OperationValidationResult" where
  "demo_session_result = session_processAndValidateCellOperations (GormDiagramStore False) 1 ''d1'' demo_ddb [] (buildCellState []) demo_patch"


subsection \<open>What the session does not check\<close>

text \<open>One add of a cell that the snapshot does not know, run to acceptance.\<close>

lemma session_add_run:
  assumes "co_Operation op = ''add''" "co_Data op = Some c" "map_of cur (co_ID op) = None"
    and run: "session_processAndValidateCellOperations (GormDiagramStore ora) now i s cells cur \<lparr>cp_Type = ''patch'', cp_Cells = [op]\<rparr> =
      ((s', cells'), r)" and ok: "ov_Valid r"
  shows "cells' = cells @ [c] \<and> (\<exists>d'. Gorm_Get ora s' i = Inr d' \<and> df_Cells d' = cells @ [c])"
proof -
  have dd: "deduplicateCellOperations [op] = [op]" by (simp add: deduplicateCellOperations_def)
  obtain s1 cs1 r1 where sv: "save_cells (GormDiagramStore ora) now i s (cells @ [c]) = ((s1, cs1), r1)" by (metis prod.collapse)
  have "session_validateAndProcessCellOperation (GormDiagramStore ora) now i cur (s, cells) op = ((s1, cs1), r1)"
    using assms(1-3) sv by (simp add: session_validateAndProcessCellOperation_def session_validateAddOperation_def)
  with run ok have s: "s' = s1" "cells' = cs1" "ov_Valid r1"
    by (auto simp: session_processAndValidateCellOperations_def process_frame_def dd Let_def split: if_splits)
  obtain x where u: "UpdateDiagramCells (GormDiagramStore ora) now s i (cells @ [c]) = (s1, Inr x)"
    using sv s(3) by (auto simp: save_cells_def ov_changed_def ov_ok_def split: prod.splits sum.splits)
  from gorm.UpdateDiagramCells_stores [OF u] save_cells_view [OF sv] s show ?thesis by (auto simp: GormDiagramStore_def)
qed

text \<open>
  The WebSocket path does not check that a cell carries the identifier of its operation: an add
  under a fresh identifier of a cell whose own identifier is already in use, which
  \<open>CellOperation.Validate\<close> would refuse, is accepted when it can be saved and leaves a stored
  diagram with two cells of one identifier.
\<close>

theorem unchecked_add_duplicates:
  assumes "co_Operation op = ''add''" "co_Data op = Some c" "cell_view cells (co_ID op) = None"
    and "extractCellID c \<in> extractCellID ` set cells" "wf_cells cells"
    and run: "session_processAndValidateCellOperations (GormDiagramStore ora) now i s cells (buildCellState cells)
      \<lparr>cp_Type = ''patch'', cp_Cells = [op]\<rparr> = ((s', cells'), r)" and ok: "ov_Valid r"
  shows "CellOperation_Validate uuid_ok op \<noteq> None \<and> (\<exists>d'. Gorm_Get ora s' i = Inr d' \<and> \<not> wf_cells (df_Cells d'))"
proof -
  have "co_ID op \<notin> extractCellID ` set cells" using cell_view_dom [OF assms(5)] assms(3) by blast
  then have "extractCellID c \<noteq> co_ID op" using assms(4) by auto
  then have "CellOperation_Validate uuid_ok op \<noteq> None"
    using CellOperation_Validate_None [of uuid_ok op] assms(1,2) by auto
  moreover have "\<not> wf_cells (cells @ [c])" using assms(4) by auto
  ultimately show ?thesis using session_add_run [OF assms(1,2) _ run ok] assms(3) cell_view_def by auto
qed

definition demo_dup_op :: CellOperation where
  "demo_dup_op = \<lparr>co_ID = ''n2'', co_Operation = ''add'', co_Data = Some (NodeJSON demo_temp)\<rparr>"

definition demo_dup_result :: "(diagram_db \<times> Cells_Item list) \<times> OperationValidationResult" where
  "demo_dup_result = session_processAndValidateCellOperations (GormDiagramStore False) 1 ''d1'' demo_ddb [NodeJSON demo_temp]
     (buildCellState [NodeJSON demo_temp]) \<lparr>cp_Type = ''patch'', cp_Cells = [demo_dup_op]\<rparr>"

theorem unchecked_add_duplicates_witness:
  "\<exists>d'. Gorm_Get False (fst (fst demo_dup_result)) ''d1'' = Inr d' \<and> \<not> wf_cells (df_Cells d')"
proof -
  have ok: "ov_Valid (snd demo_dup_result)" by code_simp
  have run: "session_processAndValidateCellOperations (GormDiagramStore False) 1 ''d1'' demo_ddb [NodeJSON demo_temp]
      (buildCellState [NodeJSON demo_temp]) \<lparr>cp_Type = ''patch'', cp_Cells = [demo_dup_op]\<rparr> =
      ((fst (fst demo_dup_result), snd (fst demo_dup_result)), snd demo_dup_result)"
    by (simp add: demo_dup_result_def)
  show ?thesis
    by (rule conjunct2 [OF unchecked_add_duplicates [OF _ _ _ _ _ run ok, where c = "NodeJSON demo_temp"]])
       (simp_all add: demo_dup_op_def demo_temp_def cell_view_def buildCellState_def)
qed

text \<open>
  The WebSocket path does not sanitize: a new cell whose metadata the sanitizer refuses, so that the
  processor behind the REST interface refuses to add it, is stored as sent when the session adds it.
\<close>

theorem session_stores_unsanitized:
  assumes "co_Operation op = ''add''" "co_Data op = Some c" "map_of cur (co_ID op) = None"
    and refused: "SanitizeDiagramCellMetadata lib [c] = (cs, Some e)"
    and run: "session_processAndValidateCellOperations (GormDiagramStore ora) now i s cells cur
      \<lparr>cp_Type = ''patch'', cp_Cells = [op]\<rparr> = ((s', cells'), r)" and ok: "ov_Valid r"
  shows "\<not> ov_Valid (snd (cop_processAndValidateCellOperations lib cells cur \<lparr>cp_Type = ''patch'', cp_Cells = [op]\<rparr>)) \<and>
     (\<exists>d'. Gorm_Get ora s' i = Inr d' \<and> c \<in> set (df_Cells d'))"
proof -
  have "snd (cop_validateAndProcessCellOperation lib cells cur op) = ov_refuse ''metadata_sanitization_failed'' False False"
    using assms(1-4) by (simp add: cop_validateAndProcessCellOperation_def cop_validateAddOperation_def)
  then have "\<not> ov_Valid (snd (cop_processAndValidateCellOperations lib cells cur \<lparr>cp_Type = ''patch'', cp_Cells = [op]\<rparr>))"
    by (simp add: cop_processAndValidateCellOperations_def process_frame_def deduplicateCellOperations_def ov_refuse_def
        Let_def case_prod_beta)
  with session_add_run [OF assms(1,2,3) run ok] show ?thesis by auto
qed

definition demo_evil_op :: CellOperation where
  "demo_evil_op = \<lparr>co_ID = ''n1'', co_Operation = ''add'', co_Data = Some (demo_meta ''{{7*7}}'')\<rparr>"

definition demo_evil_result :: "(diagram_db \<times> Cells_Item list) \<times> OperationValidationResult" where
  "demo_evil_result = session_processAndValidateCellOperations (GormDiagramStore False) 1 ''d1'' demo_ddb [] []
     \<lparr>cp_Type = ''patch'', cp_Cells = [demo_evil_op]\<rparr>"

theorem session_stores_unsanitized_witness:
  "\<exists>d'. Gorm_Get False (fst (fst demo_evil_result)) ''d1'' = Inr d' \<and> demo_meta ''{{7*7}}'' \<in> set (df_Cells d')"
proof -
  have ok: "ov_Valid (snd demo_evil_result)" by code_simp
  have s: "SanitizeDiagramCellMetadata demo_lib [demo_meta ''{{7*7}}''] =
      (fst (SanitizeDiagramCellMetadata demo_lib [demo_meta ''{{7*7}}'']),
       Some (the (snd (SanitizeDiagramCellMetadata demo_lib [demo_meta ''{{7*7}}'']))))"
    by (rule prod_eqI) (simp, code_simp)
  have run: "session_processAndValidateCellOperations (GormDiagramStore False) 1 ''d1'' demo_ddb [] []
      \<lparr>cp_Type = ''patch'', cp_Cells = [demo_evil_op]\<rparr> = ((fst (fst demo_evil_result), snd (fst demo_evil_result)), snd demo_evil_result)"
    by (simp add: demo_evil_result_def)
  show ?thesis
    by (rule conjunct2 [OF session_stores_unsanitized [OF _ _ _ s run ok]]) (simp_all add: demo_evil_op_def)
qed

end
