(* ===== verification/Operation_History.thy ===== *)
theory Operation_History
  imports Cell_Operations
begin

text \<open>
  The undo history of a collaboration session (\<open>OperationHistory\<close> and its methods in
  \<open>api/websocket.go\<close>): entries under \<open>uint64\<close> sequence numbers, a cursor, and the cells the session
  believes current. A Go map is an association list with distinct keys; nothing proved depends on
  its order. The lock every method takes is not modelled: each method is one step.
\<close>

record HistoryEntry =
  he_SequenceNumber :: uint64
  he_OperationID :: string
  he_UserID :: string
  he_Timestamp :: time
  he_Operation :: CellPatchOperation
  he_PreviousState :: cell_map

record OperationHistory =
  oh_Operations :: "(uint64 \<times> HistoryEntry) list"
  oh_CurrentState :: cell_map
  oh_MaxEntries :: int
  oh_CurrentPosition :: uint64

definition NewOperationHistory :: OperationHistory where
  "NewOperationHistory = \<lparr>oh_Operations = [], oh_CurrentState = [], oh_MaxEntries = 100, oh_CurrentPosition = 0\<rparr>"

definition CanUndo :: "OperationHistory \<Rightarrow> bool" where
  "CanUndo h \<longleftrightarrow> oh_CurrentPosition h > 0"

definition CanRedo :: "OperationHistory \<Rightarrow> bool" where
  "CanRedo h \<longleftrightarrow> map_of (oh_Operations h) (oh_CurrentPosition h + 1) \<noteq> None"

definition GetUndoOperation :: "OperationHistory \<Rightarrow> (HistoryEntry \<times> cell_map) option" where
  "GetUndoOperation h =
    (if oh_CurrentPosition h = 0 then None
     else case map_of (oh_Operations h) (oh_CurrentPosition h) of
       None \<Rightarrow> None
     | Some entry \<Rightarrow> Some (entry, he_PreviousState entry))"

definition GetRedoOperation :: "OperationHistory \<Rightarrow> HistoryEntry option" where
  "GetRedoOperation h = map_of (oh_Operations h) (oh_CurrentPosition h + 1)"

definition MoveToPosition :: "OperationHistory \<Rightarrow> uint64 \<Rightarrow> OperationHistory" where
  "MoveToPosition h newPosition = h\<lparr>oh_CurrentPosition := newPosition\<rparr>"

definition cleanupOldEntries :: "OperationHistory \<Rightarrow> OperationHistory" where
  "cleanupOldEntries h =
    (let halfMax = word_of_int (oh_MaxEntries h div 2) :: uint64;
         keepFrom = (if oh_MaxEntries h > 0 \<and> oh_MaxEntries h \<le> 1000000 \<and> oh_CurrentPosition h > halfMax
                     then oh_CurrentPosition h - halfMax else 0)
     in h\<lparr>oh_Operations := filter (\<lambda>(seq, e). \<not> seq < keepFrom) (oh_Operations h)\<rparr>)"

text \<open>One cell operation on the current state; operations the switch does not name change nothing.\<close>

definition apply_current :: "cell_map \<Rightarrow> CellOperation \<Rightarrow> cell_map" where
  "apply_current m op =
    (if co_Operation op = ''add'' \<or> co_Operation op = ''update'' then
       (case co_Data op of Some d \<Rightarrow> AList.update (co_ID op) d m | None \<Rightarrow> m)
     else if co_Operation op = ''remove'' then AList.delete (co_ID op) m
     else m)"

definition AddOperation :: "OperationHistory \<Rightarrow> HistoryEntry \<Rightarrow> OperationHistory" where
  "AddOperation h entry =
    (let h1 = h\<lparr>oh_Operations := AList.update (he_SequenceNumber entry) entry (oh_Operations h),
                oh_CurrentPosition := he_SequenceNumber entry,
                oh_CurrentState := foldl apply_current (oh_CurrentState h) (cp_Cells (he_Operation entry))\<rparr>
     in if int (length (oh_Operations h1)) > oh_MaxEntries h1 then cleanupOldEntries h1 else h1)"

definition GetHistoryEntry :: "OperationHistory option \<Rightarrow> uint64 \<Rightarrow> HistoryEntry option" where
  "GetHistoryEntry h seq = (case h of None \<Rightarrow> None | Some oh \<Rightarrow> map_of (oh_Operations oh) seq)"

record history_stats =
  hs_total :: nat
  hs_earliest :: uint64
  hs_latest :: uint64

text \<open>The scan for the first and last sequence number: None before the first one is seen.\<close>

definition stats_step :: "(uint64 \<times> uint64) option \<Rightarrow> uint64 \<Rightarrow> (uint64 \<times> uint64) option" where
  "stats_step acc seq =
    (case acc of
       None \<Rightarrow> Some (seq, seq)
     | Some (earliest, latest) \<Rightarrow> Some (if seq < earliest then seq else earliest, if seq > latest then seq else latest))"

definition GetHistoryStats :: "OperationHistory option \<Rightarrow> history_stats" where
  "GetHistoryStats h =
    (case h of
       None \<Rightarrow> \<lparr>hs_total = 0, hs_earliest = 0, hs_latest = 0\<rparr>
     | Some oh \<Rightarrow>
       (case foldl stats_step None (map fst (oh_Operations oh)) of
          Some (earliest, latest) \<Rightarrow> \<lparr>hs_total = length (oh_Operations oh), hs_earliest = earliest, hs_latest = latest\<rparr>
        | None \<Rightarrow> \<lparr>hs_total = length (oh_Operations oh), hs_earliest = 0, hs_latest = 0\<rparr>))"

text \<open>The exchange sort of \<open>GetRecentOperations\<close>, loop for loop.\<close>

definition exchange :: "nat \<Rightarrow> uint64 list \<Rightarrow> nat \<Rightarrow> uint64 list" where
  "exchange i xs j = (if xs ! i < xs ! j then xs[i := xs ! j, j := xs ! i] else xs)"

definition sort_descending :: "uint64 list \<Rightarrow> uint64 list" where
  "sort_descending xs = foldl (\<lambda>ys i. foldl (exchange i) ys [Suc i ..< length xs]) xs [0 ..< length xs - 1]"

definition GetRecentOperations :: "OperationHistory option \<Rightarrow> int \<Rightarrow> HistoryEntry list" where
  "GetRecentOperations h n =
    (case h of
       None \<Rightarrow> []
     | Some oh \<Rightarrow>
       if n \<le> 0 then []
       else (let sequences = sort_descending (map fst (oh_Operations oh));
                 limit = min (nat n) (length sequences)
             in List.map_filter (\<lambda>i. map_of (oh_Operations oh) (sequences ! i)) [0 ..< limit]))"

subsection \<open>The sort\<close>

lemma length_exchange [simp]: "length (exchange i xs j) = length xs"
  by (simp add: exchange_def)

lemma length_inner [simp]: "length (foldl (exchange i) xs js) = length xs"
  by (induction js arbitrary: xs) auto

lemma exchange_nth:
  "i < length xs \<Longrightarrow> j < length xs \<Longrightarrow> p < length xs \<Longrightarrow>
     exchange i xs j ! p = (if xs ! i < xs ! j then (if p = j then xs ! i else if p = i then xs ! j else xs ! p) else xs ! p)"
  by (simp add: exchange_def nth_list_update)

lemma mset_exchange: "i < length xs \<Longrightarrow> j < length xs \<Longrightarrow> mset (exchange i xs j) = mset xs"
  by (simp add: exchange_def mset_swap)

lemma mset_inner: "i < length xs \<Longrightarrow> set js \<subseteq> {..<length xs} \<Longrightarrow> mset (foldl (exchange i) xs js) = mset xs"
  by (induction js arbitrary: xs) (simp_all add: mset_exchange)

text \<open>The inner loop leaves places below \<open>i\<close> alone and puts at \<open>i\<close> a value no smaller than any behind it.\<close>

lemma inner_below: "p < i \<Longrightarrow> \<forall>j \<in> set js. i < j \<Longrightarrow> foldl (exchange i) xs js ! p = xs ! p"
  by (induction js arbitrary: xs) (auto simp: exchange_def)

lemma inner_max:
  assumes "i < k" "k \<le> length xs"
  shows "(\<forall>p. i < p \<and> p < k \<longrightarrow> foldl (exchange i) xs [Suc i ..< k] ! p \<le> foldl (exchange i) xs [Suc i ..< k] ! i)"
  using assms
proof (induction k)
  case (Suc k)
  show ?case
  proof (cases "i = k")
    case True
    then show ?thesis by auto
  next
    case False
    let ?ys = "foldl (exchange i) xs [Suc i ..< k]"
    have ys: "\<forall>p. i < p \<and> p < k \<longrightarrow> ?ys ! p \<le> ?ys ! i" and len: "length ?ys = length xs" using Suc False by auto
    have step: "foldl (exchange i) xs [Suc i ..< Suc k] = exchange i ?ys k" using False Suc.prems by (simp add: upt_Suc_append)
    show ?thesis
    proof (intro allI impI)
      fix p assume p: "i < p \<and> p < Suc k"
      show "foldl (exchange i) xs [Suc i ..< Suc k] ! p \<le> foldl (exchange i) xs [Suc i ..< Suc k] ! i"
        unfolding step using p ys len Suc.prems False
        by (cases "p = k") (auto simp: exchange_nth not_less intro: order.trans less_imp_le)
    qed
  qed
qed simp

lemma inner_members:
  assumes "i < length xs" "k \<le> length xs"
  shows "\<forall>p < length xs. i \<le> p \<longrightarrow> (\<exists>q. i \<le> q \<and> q < length xs \<and> foldl (exchange i) xs [Suc i ..< k] ! p = xs ! q)"
  using assms(2)
proof (induction k)
  case (Suc k)
  then have IH: "\<forall>p < length xs. i \<le> p \<longrightarrow> (\<exists>q. i \<le> q \<and> q < length xs \<and> foldl (exchange i) xs [Suc i ..< k] ! p = xs ! q)" by simp
  show ?case
  proof (cases "Suc i \<le> k")
    case True
    let ?ys = "foldl (exchange i) xs [Suc i ..< k]"
    have "foldl (exchange i) xs [Suc i ..< Suc k] = exchange i ?ys k" using True by simp
    with IH Suc.prems assms(1) True show ?thesis by (auto simp: exchange_nth)
  qed auto
qed auto

definition outer_inv :: "nat \<Rightarrow> uint64 list \<Rightarrow> bool" where
  "outer_inv i xs \<longleftrightarrow> (\<forall>p q. p < i \<and> p < q \<and> q < length xs \<longrightarrow> xs ! q \<le> xs ! p)"

lemma outer_step:
  assumes "outer_inv i xs" "i < length xs"
  shows "outer_inv (Suc i) (foldl (exchange i) xs [Suc i ..< length xs])"
  unfolding outer_inv_def
proof (intro allI impI)
  let ?ys = "foldl (exchange i) xs [Suc i ..< length xs]"
  fix p q assume pq: "p < Suc i \<and> p < q \<and> q < length ?ys"
  show "?ys ! q \<le> ?ys ! p"
  proof (cases "p = i")
    case True
    with inner_max [of i "length xs" xs] pq assms(2) show ?thesis by auto
  next
    case False
    then have p: "p < i" using pq by simp
    have same: "?ys ! p = xs ! p" by (rule inner_below) (use p in auto)
    show ?thesis
    proof (cases "q < i")
      case True
      then have "?ys ! q = xs ! q" by (intro inner_below) auto
      with same assms(1) p pq show ?thesis by (auto simp: outer_inv_def)
    next
      case False
      with inner_members [OF assms(2) order.refl] pq obtain q' where "i \<le> q'" "q' < length xs" "?ys ! q = xs ! q'" by auto
      with same assms(1) p show ?thesis by (auto simp: outer_inv_def)
    qed
  qed
qed

lemma outer_loop:
  assumes "n \<le> length xs - 1"
  shows "outer_inv n (foldl (\<lambda>ys i. foldl (exchange i) ys [Suc i ..< length xs]) xs [0 ..< n]) \<and>
     mset (foldl (\<lambda>ys i. foldl (exchange i) ys [Suc i ..< length xs]) xs [0 ..< n]) = mset xs"
  using assms
proof (induction n)
  case 0
  then show ?case by (simp add: outer_inv_def)
next
  case (Suc n)
  let ?ys = "foldl (\<lambda>ys i. foldl (exchange i) ys [Suc i ..< length xs]) xs [0 ..< n]"
  have IH: "outer_inv n ?ys" "mset ?ys = mset xs" using Suc by auto
  have len: "length ?ys = length xs" by (rule mset_eq_length [OF IH(2)])
  have "outer_inv (Suc n) (foldl (exchange n) ?ys [Suc n ..< length xs])"
    using outer_step [OF IH(1)] Suc.prems len by simp
  moreover have "mset (foldl (exchange n) ?ys [Suc n ..< length xs]) = mset xs"
    by (subst mset_inner) (use IH(2) len Suc.prems in auto)
  moreover have "foldl (\<lambda>ys i. foldl (exchange i) ys [Suc i ..< length xs]) xs [0 ..< Suc n] = foldl (exchange n) ?ys [Suc n ..< length xs]"
    by simp
  ultimately show ?case by (simp only:)
qed

lemma sort_descending_correct: "sort_descending xs = rev (sort xs)"
proof -
  have m: "mset (sort_descending xs) = mset xs" and o: "outer_inv (length xs - 1) (sort_descending xs)"
    using outer_loop [of "length xs - 1" xs] by (simp_all add: sort_descending_def)
  have len: "length (sort_descending xs) = length xs" by (rule mset_eq_length [OF m])
  have "sorted (rev (sort_descending xs))"
    unfolding sorted_rev_iff_nth_mono
  proof (intro allI impI)
    fix i j assume "i \<le> j" "j < length (sort_descending xs)"
    with o len show "sort_descending xs ! j \<le> sort_descending xs ! i" by (cases "i = j") (auto simp: outer_inv_def)
  qed
  then have "rev (sort_descending xs) = sort xs" using m by (intro properties_for_sort [symmetric]) simp_all
  then show ?thesis by (metis rev_rev_ident)
qed

subsection \<open>The invariant\<close>

definition hist_wf :: "OperationHistory \<Rightarrow> bool" where
  "hist_wf h \<longleftrightarrow> distinct (map fst (oh_Operations h)) \<and> (\<forall>(seq, e) \<in> set (oh_Operations h). he_SequenceNumber e = seq) \<and>
     oh_MaxEntries h = 100 \<and> length (oh_Operations h) \<le> 100"

lemma hist_wf_New [simp]: "hist_wf NewOperationHistory"
  by (simp add: hist_wf_def NewOperationHistory_def)

lemma hist_wf_Move [simp]: "hist_wf (MoveToPosition h p) = hist_wf h"
  by (simp add: hist_wf_def MoveToPosition_def)

lemma keys_in_window:
  fixes ks :: "uint64 list"
  assumes "distinct ks" "\<forall>k \<in> set ks. a \<le> unat k \<and> unat k \<le> a + n"
  shows "length ks \<le> Suc n"
proof -
  have "card (unat ` set ks) = card (set ks)" by (rule card_image) (simp add: inj_on_def word_unat_eq_iff)
  then have "length ks = card (unat ` set ks)" using distinct_card [OF assms(1)] by simp
  also have "\<dots> \<le> card {a .. a + n}" using assms(2) by (intro card_mono) auto
  finally show ?thesis by simp
qed

text \<open>The entries an add leaves: all of them, or those from fifty below the new one on.\<close>

lemma AddOperation_Operations:
  assumes "oh_MaxEntries h = 100"
  shows "oh_Operations (AddOperation h e) =
    (let ops = AList.update (he_SequenceNumber e) e (oh_Operations h) in
     if length ops > 100 then filter (\<lambda>(seq, x). \<not> unat seq < unat (he_SequenceNumber e) - 50) ops else ops)"
proof -
  have w1: "seq < s - 50 \<longleftrightarrow> unat seq < unat s - 50" if "50 < s" for seq s :: uint64
    using that by (simp add: word_less_nat_alt unat_sub word_le_nat_alt)
  have w2: "unat s - 50 = 0" if "\<not> 50 < s" for s :: uint64
    using that by (simp add: word_less_nat_alt)
  show ?thesis
    using assms w1 [of "he_SequenceNumber e"] w2 [of "he_SequenceNumber e"]
    by (cases "50 < he_SequenceNumber e") (simp_all add: AddOperation_def cleanupOldEntries_def Let_def)
qed

lemma AddOperation_fields [simp]:
  "oh_MaxEntries (AddOperation h e) = oh_MaxEntries h" "oh_CurrentPosition (AddOperation h e) = he_SequenceNumber e"
  "oh_CurrentState (AddOperation h e) = foldl apply_current (oh_CurrentState h) (cp_Cells (he_Operation e))"
  by (simp_all add: AddOperation_def cleanupOldEntries_def Let_def)

lemma map_of_filter_keys: "map_of (filter (\<lambda>(k, x). P k) m) k = (if P k then map_of m k else None)"
  by (induction m) auto

lemma AddOperation_lookup:
  assumes "oh_MaxEntries h = 100"
  shows "map_of (oh_Operations (AddOperation h e)) (he_SequenceNumber e) = Some e"
proof -
  have "\<not> unat (he_SequenceNumber e) < unat (he_SequenceNumber e) - 50" by arith
  then show ?thesis by (simp add: AddOperation_Operations [OF assms] Let_def map_of_filter_keys update_conv')
qed

lemma keys_update: "fst ` set (AList.update k v m) = insert k (fst ` set m)"
  by (induction m) auto

text \<open>
  C33. The history stays bounded: adding an entry with a new highest sequence number keeps every entry
  under its own number, keys distinct, and at most a hundred entries.
\<close>

theorem AddOperation_bounded:
  assumes wf: "hist_wf h" and new: "\<forall>k \<in> fst ` set (oh_Operations h). k < he_SequenceNumber e"
  shows "hist_wf (AddOperation h e)"
proof -
  let ?s = "he_SequenceNumber e"
  let ?ops = "AList.update ?s e (oh_Operations h)"
  have m: "oh_MaxEntries h = 100" using wf by (simp add: hist_wf_def)
  have d: "distinct (map fst ?ops)" using wf by (simp add: hist_wf_def distinct_update)
  have own: "\<forall>(seq, x) \<in> set ?ops. he_SequenceNumber x = seq"
  proof (clarify)
    fix seq x assume "(seq, x) \<in> set ?ops"
    then have "map_of ?ops seq = Some x" using d by simp
    then show "he_SequenceNumber x = seq" using wf
      by (auto simp: update_conv' hist_wf_def split: if_splits dest: map_of_SomeD)
  qed
  have le: "unat k \<le> unat ?s" if "k \<in> fst ` set ?ops" for k
    using that new by (auto simp: keys_update word_less_nat_alt less_imp_le)
  have "length (filter (\<lambda>(seq, x). \<not> unat seq < unat ?s - 50) ?ops) \<le> 100"
  proof -
    let ?f = "filter (\<lambda>(seq, x). \<not> unat seq < unat ?s - 50) ?ops"
    have "distinct (map fst ?f)" using d by (rule distinct_map_filter)
    moreover have "\<forall>k \<in> set (map fst ?f). unat ?s - 50 \<le> unat k \<and> unat k \<le> (unat ?s - 50) + 50"
      using le by fastforce
    ultimately have "length (map fst ?f) \<le> Suc 50" by (rule keys_in_window)
    then show ?thesis by simp
  qed
  then show ?thesis
    using d own m distinct_map_filter [OF d] by (auto simp: hist_wf_def AddOperation_Operations [OF m] Let_def)
qed

definition demo_entry :: "uint64 \<Rightarrow> HistoryEntry" where
  "demo_entry n = \<lparr>he_SequenceNumber = n, he_OperationID = ''op'', he_UserID = ''u'', he_Timestamp = 0,
     he_Operation = demo_patch, he_PreviousState = []\<rparr>"

theorem AddOperation_bounded_witness: "hist_wf (AddOperation NewOperationHistory (demo_entry 1))"
  by (rule AddOperation_bounded) (simp_all, simp add: NewOperationHistory_def)

text \<open>
  Undo and redo are inverse moves: after an entry with a positive number is added, it is the
  entry to undo, with its own previous state; one step back it is the entry to redo; and the two
  moves together restore the history.
\<close>

theorem undo_redo_roundtrip:
  assumes "hist_wf h" "0 < he_SequenceNumber e"
  defines "h1 \<equiv> AddOperation h e"
  defines "h2 \<equiv> MoveToPosition h1 (he_SequenceNumber e - 1)"
  shows "CanUndo h1 \<and> GetUndoOperation h1 = Some (e, he_PreviousState e) \<and>
     CanRedo h2 \<and> GetRedoOperation h2 = Some e \<and> MoveToPosition h2 (he_SequenceNumber e) = h1"
proof -
  have m: "oh_MaxEntries h = 100" using assms(1) by (simp add: hist_wf_def)
  have l: "map_of (oh_Operations h1) (he_SequenceNumber e) = Some e" unfolding h1_def by (rule AddOperation_lookup [OF m])
  have p: "oh_CurrentPosition h1 = he_SequenceNumber e" by (simp add: h1_def)
  then have "MoveToPosition h2 (he_SequenceNumber e) = h1" by (cases h1) (simp add: h2_def MoveToPosition_def)
  with l p assms(2) show ?thesis
    by (auto simp: CanUndo_def GetUndoOperation_def CanRedo_def GetRedoOperation_def h2_def MoveToPosition_def)
qed

theorem undo_redo_roundtrip_witness:
  "GetUndoOperation (AddOperation NewOperationHistory (demo_entry 1)) = Some (demo_entry 1, [])"
  using undo_redo_roundtrip [OF hist_wf_New, of "demo_entry 1"] by (simp add: demo_entry_def)

lemma stats_foldl:
  "xs \<noteq> [] \<Longrightarrow> foldl stats_step None xs = Some (Min (set xs), Max (set xs))"
proof (induction xs rule: rev_induct)
  case (snoc x xs)
  show ?case
  proof (cases "xs = []")
    case True
    then show ?thesis by (simp add: stats_step_def)
  next
    case False
    then have "Min (set (xs @ [x])) = min x (Min (set xs))" "Max (set (xs @ [x])) = max x (Max (set xs))" by simp_all
    moreover have "stats_step (Some (a, b)) x = Some (min x a, max x b)" for a b
      by (auto simp: stats_step_def min_def max_def)
    ultimately show ?thesis using snoc.IH [OF False] by (simp only: foldl_append foldl.simps)
  qed
qed simp

text \<open>
  The queries on the history: the most recent operations are the entries with the highest sequence
  numbers, highest first, as many as asked for; the statistics are the number of entries and the
  lowest and highest number.
\<close>

theorem history_queries_correct:
  assumes wf: "hist_wf h" and n: "0 < n"
  shows "map he_SequenceNumber (GetRecentOperations (Some h) n) = take (nat n) (rev (sort (map fst (oh_Operations h)))) \<and>
     set (GetRecentOperations (Some h) n) \<subseteq> snd ` set (oh_Operations h) \<and>
     (oh_Operations h \<noteq> [] \<longrightarrow> GetHistoryStats (Some h) =
        \<lparr>hs_total = length (oh_Operations h), hs_earliest = Min (fst ` set (oh_Operations h)),
         hs_latest = Max (fst ` set (oh_Operations h))\<rparr>)"
proof -
  let ?ks = "rev (sort (map fst (oh_Operations h)))"
  let ?lim = "min (nat n) (length ?ks)"
  have key: "\<exists>e. map_of (oh_Operations h) k = Some e \<and> (k, e) \<in> set (oh_Operations h) \<and> he_SequenceNumber e = k" if "k \<in> set ?ks" for k
  proof -
    from that have "k \<in> fst ` set (oh_Operations h)" by simp
    then obtain e where "map_of (oh_Operations h) k = Some e" by (metis map_of_eq_None_iff not_Some_eq)
    with wf show ?thesis by (auto simp: hist_wf_def dest!: map_of_SomeD)
  qed
  have r: "GetRecentOperations (Some h) n = List.map_filter (\<lambda>i. map_of (oh_Operations h) (?ks ! i)) [0 ..< ?lim]"
    using n by (simp add: GetRecentOperations_def sort_descending_correct Let_def)
  also have "\<dots> = map (\<lambda>i. the (map_of (oh_Operations h) (?ks ! i))) [0 ..< ?lim]"
  proof -
    have "filter (\<lambda>i. map_of (oh_Operations h) (?ks ! i) \<noteq> None) [0 ..< ?lim] = [0 ..< ?lim]"
    proof (rule filter_True, rule ballI)
      fix i assume "i \<in> set [0 ..< ?lim]"
      then have "?ks ! i \<in> set ?ks" by (intro nth_mem) simp
      from key [OF this] show "map_of (oh_Operations h) (?ks ! i) \<noteq> None" by auto
    qed
    then show ?thesis by (simp add: List.map_filter_def o_def)
  qed
  finally have g: "GetRecentOperations (Some h) n = map (\<lambda>i. the (map_of (oh_Operations h) (?ks ! i))) [0 ..< ?lim]" .
  have elem: "\<exists>e. map_of (oh_Operations h) (?ks ! i) = Some e \<and> e \<in> snd ` set (oh_Operations h) \<and> he_SequenceNumber e = ?ks ! i"
    if "i < ?lim" for i
  proof -
    have "?ks ! i \<in> set ?ks" using that by (intro nth_mem) simp
    from key [OF this] show ?thesis by (force intro: rev_image_eqI)
  qed
  have "map he_SequenceNumber (GetRecentOperations (Some h) n) = map (\<lambda>i. ?ks ! i) [0 ..< ?lim]"
    unfolding g map_map
  proof (rule map_cong [OF refl])
    fix i assume "i \<in> set [0 ..< ?lim]"
    then obtain e where "map_of (oh_Operations h) (?ks ! i) = Some e" "he_SequenceNumber e = ?ks ! i" using elem [of i] by auto
    then show "(he_SequenceNumber \<circ> (\<lambda>i. the (map_of (oh_Operations h) (?ks ! i)))) i = ?ks ! i" by simp
  qed
  also have "\<dots> = take (nat n) ?ks" by (intro nth_equalityI) simp_all
  finally have 1: "map he_SequenceNumber (GetRecentOperations (Some h) n) = take (nat n) ?ks" .
  have 2: "set (GetRecentOperations (Some h) n) \<subseteq> snd ` set (oh_Operations h)"
  proof
    fix x assume "x \<in> set (GetRecentOperations (Some h) n)"
    then obtain i where "i < ?lim" "x = the (map_of (oh_Operations h) (?ks ! i))" unfolding g by auto
    moreover from this(1) obtain e where "map_of (oh_Operations h) (?ks ! i) = Some e" "e \<in> snd ` set (oh_Operations h)"
      using elem by blast
    ultimately show "x \<in> snd ` set (oh_Operations h)" by simp
  qed
  show ?thesis using 1 2 stats_foldl [of "map fst (oh_Operations h)"] by (auto simp: GetHistoryStats_def)
qed

theorem history_queries_correct_witness:
  "map he_SequenceNumber (GetRecentOperations (Some (AddOperation NewOperationHistory (demo_entry 1))) 5) = [1]"
proof -
  have w: "hist_wf (AddOperation NewOperationHistory (demo_entry 1))" by code_simp
  from history_queries_correct [OF w, of 5] show ?thesis
    by (simp add: AddOperation_def NewOperationHistory_def demo_entry_def)
qed

subsection \<open>The current state\<close>

lemma apply_current_view:
  assumes "CellOperation_Validate uuid_ok op = None"
  shows "map_of (apply_current m op) = (map_of m)(co_ID op := session_effect op)"
  using CellOperation_Validate_None [OF assms]
  by (auto simp: apply_current_def session_effect_def update_conv' delete_conv')

lemma current_state_refines:
  assumes "\<forall>op \<in> set ops. CellOperation_Validate uuid_ok op = None"
  shows "map_of (foldl apply_current m ops) = foldl (\<lambda>m op. m(co_ID op := session_effect op)) (map_of m) ops"
  using assms by (induction ops arbitrary: m) (simp_all add: apply_current_view [of uuid_ok])

end
