(* ===== verification/Collab_Session.thy ===== *)
theory Collab_Session
  imports Access_Control Operation_History
begin

text \<open>
  Collaboration sessions (\<open>api/websocket.go\<close>, \<open>api/asyncapi_types.go\<close>): connected clients with
  their bounded outbound queues, the session with its host, presenter, deny list and history, and the
  messages participants exchange about presenting, removal and leaving.

  Clients and sessions are shared through pointers, so the hub owns a heap: \<open>hub_clients\<close> and
  \<open>hub_sessions\<close> map references to objects, and \<open>hub_next\<close> is the next free reference. A Go map whose
  keys are client pointers is the list of them; its order is the order the map is ranged over.
  A client's \<open>Send\<close> channel is the list of messages not yet written, its connection the list of frames
  written to it directly and whether it has been closed. A message is the value that is marshalled;
  marshalling these values does not fail. Timestamps of error messages and log output are left out.
  The store of threat models is an interface of the code; it has been set before a session starts.
\<close>

subsection \<open>Messages\<close>

record AsyncParticipant =
  ap_User :: User
  ap_Permissions :: string
  ap_LastActivity :: time

record DiagramOperationEvent =
  ev_InitiatingUser :: User
  ev_OperationID :: string
  ev_SequenceNumber :: "uint64 option"
  ev_UpdateVector :: int64
  ev_Operation :: CellPatchOperation

record OperationRejectedMessage =
  rj_OperationID :: string
  rj_SequenceNumber :: "uint64 option"
  rj_UpdateVector :: int64
  rj_Reason :: string
  rj_Message :: string
  rj_Details :: "string option"
  rj_AffectedCells :: "string list"
  rj_RequiresResync :: bool

datatype ws_message =
    ErrorMessage string string
  | ParticipantsUpdateMessage "AsyncParticipant list" User "User option"
  | DiagramStateMessage string int64 "Cells_Item list" "string list option"
  | PresenterRequestEvent User
  | PresenterDeniedEvent User
  | PresenterCursorMessage json
  | PresenterSelectionMessage json
  | SyncStatusResponseMessage int64
  | OperationEvent DiagramOperationEvent
  | OperationRejected OperationRejectedMessage
  | HistoryOperationMessage string string
  | AuthorizationDeniedMessage string string
  | CloseMessage nat string

record DiagramOperationRequest =
  rq_OperationID :: string
  rq_Operation :: CellPatchOperation

text \<open>
  An inbound text frame, as what \<open>json.Unmarshal\<close> makes of it in each struct the router and the
  handlers decode into; None (or False) is a decoding error.
\<close>

record raw_message =
  rm_MessageType :: "string option"
  rm_PresenterRequest :: bool
  rm_ChangePresenter :: "User option"
  rm_RemoveParticipant :: "User option"
  rm_PresenterDenied :: "User option"
  rm_PresenterCursor :: "json option"
  rm_PresenterSelection :: "json option"
  rm_SyncRequest :: "int64 option option"
  rm_UndoRequest :: bool
  rm_RedoRequest :: bool
  rm_DiagramOperation :: "DiagramOperationRequest option"

subsection \<open>Clients, sessions, hub\<close>

datatype SessionState = SessionStateActive | SessionStateTerminating | SessionStateTerminated

record WebSocketClient =
  wc_Session :: nat
  wc_UserID :: string
  wc_UserName :: string
  wc_UserEmail :: string
  wc_UserProvider :: string
  wc_InternalUUID :: string
  wc_Send :: "ws_message list"
  wc_LastActivity :: time
  wc_closing :: bool
  wc_JWTExpiry :: "time option"
  wc_Written :: "ws_message list"
  wc_ConnClosed :: bool

text \<open>
  \<open>dg_Running\<close> is whether the session's \<open>Run\<close> goroutine is alive, \<open>dg_Wedged\<close> whether a panic left its
  mutex locked, so that every later operation on the session blocks.
\<close>

record DiagramSession =
  dg_ID :: string
  dg_DiagramID :: string
  dg_ThreatModelID :: string
  dg_State :: SessionState
  dg_Clients :: "nat list"
  dg_Broadcast :: "ws_message list"
  dg_LastActivity :: time
  dg_TerminatedAt :: "time option"
  dg_Host :: ResolvedUser
  dg_CurrentPresenter :: "ResolvedUser option"
  dg_DeniedUsers :: "string list"
  dg_OperationHistory :: "OperationHistory option"
  dg_NextSequenceNumber :: uint64
  dg_Running :: bool
  dg_Wedged :: bool

record WebSocketHub =
  hub_Diagrams :: "(string \<times> nat) list"
  hub_InactivityTimeout :: int
  hub_sessions :: "nat \<Rightarrow> DiagramSession"
  hub_clients :: "nat \<Rightarrow> WebSocketClient"
  hub_next :: nat

record ThreatModel =
  tm_Owner :: User
  tm_Authorization :: "Authorization list option"
  tm_Diagrams :: "string list"

record ws_env =
  env_Fixtures :: "string \<times> Authorization list"
  env_ThreatModel_Get :: "string \<Rightarrow> go_error + ThreatModel"

abbreviation session_of :: "WebSocketHub \<Rightarrow> nat \<Rightarrow> DiagramSession" where
  "session_of h s \<equiv> hub_sessions h s"

abbreviation client_of :: "WebSocketHub \<Rightarrow> nat \<Rightarrow> WebSocketClient" where
  "client_of h c \<equiv> hub_clients h c"

definition upd_client :: "nat \<Rightarrow> (WebSocketClient \<Rightarrow> WebSocketClient) \<Rightarrow> WebSocketHub \<Rightarrow> WebSocketHub" where
  "upd_client c f h = h\<lparr>hub_clients := (hub_clients h)(c := f (hub_clients h c))\<rparr>"

definition upd_session :: "nat \<Rightarrow> (DiagramSession \<Rightarrow> DiagramSession) \<Rightarrow> WebSocketHub \<Rightarrow> WebSocketHub" where
  "upd_session s f h = h\<lparr>hub_sessions := (hub_sessions h)(s := f (hub_sessions h s))\<rparr>"

definition ResolvedUserFromWebSocketClient :: "WebSocketClient \<Rightarrow> ResolvedUser" where
  "ResolvedUserFromWebSocketClient w = \<lparr>ru_InternalUUID = wc_InternalUUID w, ru_Provider = wc_UserProvider w,
     ru_ProviderID = wc_UserID w, ru_Email = wc_UserEmail w, ru_DisplayName = wc_UserName w\<rparr>"

definition toUser :: "WebSocketClient \<Rightarrow> User" where
  "toUser w = \<lparr>usr_PrincipalType = ''user'', usr_Provider = wc_UserProvider w, usr_ProviderId = wc_UserID w,
     usr_Email = wc_UserEmail w, usr_DisplayName = wc_UserName w\<rparr>"

subsection \<open>Sending\<close>

definition closeClientChannel :: "WebSocketClient \<Rightarrow> WebSocketClient" where
  "closeClientChannel w = (if \<not> wc_closing w then w\<lparr>wc_closing := True\<rparr> else w)"

text \<open>\<open>make(chan []byte, 256)\<close>: a send to a full buffer takes the default case.\<close>

definition trySend :: "WebSocketClient \<Rightarrow> ws_message \<Rightarrow> WebSocketClient \<times> bool" where
  "trySend w msg =
    (if wc_closing w then (w, False)
     else if length (wc_Send w) < 256 then (w\<lparr>wc_Send := wc_Send w @ [msg]\<rparr>, True)
     else (w, False))"

definition sendToClient :: "WebSocketHub \<Rightarrow> nat \<Rightarrow> ws_message \<Rightarrow> WebSocketHub" where
  "sendToClient h c message = upd_client c (\<lambda>w. fst (trySend w message)) h"

definition sendErrorMessage :: "WebSocketHub \<Rightarrow> nat \<Rightarrow> string \<Rightarrow> string \<Rightarrow> WebSocketHub" where
  "sendErrorMessage h c errorCode errorMessage = sendToClient h c (ErrorMessage errorCode errorMessage)"

definition broadcastToAllClients :: "WebSocketHub \<Rightarrow> nat \<Rightarrow> ws_message \<Rightarrow> WebSocketHub" where
  "broadcastToAllClients h s message = foldl (\<lambda>h c. sendToClient h c message) h (dg_Clients (session_of h s))"

definition broadcastToOthers :: "WebSocketHub \<Rightarrow> nat \<Rightarrow> nat \<Rightarrow> ws_message \<Rightarrow> WebSocketHub" where
  "broadcastToOthers h s sender message =
     foldl (\<lambda>h c. if c = sender then h else sendToClient h c message) h (dg_Clients (session_of h s))"

definition sendAuthorizationDenied :: "WebSocketHub \<Rightarrow> nat \<Rightarrow> string \<Rightarrow> string \<Rightarrow> WebSocketHub" where
  "sendAuthorizationDenied h c operationID reason = sendToClient h c (AuthorizationDeniedMessage operationID reason)"

fun participants_of :: "(nat \<Rightarrow> WebSocketClient) \<Rightarrow> string list \<Rightarrow> nat list \<Rightarrow> AsyncParticipant list" where
  "participants_of clients processed [] = []"
| "participants_of clients processed (c # cs) =
    (if wc_UserID (clients c) \<in> set processed then participants_of clients processed cs
     else \<lparr>ap_User = toUser (clients c), ap_Permissions = ''writer'', ap_LastActivity = wc_LastActivity (clients c)\<rparr> #
          participants_of clients (wc_UserID (clients c) # processed) cs)"

definition broadcastParticipantsUpdate :: "WebSocketHub \<Rightarrow> nat \<Rightarrow> WebSocketHub" where
  "broadcastParticipantsUpdate h s =
    (let d = session_of h s;
         msg = ParticipantsUpdateMessage (participants_of (hub_clients h) [] (dg_Clients d)) (ToUser (dg_Host d))
                 (map_option ToUser (dg_CurrentPresenter d))
     in if length (dg_Broadcast d) < 256
        then upd_session s (\<lambda>d. d\<lparr>dg_Broadcast := dg_Broadcast d @ [msg]\<rparr>) h
        else h)"

definition broadcastSessionTermination :: "WebSocketHub \<Rightarrow> nat \<Rightarrow> string \<Rightarrow> WebSocketHub" where
  "broadcastSessionTermination h s reason =
     foldl (\<lambda>h c. sendToClient h c (ErrorMessage ''session_terminated''
        (''Collaboration session has been terminated: '' @ reason))) h (dg_Clients (session_of h s))"

definition findClientByUserID :: "WebSocketHub \<Rightarrow> nat \<Rightarrow> string \<Rightarrow> nat option" where
  "findClientByUserID h s userID = find (\<lambda>c. wc_UserID (client_of h c) = userID) (dg_Clients (session_of h s))"

definition findClientByIdentity :: "WebSocketHub \<Rightarrow> nat \<Rightarrow> ResolvedUser \<Rightarrow> nat option" where
  "findClientByIdentity h s target =
     find (\<lambda>c. SamePrincipal (ResolvedUserFromWebSocketClient (client_of h c)) target) (dg_Clients (session_of h s))"

subsection \<open>Permissions\<close>

definition checkMutationPermission :: "ws_env \<Rightarrow> WebSocketHub \<Rightarrow> nat \<Rightarrow> nat \<Rightarrow> bool" where
  "checkMutationPermission env h s c =
    (if wc_UserID (client_of h c) = [] then False
     else if dg_ThreatModelID (session_of h s) = [] then True
     else case env_ThreatModel_Get env (dg_ThreatModelID (session_of h s)) of
       Inl e \<Rightarrow> False
     | Inr tm \<Rightarrow>
       (case CheckResourceAccessWithGroups (env_Fixtures env)
               (empty_ResolvedUser\<lparr>ru_Provider := wc_UserProvider (client_of h c), ru_ProviderID := wc_UserID (client_of h c),
                                   ru_Email := wc_UserEmail (client_of h c)\<rparr>)
               [] (ResThreatModel (tm_Owner tm) (tm_Authorization tm)) RoleWriter of
          Inl e \<Rightarrow> False
        | Inr hasWriteAccess \<Rightarrow> hasWriteAccess))"

definition checkReadPermission :: "ws_env \<Rightarrow> WebSocketHub \<Rightarrow> nat \<Rightarrow> nat \<Rightarrow> bool" where
  "checkReadPermission env h s c =
    (if wc_UserID (client_of h c) = [] then False
     else if dg_ThreatModelID (session_of h s) = [] then True
     else case env_ThreatModel_Get env (dg_ThreatModelID (session_of h s)) of
       Inl e \<Rightarrow> False
     | Inr tm \<Rightarrow>
       (case CheckResourceAccessWithGroups (env_Fixtures env) (ResolvedUserFromWebSocketClient (client_of h c))
               [] (ResThreatModel (tm_Owner tm) (tm_Authorization tm)) RoleReader of
          Inl e \<Rightarrow> False
        | Inr hasReadAccess \<Rightarrow> hasReadAccess))"

subsection \<open>Presenting and removing\<close>

definition removeAndBlockClient :: "WebSocketHub \<Rightarrow> nat \<Rightarrow> nat \<Rightarrow> string \<Rightarrow> WebSocketHub" where
  "removeAndBlockClient h s c reason =
    (let h1 = upd_session s (\<lambda>d. d\<lparr>dg_Clients := remove1 c (dg_Clients d)\<rparr>) h;
         h2 = sendToClient h1 c (ErrorMessage ''SECURITY_VIOLATION'' reason);
         h3 = upd_client c closeClientChannel h2
     in broadcastParticipantsUpdate h3 s)"

definition identity_mismatch :: "User \<Rightarrow> WebSocketClient \<Rightarrow> bool" where
  "identity_mismatch provided actual \<longleftrightarrow>
     (usr_ProviderId provided \<noteq> [] \<and> usr_ProviderId provided \<noteq> wc_UserID actual) \<or>
     (usr_Email provided \<noteq> [] \<and> usr_Email provided \<noteq> wc_UserEmail actual) \<or>
     (usr_DisplayName provided \<noteq> [] \<and> usr_DisplayName provided \<noteq> wc_UserName actual)"

definition validateTargetUserIdentity :: "WebSocketHub \<Rightarrow> nat \<Rightarrow> nat \<Rightarrow> User \<Rightarrow> nat \<Rightarrow> WebSocketHub \<times> bool" where
  "validateTargetUserIdentity h s requestingClient providedUserInfo actualClient =
    (if identity_mismatch providedUserInfo (client_of h actualClient)
     then (removeAndBlockClient h s requestingClient ''Providing false information about other users'', False)
     else (h, True))"

abbreviation client_user :: "WebSocketHub \<Rightarrow> nat \<Rightarrow> ResolvedUser" where
  "client_user h c \<equiv> ResolvedUserFromWebSocketClient (client_of h c)"

definition set_presenter :: "nat \<Rightarrow> ResolvedUser option \<Rightarrow> WebSocketHub \<Rightarrow> WebSocketHub" where
  "set_presenter s p h = upd_session s (\<lambda>d. d\<lparr>dg_CurrentPresenter := p\<rparr>) h"

definition is_presenter :: "WebSocketHub \<Rightarrow> nat \<Rightarrow> nat \<Rightarrow> bool" where
  "is_presenter h s c = (case dg_CurrentPresenter (session_of h s) of
     None \<Rightarrow> False | Some p \<Rightarrow> SamePrincipal (client_user h c) p)"

definition processPresenterRequest :: "WebSocketHub \<Rightarrow> nat \<Rightarrow> nat \<Rightarrow> raw_message \<Rightarrow> WebSocketHub" where
  "processPresenterRequest h s c message =
    (if \<not> rm_PresenterRequest message then h
     else if is_presenter h s c then h
     else if SamePrincipal (client_user h c) (dg_Host (session_of h s)) then
       broadcastParticipantsUpdate (set_presenter s (Some (client_user h c)) h) s
     else case findClientByIdentity h s (dg_Host (session_of h s)) of
       Some hostClient \<Rightarrow> sendToClient h hostClient (PresenterRequestEvent (toUser (client_of h c)))
     | None \<Rightarrow> sendToClient h c (PresenterDeniedEvent (toUser (client_of h c))))"

definition processChangePresenter :: "WebSocketHub \<Rightarrow> nat \<Rightarrow> nat \<Rightarrow> raw_message \<Rightarrow> WebSocketHub" where
  "processChangePresenter h s c message =
    (case rm_ChangePresenter message of
       None \<Rightarrow> h
     | Some newPresenter \<Rightarrow>
       (case findClientByUserID h s (usr_ProviderId newPresenter) of
          None \<Rightarrow> sendErrorMessage h c ''invalid_participant'' ''Cannot change presenter to user not in session''
        | Some targetClient \<Rightarrow>
          (let (h1, valid) = validateTargetUserIdentity h s c newPresenter targetClient in
           if \<not> valid then h1
           else if \<not> SamePrincipal (client_user h1 c) (dg_Host (session_of h1 s)) then h1
           else broadcastParticipantsUpdate (set_presenter s (Some (client_user h1 targetClient)) h1) s)))"

definition processRemoveParticipant :: "WebSocketHub \<Rightarrow> nat \<Rightarrow> nat \<Rightarrow> raw_message \<Rightarrow> WebSocketHub" where
  "processRemoveParticipant h s c message =
    (case rm_RemoveParticipant message of
       None \<Rightarrow> sendErrorMessage h c ''invalid_message'' ''Failed to parse remove participant request''
     | Some removedUser \<Rightarrow>
       (case findClientByUserID h s (usr_ProviderId removedUser) of
          None \<Rightarrow> sendErrorMessage h c ''invalid_participant'' ''Cannot remove user not in session''
        | Some targetClient \<Rightarrow>
          (let (h1, valid) = validateTargetUserIdentity h s c removedUser targetClient; host = dg_Host (session_of h1 s) in
           if \<not> valid then h1
           else if \<not> SamePrincipal (client_user h1 c) host then
             sendErrorMessage h1 c ''unauthorized'' ''Only the host can remove participants from the session''
           else if usr_ProviderId removedUser = wc_UserID (client_of h1 c) then
             sendErrorMessage h1 c ''invalid_request'' ''Cannot remove yourself''
           else
             (let uuid = wc_InternalUUID (client_of h1 targetClient);
                  h2 = (if uuid \<noteq> [] then upd_session s (\<lambda>d. d\<lparr>dg_DeniedUsers := List.insert uuid (dg_DeniedUsers d)\<rparr>) h1 else h1);
                  h3 = sendErrorMessage h2 targetClient ''removed_from_session''
                         ''You have been removed from this collaboration session by the host'';
                  h4 = upd_client targetClient (\<lambda>w. w\<lparr>wc_ConnClosed := True\<rparr>) h3;
                  h5 = (case dg_CurrentPresenter (session_of h4 s) of
                          None \<Rightarrow> h4
                        | Some p \<Rightarrow> if SamePrincipal p (ResolvedUserFromUser removedUser) then set_presenter s (Some host) h4 else h4)
              in broadcastParticipantsUpdate h5 s))))"

definition processPresenterDenied :: "WebSocketHub \<Rightarrow> nat \<Rightarrow> nat \<Rightarrow> raw_message \<Rightarrow> WebSocketHub" where
  "processPresenterDenied h s c message =
    (case rm_PresenterDenied message of
       None \<Rightarrow> h
     | Some deniedUser \<Rightarrow>
       if \<not> SamePrincipal (client_user h c) (dg_Host (session_of h s)) then h
       else case findClientByUserID h s (usr_ProviderId deniedUser) of
         None \<Rightarrow> h
       | Some targetClient \<Rightarrow>
         (let (h1, valid) = validateTargetUserIdentity h s c deniedUser targetClient in
          if \<not> valid then h1
          else sendToClient h1 targetClient (PresenterDeniedEvent (toUser (client_of h1 targetClient)))))"

definition processPresenterCursor :: "WebSocketHub \<Rightarrow> nat \<Rightarrow> nat \<Rightarrow> raw_message \<Rightarrow> WebSocketHub" where
  "processPresenterCursor h s c message =
    (case rm_PresenterCursor message of
       None \<Rightarrow> h
     | Some msg \<Rightarrow> if \<not> is_presenter h s c then h else broadcastToOthers h s c (PresenterCursorMessage msg))"

definition processPresenterSelection :: "WebSocketHub \<Rightarrow> nat \<Rightarrow> nat \<Rightarrow> raw_message \<Rightarrow> WebSocketHub" where
  "processPresenterSelection h s c message =
    (case rm_PresenterSelection message of
       None \<Rightarrow> h
     | Some msg \<Rightarrow> if \<not> is_presenter h s c then h else broadcastToOthers h s c (PresenterSelectionMessage msg))"

subsection \<open>Leaving\<close>

definition handlePresenterDisconnection :: "ws_env \<Rightarrow> WebSocketHub \<Rightarrow> nat \<Rightarrow> WebSocketHub" where
  "handlePresenterDisconnection env h s =
    (let d = session_of h s;
         newPresenter =
           (if findClientByIdentity h s (dg_Host d) \<noteq> None then Some (dg_Host d)
            else if dg_ThreatModelID d \<noteq> [] then
              (case env_ThreatModel_Get env (dg_ThreatModelID d) of
                 Inl e \<Rightarrow> None
               | Inr tm \<Rightarrow>
                 map_option (client_user h)
                   (find (\<lambda>c. CheckResourceAccessWithGroups (env_Fixtures env) (client_user h c) []
                                (ResThreatModel (tm_Owner tm) (tm_Authorization tm)) RoleWriter = Inr True)
                      (dg_Clients d)))
            else None)
     in set_presenter s newPresenter h)"

definition hub_delete :: "string \<Rightarrow> WebSocketHub \<Rightarrow> WebSocketHub" where
  "hub_delete diagramID h = h\<lparr>hub_Diagrams := AList.delete diagramID (hub_Diagrams h)\<rparr>"

text \<open>The close frame, the closed connection and the closed channel of one participant.\<close>

definition disconnect_participant :: "WebSocketClient \<Rightarrow> WebSocketClient" where
  "disconnect_participant w = closeClientChannel (w\<lparr>
     wc_Written := wc_Written w @ [CloseMessage 1000 ''Session terminated: host disconnected''], wc_ConnClosed := True\<rparr>)"

definition handleHostDisconnection :: "time \<Rightarrow> WebSocketHub \<Rightarrow> nat \<Rightarrow> string \<Rightarrow> WebSocketHub" where
  "handleHostDisconnection now h s disconnectedHostID =
    (let h1 = upd_session s (\<lambda>d. d\<lparr>dg_State := SessionStateTerminating, dg_TerminatedAt := Some now\<rparr>) h;
         h2 = broadcastSessionTermination h1 s ''Host has disconnected'';
         h3 = foldl (\<lambda>h c. if wc_UserID (client_of h c) \<noteq> disconnectedHostID then upd_client c disconnect_participant h else h)
                h2 (dg_Clients (session_of h2 s));
         h4 = upd_session s (\<lambda>d. d\<lparr>dg_Clients := [], dg_State := SessionStateTerminated\<rparr>) h3
     in hub_delete (dg_DiagramID (session_of h4 s)) h4)"

subsection \<open>Reading the heap after an operation\<close>

lemma upd_client_sel [simp]:
  "hub_sessions (upd_client c f h) = hub_sessions h" "hub_Diagrams (upd_client c f h) = hub_Diagrams h"
  "hub_InactivityTimeout (upd_client c f h) = hub_InactivityTimeout h" "hub_next (upd_client c f h) = hub_next h"
  "hub_clients (upd_client c f h) = (hub_clients h)(c := f (client_of h c))"
  by (simp_all add: upd_client_def)

lemma upd_session_sel [simp]:
  "hub_clients (upd_session s g h) = hub_clients h" "hub_Diagrams (upd_session s g h) = hub_Diagrams h"
  "hub_InactivityTimeout (upd_session s g h) = hub_InactivityTimeout h" "hub_next (upd_session s g h) = hub_next h"
  "hub_sessions (upd_session s g h) = (hub_sessions h)(s := g (session_of h s))"
  by (simp_all add: upd_session_def)

lemma hub_delete_sel [simp]:
  "hub_clients (hub_delete i h) = hub_clients h" "hub_sessions (hub_delete i h) = hub_sessions h"
  "hub_InactivityTimeout (hub_delete i h) = hub_InactivityTimeout h" "hub_next (hub_delete i h) = hub_next h"
  "hub_Diagrams (hub_delete i h) = AList.delete i (hub_Diagrams h)"
  by (simp_all add: hub_delete_def)

lemma sendToClient_sel [simp]:
  "hub_sessions (sendToClient h c m) = hub_sessions h" "hub_Diagrams (sendToClient h c m) = hub_Diagrams h"
  "hub_InactivityTimeout (sendToClient h c m) = hub_InactivityTimeout h" "hub_next (sendToClient h c m) = hub_next h"
  "hub_clients (sendToClient h c m) = (hub_clients h)(c := fst (trySend (client_of h c) m))"
  by (simp_all add: sendToClient_def)

lemma set_presenter_sel [simp]:
  "hub_clients (set_presenter s p h) = hub_clients h" "hub_Diagrams (set_presenter s p h) = hub_Diagrams h"
  "hub_InactivityTimeout (set_presenter s p h) = hub_InactivityTimeout h" "hub_next (set_presenter s p h) = hub_next h"
  "hub_sessions (set_presenter s p h) = (hub_sessions h)(s := (session_of h s)\<lparr>dg_CurrentPresenter := p\<rparr>)"
  by (simp_all add: set_presenter_def)

text \<open>A fold that acts on clients only leaves the rest of the hub alone, and reaches each client of the list once.\<close>

lemma foldl_client_frame:
  assumes "\<And>h c. hub_sessions (f h c) = hub_sessions h \<and> hub_Diagrams (f h c) = hub_Diagrams h \<and>
     hub_InactivityTimeout (f h c) = hub_InactivityTimeout h \<and> hub_next (f h c) = hub_next h"
  shows "hub_sessions (foldl f h cs) = hub_sessions h \<and> hub_Diagrams (foldl f h cs) = hub_Diagrams h \<and>
     hub_InactivityTimeout (foldl f h cs) = hub_InactivityTimeout h \<and> hub_next (foldl f h cs) = hub_next h"
  using assms by (induction cs arbitrary: h) auto

lemma foldl_client_each:
  assumes "\<And>h c. hub_clients (f h c) = (hub_clients h)(c := g c (client_of h c))" "distinct cs"
  shows "client_of (foldl f h cs) c = (if c \<in> set cs then g c (client_of h c) else client_of h c)"
  using assms(2) by (induction cs arbitrary: h) (auto simp: assms(1))

lemma broadcast_frame [simp]:
  "hub_sessions (broadcastToAllClients h s m) = hub_sessions h" "hub_Diagrams (broadcastToAllClients h s m) = hub_Diagrams h"
  "hub_next (broadcastToAllClients h s m) = hub_next h"
  "hub_sessions (broadcastToOthers h s c m) = hub_sessions h" "hub_Diagrams (broadcastToOthers h s c m) = hub_Diagrams h"
  "hub_next (broadcastToOthers h s c m) = hub_next h"
  "hub_sessions (broadcastSessionTermination h s r) = hub_sessions h" "hub_Diagrams (broadcastSessionTermination h s r) = hub_Diagrams h"
  "hub_next (broadcastSessionTermination h s r) = hub_next h"
  "hub_InactivityTimeout (broadcastToAllClients h s m) = hub_InactivityTimeout h"
  "hub_InactivityTimeout (broadcastToOthers h s c m) = hub_InactivityTimeout h"
  "hub_InactivityTimeout (broadcastSessionTermination h s r) = hub_InactivityTimeout h"
  unfolding broadcastToAllClients_def broadcastToOthers_def broadcastSessionTermination_def
  by (simp_all add: foldl_client_frame)

lemma broadcastParticipantsUpdate_sel [simp]:
  "hub_clients (broadcastParticipantsUpdate h s) = hub_clients h" "hub_Diagrams (broadcastParticipantsUpdate h s) = hub_Diagrams h"
  "hub_next (broadcastParticipantsUpdate h s) = hub_next h"
  "dg_ID (session_of (broadcastParticipantsUpdate h s) t) = dg_ID (session_of h t)"
  "dg_DiagramID (session_of (broadcastParticipantsUpdate h s) t) = dg_DiagramID (session_of h t)"
  "dg_ThreatModelID (session_of (broadcastParticipantsUpdate h s) t) = dg_ThreatModelID (session_of h t)"
  "dg_State (session_of (broadcastParticipantsUpdate h s) t) = dg_State (session_of h t)"
  "dg_Clients (session_of (broadcastParticipantsUpdate h s) t) = dg_Clients (session_of h t)"
  "dg_LastActivity (session_of (broadcastParticipantsUpdate h s) t) = dg_LastActivity (session_of h t)"
  "dg_Host (session_of (broadcastParticipantsUpdate h s) t) = dg_Host (session_of h t)"
  "dg_CurrentPresenter (session_of (broadcastParticipantsUpdate h s) t) = dg_CurrentPresenter (session_of h t)"
  "dg_DeniedUsers (session_of (broadcastParticipantsUpdate h s) t) = dg_DeniedUsers (session_of h t)"
  "dg_OperationHistory (session_of (broadcastParticipantsUpdate h s) t) = dg_OperationHistory (session_of h t)"
  "dg_NextSequenceNumber (session_of (broadcastParticipantsUpdate h s) t) = dg_NextSequenceNumber (session_of h t)"
  "dg_Running (session_of (broadcastParticipantsUpdate h s) t) = dg_Running (session_of h t)"
  "dg_Wedged (session_of (broadcastParticipantsUpdate h s) t) = dg_Wedged (session_of h t)"
  by (auto simp: broadcastParticipantsUpdate_def Let_def)

subsection \<open>Delivering messages\<close>

text \<open>A session of two: the host Alice (client 1) and the participant Bob (client 2); Alice presents.\<close>

definition demo_client :: "string \<Rightarrow> WebSocketClient" where
  "demo_client name = \<lparr>wc_Session = 0, wc_UserID = name, wc_UserName = name, wc_UserEmail = name @ ''@example.com'',
     wc_UserProvider = ''google'', wc_InternalUUID = ''u-'' @ name, wc_Send = [], wc_LastActivity = 0, wc_closing = False,
     wc_JWTExpiry = None, wc_Written = [], wc_ConnClosed = False\<rparr>"

definition demo_pair :: WebSocketHub where
  "demo_pair = \<lparr>hub_Diagrams = [(''dg'', 0)], hub_InactivityTimeout = 300,
     hub_sessions = (\<lambda>_. \<lparr>dg_ID = ''s-1'', dg_DiagramID = ''dg'', dg_ThreatModelID = ''tm'', dg_State = SessionStateActive,
       dg_Clients = [1, 2], dg_Broadcast = [], dg_LastActivity = 0, dg_TerminatedAt = None,
       dg_Host = ResolvedUserFromWebSocketClient (demo_client ''alice''),
       dg_CurrentPresenter = Some (ResolvedUserFromWebSocketClient (demo_client ''alice'')), dg_DeniedUsers = [],
       dg_OperationHistory = Some NewOperationHistory, dg_NextSequenceNumber = 1, dg_Running = True, dg_Wedged = False\<rparr>),
     hub_clients = (\<lambda>c. if c = 1 then demo_client ''alice'' else demo_client ''bob''), hub_next = 3\<rparr>"

definition demo_env :: ws_env where
  "demo_env = \<lparr>env_Fixtures = ([], []), env_ThreatModel_Get = (\<lambda>i. if i = ''tm'' then Inr \<lparr>tm_Owner =
     \<lparr>usr_PrincipalType = ''user'', usr_Provider = ''google'', usr_ProviderId = ''alice'', usr_Email = [], usr_DisplayName = []\<rparr>,
     tm_Authorization = None, tm_Diagrams = [''dg'']\<rparr> else Inl (errors_New ''not found''))\<rparr>"

definition no_message :: raw_message where
  "no_message = \<lparr>rm_MessageType = None, rm_PresenterRequest = False, rm_ChangePresenter = None, rm_RemoveParticipant = None,
     rm_PresenterDenied = None, rm_PresenterCursor = None, rm_PresenterSelection = None, rm_SyncRequest = None,
     rm_UndoRequest = False, rm_RedoRequest = False, rm_DiagramOperation = None\<rparr>"

lemma broadcast_delivery:
  assumes "distinct (dg_Clients (session_of h s))"
  shows "client_of (broadcastToOthers h s sender m) c =
      (if c \<in> set (dg_Clients (session_of h s)) \<and> c \<noteq> sender \<and> \<not> wc_closing (client_of h c) \<and> length (wc_Send (client_of h c)) < 256
       then (client_of h c)\<lparr>wc_Send := wc_Send (client_of h c) @ [m]\<rparr> else client_of h c)"
proof -
  have "client_of (broadcastToOthers h s sender m) c =
      (if c \<in> set (dg_Clients (session_of h s)) then (if c = sender then client_of h c else fst (trySend (client_of h c) m)) else client_of h c)"
    unfolding broadcastToOthers_def
    by (rule foldl_client_each [where g = "\<lambda>c w. if c = sender then w else fst (trySend w m)"]) (use assms in auto)
  then show ?thesis by (auto simp: trySend_def)
qed

text \<open>
  A broadcast to the others reaches exactly them: every other connected client whose channel is
  open and not full gets the message appended once at the end of its queue; the sender, clients that
  are closed or full, and everyone outside the session see no change, and nothing else of the hub
  changes.
\<close>

theorem broadcastToOthers_delivers:
  assumes "distinct (dg_Clients (session_of h s))"
  shows "client_of (broadcastToOthers h s sender m) c =
      (if c \<in> set (dg_Clients (session_of h s)) \<and> c \<noteq> sender \<and> \<not> wc_closing (client_of h c) \<and> length (wc_Send (client_of h c)) < 256
       then (client_of h c)\<lparr>wc_Send := wc_Send (client_of h c) @ [m]\<rparr> else client_of h c) \<and>
    hub_sessions (broadcastToOthers h s sender m) = hub_sessions h \<and>
    hub_Diagrams (broadcastToOthers h s sender m) = hub_Diagrams h"
  by (simp only: broadcast_delivery [OF assms] broadcast_frame simp_thms)

theorem broadcastToOthers_delivers_witness:
  "wc_Send (client_of (broadcastToOthers demo_pair 0 1 (SyncStatusResponseMessage 0)) 2) = [SyncStatusResponseMessage 0]"
proof -
  have d: "distinct (dg_Clients (session_of demo_pair 0))" by (simp add: demo_pair_def)
  show ?thesis
    using broadcastToOthers_delivers [OF d, where sender = 1 and m = "SyncStatusResponseMessage 0" and c = 2]
    by (simp add: demo_pair_def demo_client_def)
qed

subsection \<open>Who may steer a session\<close>

text \<open>What steering a session changes: everything but membership, the queue, and the operation history.\<close>

definition control ::
  "DiagramSession \<Rightarrow> string \<times> string \<times> string \<times> SessionState \<times> ResolvedUser \<times> ResolvedUser option \<times> string list \<times> time \<times> bool" where
  "control d = (dg_ID d, dg_DiagramID d, dg_ThreatModelID d, dg_State d, dg_Host d, dg_CurrentPresenter d, dg_DeniedUsers d,
     dg_LastActivity d, dg_Running d)"

lemma control_broadcastParticipantsUpdate [simp]:
  "control (session_of (broadcastParticipantsUpdate h s) t) = control (session_of h t)"
  by (simp add: control_def)

text \<open>The effect of a message from a client that is not the host: control is untouched, and at most the sender leaves.\<close>

definition harmless :: "WebSocketHub \<Rightarrow> nat \<Rightarrow> nat \<Rightarrow> WebSocketHub \<Rightarrow> bool" where
  "harmless h s c h' \<longleftrightarrow> hub_Diagrams h' = hub_Diagrams h \<and>
     (\<forall>t. control (session_of h' t) = control (session_of h t) \<and>
          (dg_Clients (session_of h' t) = dg_Clients (session_of h t) \<or>
           t = s \<and> dg_Clients (session_of h' t) = remove1 c (dg_Clients (session_of h t))))"

text \<open>Stronger: nobody leaves either.\<close>

definition quiet :: "WebSocketHub \<Rightarrow> WebSocketHub \<Rightarrow> bool" where
  "quiet h h' \<longleftrightarrow> hub_Diagrams h' = hub_Diagrams h \<and> hub_InactivityTimeout h' = hub_InactivityTimeout h \<and>
     (\<forall>t. control (session_of h' t) = control (session_of h t) \<and> dg_Clients (session_of h' t) = dg_Clients (session_of h t))"

lemma quiet_harmless: "quiet h h' \<Longrightarrow> harmless h s c h'"
  by (simp add: quiet_def harmless_def)

lemma harmless_refl [simp]: "harmless h s c h"
  by (simp add: harmless_def)

lemma harmless_clients_only:
  "hub_sessions h' = hub_sessions h \<Longrightarrow> hub_Diagrams h' = hub_Diagrams h \<Longrightarrow> harmless h s c h'"
  by (simp add: harmless_def)

lemma harmless_send [simp]: "harmless h s c (sendToClient h x m)" "harmless h s c (sendErrorMessage h x code text)"
  by (simp_all add: harmless_def sendErrorMessage_def)

lemma harmless_removeAndBlock: "harmless h s c (removeAndBlockClient h s c reason)"
  by (simp add: harmless_def removeAndBlockClient_def control_def)

lemma nonhost_presenter_request:
  "\<not> SamePrincipal (client_user h c) (dg_Host (session_of h s)) \<Longrightarrow> harmless h s c (processPresenterRequest h s c m)"
  by (simp add: processPresenterRequest_def split: option.split)

lemma nonhost_change_presenter:
  assumes "\<not> SamePrincipal (client_user h c) (dg_Host (session_of h s))"
  shows "harmless h s c (processChangePresenter h s c m)"
  using assms
  by (simp add: processChangePresenter_def validateTargetUserIdentity_def harmless_removeAndBlock split: option.split)

lemma nonhost_remove_participant:
  assumes "\<not> SamePrincipal (client_user h c) (dg_Host (session_of h s))"
  shows "harmless h s c (processRemoveParticipant h s c m)"
  using assms
  by (simp add: processRemoveParticipant_def validateTargetUserIdentity_def harmless_removeAndBlock Let_def split: option.split)

lemma nonhost_presenter_denied:
  "\<not> SamePrincipal (client_user h c) (dg_Host (session_of h s)) \<Longrightarrow> harmless h s c (processPresenterDenied h s c m)"
  by (simp add: processPresenterDenied_def split: option.split)

lemmas nonhost_handlers = nonhost_presenter_request nonhost_change_presenter nonhost_remove_participant nonhost_presenter_denied

text \<open>None of them touches the operation history.\<close>

definition same_history :: "WebSocketHub \<Rightarrow> WebSocketHub \<Rightarrow> bool" where
  "same_history h h' \<longleftrightarrow> (\<forall>t. dg_OperationHistory (session_of h' t) = dg_OperationHistory (session_of h t) \<and>
     dg_NextSequenceNumber (session_of h' t) = dg_NextSequenceNumber (session_of h t))"

lemma presenter_handlers_history:
  "same_history h (processPresenterRequest h s c m)" "same_history h (processChangePresenter h s c m)"
  "same_history h (processRemoveParticipant h s c m)" "same_history h (processPresenterDenied h s c m)"
  "same_history h (processPresenterCursor h s c m)" "same_history h (processPresenterSelection h s c m)"
  by (simp_all add: same_history_def processPresenterRequest_def processChangePresenter_def processRemoveParticipant_def
      processPresenterDenied_def processPresenterCursor_def processPresenterSelection_def validateTargetUserIdentity_def
      removeAndBlockClient_def sendErrorMessage_def Let_def split: option.split)

lemma cursor_handlers:
  "harmless h s c (processPresenterCursor h s c m)" "harmless h s c (processPresenterSelection h s c m)"
  by (auto simp: processPresenterCursor_def processPresenterSelection_def harmless_def split: option.splits)

text \<open>
  Only the presenter's pointer is shared: a cursor or selection message changes some client's
  queue only when its sender is the current presenter.
\<close>

theorem cursor_only_from_presenter:
  "(processPresenterCursor h s c m \<noteq> h \<or> processPresenterSelection h s c m \<noteq> h) \<longrightarrow>
     (\<exists>p. dg_CurrentPresenter (session_of h s) = Some p \<and> SamePrincipal (client_user h c) p)"
  by (auto simp: processPresenterCursor_def processPresenterSelection_def is_presenter_def split: option.splits if_splits)

theorem cursor_only_from_presenter_witness:
  "processPresenterCursor demo_pair 0 2 (no_message\<lparr>rm_PresenterCursor := Some JNull\<rparr>) = demo_pair"
proof -
  have n: "\<not> SamePrincipal (client_user demo_pair 2) (ResolvedUserFromWebSocketClient (demo_client ''alice''))" by code_simp
  have p: "dg_CurrentPresenter (session_of demo_pair 0) = Some (ResolvedUserFromWebSocketClient (demo_client ''alice''))"
    by (simp add: demo_pair_def)
  show ?thesis
    using cursor_only_from_presenter [where h = demo_pair and s = 0 and c = 2 and m = "no_message\<lparr>rm_PresenterCursor := Some JNull\<rparr>"] n p
    by auto
qed

text \<open>
  The host hands over: when the host names a connected participant by provider id, and what it says
  about that participant is true, the first such client becomes the presenter and the participants are
  told; nothing else of the session's control changes.
\<close>

theorem host_changes_presenter:
  assumes "rm_ChangePresenter m = Some u"
    and "findClientByUserID h s (usr_ProviderId u) = Some x"
    and "\<not> identity_mismatch u (client_of h x)"
    and "SamePrincipal (client_user h c) (dg_Host (session_of h s))"
    and "length (dg_Broadcast (session_of h s)) < 256"
  shows "x \<in> set (dg_Clients (session_of h s)) \<and> wc_UserID (client_of h x) = usr_ProviderId u \<and>
    session_of (processChangePresenter h s c m) s = (session_of h s)\<lparr>
      dg_CurrentPresenter := Some (client_user h x),
      dg_Broadcast := dg_Broadcast (session_of h s) @ [ParticipantsUpdateMessage
        (participants_of (hub_clients h) [] (dg_Clients (session_of h s))) (ToUser (dg_Host (session_of h s)))
        (Some (ToUser (client_user h x)))]\<rparr>"
  using assms find_Some_in [OF assms(2) [unfolded findClientByUserID_def]]
  by (simp add: processChangePresenter_def validateTargetUserIdentity_def broadcastParticipantsUpdate_def Let_def)

theorem host_changes_presenter_witness:
  "dg_CurrentPresenter (session_of (processChangePresenter demo_pair 0 1
     (no_message\<lparr>rm_ChangePresenter := Some (toUser (demo_client ''bob''))\<rparr>)) 0) = Some (client_user demo_pair 2)"
proof -
  have f: "findClientByUserID demo_pair 0 (usr_ProviderId (toUser (demo_client ''bob''))) = Some 2" by code_simp
  have i: "\<not> identity_mismatch (toUser (demo_client ''bob'')) (client_of demo_pair 2)" by code_simp
  have a: "SamePrincipal (client_user demo_pair 1) (dg_Host (session_of demo_pair 0))" by code_simp
  have b: "length (dg_Broadcast (session_of demo_pair 0)) < 256" by code_simp
  show ?thesis
    using host_changes_presenter [OF _ f i a b, of "no_message\<lparr>rm_ChangePresenter := Some (toUser (demo_client ''bob''))\<rparr>"]
    by simp
qed

subsection \<open>Permissions of connected clients\<close>

lemma SamePrincipal_no_uuid:
  "ru_InternalUUID b = [] \<Longrightarrow> ru_Provider u = ru_Provider v \<Longrightarrow> ru_ProviderID u = ru_ProviderID v \<Longrightarrow>
     SamePrincipal u b = SamePrincipal v b"
  by (simp add: SamePrincipal_def)

lemma access_by_provider_identity:
  assumes "ru_Provider u = ru_Provider v" "ru_ProviderID u = ru_ProviderID v"
  shows "AccessCheckWithGroups u groups req d = AccessCheckWithGroups v groups req d"
proof -
  have "grants u groups = grants v groups"
    using assms by (intro ext) (simp add: grants_def checkGroupMatch_def SamePrincipal_no_uuid [OF _ assms] ResolvedUserFromAuthorization_def)
  then show ?thesis
    by (simp add: AccessCheckWithGroups_decide SamePrincipal_no_uuid [OF _ assms] ResolvedUserFromUser_def)
qed

lemma writer_reads: "hasRequiredRole r RoleWriter \<Longrightarrow> hasRequiredRole r RoleReader"
  by (auto simp: hasRequiredRole_def roleHierarchy_def split: option.splits if_splits)

lemma access_writer_reads: "AccessCheckWithGroups u groups RoleWriter d \<Longrightarrow> AccessCheckWithGroups u groups RoleReader d"
  by (auto simp: AccessCheckWithGroups_decide decide_def writer_reads split: option.splits)

lemma CheckResource_threat_model:
  "CheckResourceAccessWithGroups fx u groups (ResThreatModel ow au) req = Inr (AccessCheckWithGroups u groups req
     \<lparr>ad_Type = ''tmi-1.0'', ad_Owner = ow, ad_Authorization = derefAuthSlice au\<rparr>)"
  by (simp add: CheckResourceAccessWithGroups_def ExtractAuthData_def)

text \<open>Both permission checks, as one statement about the client's full identity.\<close>

definition may :: "ws_env \<Rightarrow> WebSocketHub \<Rightarrow> nat \<Rightarrow> string \<Rightarrow> nat \<Rightarrow> bool" where
  "may env h s req c \<longleftrightarrow> wc_UserID (client_of h c) \<noteq> [] \<and> (dg_ThreatModelID (session_of h s) = [] \<or>
     (\<exists>tm. env_ThreatModel_Get env (dg_ThreatModelID (session_of h s)) = Inr tm \<and>
       AccessCheckWithGroups (client_user h c) [] req
         \<lparr>ad_Type = ''tmi-1.0'', ad_Owner = tm_Owner tm, ad_Authorization = derefAuthSlice (tm_Authorization tm)\<rparr>))"

lemma checkReadPermission_may: "checkReadPermission env h s c \<longleftrightarrow> may env h s RoleReader c"
  by (auto simp: checkReadPermission_def may_def CheckResource_threat_model split: sum.splits)

lemma checkMutationPermission_may: "checkMutationPermission env h s c \<longleftrightarrow> may env h s RoleWriter c"
proof -
  have "AccessCheckWithGroups (empty_ResolvedUser\<lparr>ru_Provider := wc_UserProvider (client_of h c), ru_ProviderID := wc_UserID (client_of h c),
      ru_Email := wc_UserEmail (client_of h c)\<rparr>) [] RoleWriter d = AccessCheckWithGroups (client_user h c) [] RoleWriter d" for d
    by (rule access_by_provider_identity) (simp_all add: ResolvedUserFromWebSocketClient_def)
  then show ?thesis
    by (auto simp: checkMutationPermission_def may_def CheckResource_threat_model split: sum.splits)
qed

text \<open>
  Permission checks agree: although one of them drops the internal identifier, editing and reading
  are decided for the same identity by the threat model's grants, so a client that may edit is never
  cut off by the read check of the heartbeat.
\<close>

theorem mutation_permission_correct:
  "(checkMutationPermission env h s c \<longleftrightarrow> wc_UserID (client_of h c) \<noteq> [] \<and> (dg_ThreatModelID (session_of h s) = [] \<or>
     (\<exists>tm. env_ThreatModel_Get env (dg_ThreatModelID (session_of h s)) = Inr tm \<and>
       AccessCheckWithGroups (client_user h c) [] RoleWriter
         \<lparr>ad_Type = ''tmi-1.0'', ad_Owner = tm_Owner tm, ad_Authorization = derefAuthSlice (tm_Authorization tm)\<rparr>))) \<and>
   (checkMutationPermission env h s c \<longrightarrow> checkReadPermission env h s c)"
  unfolding checkMutationPermission_may checkReadPermission_may may_def by (auto intro: access_writer_reads)

theorem mutation_permission_correct_witness: "checkReadPermission demo_env demo_pair 0 1"
proof -
  have "checkMutationPermission demo_env demo_pair 0 1" by code_simp
  with mutation_permission_correct [where env = demo_env and h = demo_pair and s = 0 and c = 1] show ?thesis by blast
qed

text \<open>
  Succession: when the presenter leaves, the host takes over if connected; otherwise the new
  presenter is a connected client that may edit, and there is none only if no connected client may.
\<close>

theorem presenter_succession:
  assumes "\<forall>c \<in> set (dg_Clients (session_of h s)). wc_UserID (client_of h c) \<noteq> []"
    and "dg_ThreatModelID (session_of h s) \<noteq> []"
  shows "let h' = handlePresenterDisconnection env h s; cs = set (dg_Clients (session_of h s)); host = dg_Host (session_of h s) in
    if \<exists>c \<in> cs. SamePrincipal (client_user h c) host then dg_CurrentPresenter (session_of h' s) = Some host
    else case dg_CurrentPresenter (session_of h' s) of
      Some p \<Rightarrow> \<exists>c \<in> cs. p = client_user h c \<and> checkMutationPermission env h s c
    | None \<Rightarrow> \<forall>c \<in> cs. \<not> checkMutationPermission env h s c"
proof -
  have c: "(findClientByIdentity h s (dg_Host (session_of h s)) \<noteq> None) \<longleftrightarrow>
      (\<exists>c \<in> set (dg_Clients (session_of h s)). SamePrincipal (client_user h c) (dg_Host (session_of h s)))"
    by (auto simp: findClientByIdentity_def find_None_iff)
  show ?thesis
    unfolding handlePresenterDisconnection_def Let_def checkMutationPermission_may c
    using assms
    by (auto simp: may_def CheckResource_threat_model find_None_iff split: sum.splits option.splits dest!: find_Some_in)
qed

theorem presenter_succession_witness:
  "dg_CurrentPresenter (session_of (handlePresenterDisconnection demo_env demo_pair 0) 0) = Some (dg_Host (session_of demo_pair 0))"
proof -
  have u: "\<forall>c \<in> set (dg_Clients (session_of demo_pair 0)). wc_UserID (client_of demo_pair c) \<noteq> []" by code_simp
  have t: "dg_ThreatModelID (session_of demo_pair 0) \<noteq> []" by code_simp
  have a: "\<exists>c \<in> set (dg_Clients (session_of demo_pair 0)). SamePrincipal (client_user demo_pair c) (dg_Host (session_of demo_pair 0))"
    by code_simp
  show ?thesis using presenter_succession [OF u t, of demo_env] a by (simp add: Let_def)
qed

end
