(* ===== verification/Collab_Hub.thy ===== *)
theory Collab_Hub
  imports Collab_Session
begin

text \<open>
  The hub (\<open>WebSocketHub\<close> in \<open>api/websocket.go\<close>, \<open>api/websocket_caps.go\<close>,
  \<open>api/websocket_validation.go\<close>): the registry of sessions by diagram, connecting to one, the cases
  of the session's \<open>Run\<close> loop and the three cleanups. Each function is one critical section or one
  iteration of the loop. \<open>uuid.New()\<close> and the clock are arguments.
\<close>

subsection \<open>The registry\<close>

definition NewWebSocketHub :: "int \<Rightarrow> (nat \<Rightarrow> DiagramSession) \<Rightarrow> (nat \<Rightarrow> WebSocketClient) \<Rightarrow> WebSocketHub" where
  "NewWebSocketHub inactivityTimeout sessions clients = \<lparr>hub_Diagrams = [], hub_InactivityTimeout = inactivityTimeout,
     hub_sessions = sessions, hub_clients = clients, hub_next = 0\<rparr>"

definition FindSessionByID :: "WebSocketHub \<Rightarrow> string \<Rightarrow> nat option" where
  "FindSessionByID h sessionID =
     map_option snd (find (\<lambda>(diagramID, s). dg_ID (session_of h s) = sessionID) (hub_Diagrams h))"

definition GetSession :: "WebSocketHub \<Rightarrow> string \<Rightarrow> nat option" where
  "GetSession h diagramID = map_of (hub_Diagrams h) diagramID"

definition HasActiveSession :: "WebSocketHub \<Rightarrow> string \<Rightarrow> bool" where
  "HasActiveSession h diagramID =
    (case GetSession h diagramID of None \<Rightarrow> False | Some s \<Rightarrow> dg_State (session_of h s) = SessionStateActive)"

definition new_session :: "string \<Rightarrow> time \<Rightarrow> string \<Rightarrow> string \<Rightarrow> ResolvedUser \<Rightarrow> DiagramSession" where
  "new_session uuid now diagramID threatModelID hostUser =
    \<lparr>dg_ID = uuid, dg_DiagramID = diagramID, dg_ThreatModelID = threatModelID, dg_State = SessionStateActive,
     dg_Clients = [], dg_Broadcast = [], dg_LastActivity = now, dg_TerminatedAt = None, dg_Host = hostUser,
     dg_CurrentPresenter = Some hostUser, dg_DeniedUsers = [], dg_OperationHistory = Some NewOperationHistory,
     dg_NextSequenceNumber = 1, dg_Running = True, dg_Wedged = False\<rparr>"

definition alloc_session :: "WebSocketHub \<Rightarrow> string \<Rightarrow> DiagramSession \<Rightarrow> WebSocketHub \<times> nat" where
  "alloc_session h diagramID d =
    (h\<lparr>hub_sessions := (hub_sessions h)(hub_next h := d), hub_next := Suc (hub_next h),
       hub_Diagrams := AList.update diagramID (hub_next h) (hub_Diagrams h)\<rparr>, hub_next h)"

definition CreateSession ::
  "WebSocketHub \<Rightarrow> string \<Rightarrow> time \<Rightarrow> string \<Rightarrow> string \<Rightarrow> ResolvedUser \<Rightarrow> WebSocketHub \<times> (string + nat)" where
  "CreateSession h uuid now diagramID threatModelID hostUser =
    (if GetSession h diagramID \<noteq> None then (h, Inl (''collaboration session already exists for diagram '' @ diagramID))
     else let (h1, s) = alloc_session h diagramID (new_session uuid now diagramID threatModelID hostUser) in (h1, Inr s))"

definition JoinSession :: "WebSocketHub \<Rightarrow> time \<Rightarrow> string \<Rightarrow> WebSocketHub \<times> (string + nat)" where
  "JoinSession h now diagramID =
    (case GetSession h diagramID of
       None \<Rightarrow> (h, Inl (''no collaboration session exists for diagram '' @ diagramID))
     | Some s \<Rightarrow> (upd_session s (\<lambda>d. d\<lparr>dg_LastActivity := now\<rparr>) h, Inr s))"

definition refresh_session :: "time \<Rightarrow> string \<Rightarrow> ResolvedUser \<Rightarrow> DiagramSession \<Rightarrow> DiagramSession" where
  "refresh_session now threatModelID hostUser d =
    (let d1 = d\<lparr>dg_LastActivity := now\<rparr>;
         d2 = (if dg_ThreatModelID d1 = [] \<and> threatModelID \<noteq> [] then d1\<lparr>dg_ThreatModelID := threatModelID\<rparr> else d1)
     in if IsEmpty (dg_Host d2) \<and> \<not> IsEmpty hostUser
        then d2\<lparr>dg_Host := hostUser, dg_CurrentPresenter := Some hostUser\<rparr> else d2)"

definition GetOrCreateSession ::
  "WebSocketHub \<Rightarrow> string \<Rightarrow> time \<Rightarrow> string \<Rightarrow> string \<Rightarrow> ResolvedUser \<Rightarrow> WebSocketHub \<times> nat" where
  "GetOrCreateSession h uuid now diagramID threatModelID hostUser =
    (case GetSession h diagramID of
       Some s \<Rightarrow> (upd_session s (refresh_session now threatModelID hostUser) h, s)
     | None \<Rightarrow> alloc_session h diagramID (new_session uuid now diagramID threatModelID hostUser))"

subsection \<open>Connecting\<close>

definition CountUserConnections :: "WebSocketHub \<Rightarrow> string \<Rightarrow> nat" where
  "CountUserConnections h userID =
    (if userID = [] then 0
     else sum_list (map (\<lambda>(diagramID, s). length (filter (\<lambda>c. wc_UserID (client_of h c) = userID) (dg_Clients (session_of h s))))
                      (hub_Diagrams h)))"

definition CountSessionParticipants :: "WebSocketHub \<Rightarrow> string \<Rightarrow> nat" where
  "CountSessionParticipants h diagramID =
    (case GetSession h diagramID of None \<Rightarrow> 0 | Some s \<Rightarrow> length (dg_Clients (session_of h s)))"

record UserInfo =
  ui_UserID :: string
  ui_UserName :: string
  ui_UserEmail :: string
  ui_UserProvider :: string
  ui_InternalUUID :: string
  ui_TokenExpiry :: "time option"

definition ExtractUserInfo :: "gin_context \<Rightarrow> string + UserInfo" where
  "ExtractUserInfo ctx =
    (let userID = ctx_string ctx ''userID''; userName = ctx_string ctx ''user_name''; email = ctx_string ctx ''userEmail'';
         provider = ctx_string ctx ''userProvider'';
         name1 = (if userName = [] \<and> email \<noteq> [] then email else userName)
     in if userID = [] then Inl ''user ID not found in context''
        else Inr \<lparr>ui_UserID = userID, ui_UserName = (if name1 = [] then userID else name1), ui_UserEmail = email,
                  ui_UserProvider = (if provider = [] then ''unknown'' else provider),
                  ui_InternalUUID = ctx_string ctx ''userInternalUUID'',
                  ui_TokenExpiry = (case ctx ''tokenExp'' of Some (CtxTime t) \<Rightarrow> Some t | _ \<Rightarrow> None)\<rparr>)"

text \<open>\<open>uuid_parse\<close> gives the canonical text of an identifier, or None.\<close>

definition validateWebSocketDiagramAccessWithFlexibleMatching ::
  "(string \<Rightarrow> string option) \<Rightarrow> ws_env \<Rightarrow> UserInfo \<Rightarrow> string \<Rightarrow> string \<Rightarrow> bool" where
  "validateWebSocketDiagramAccessWithFlexibleMatching uuid_parse env userInfo threatModelID diagramID =
    (case uuid_parse threatModelID of
       None \<Rightarrow> False
     | Some tmid \<Rightarrow>
       (case env_ThreatModel_Get env tmid of
          Inl e \<Rightarrow> False
        | Inr tm \<Rightarrow>
          if diagramID \<notin> set (tm_Diagrams tm) then False
          else (case CheckResourceAccessWithGroups (env_Fixtures env)
                       (empty_ResolvedUser\<lparr>ru_Provider := ui_UserProvider userInfo, ru_ProviderID := ui_UserID userInfo,
                                           ru_Email := ui_UserEmail userInfo\<rparr>)
                       [] (ResThreatModel (tm_Owner tm) (tm_Authorization tm)) RoleReader of
                  Inl e \<Rightarrow> False
                | Inr hasAccess \<Rightarrow> hasAccess)))"

definition ValidateSessionState :: "DiagramSession \<Rightarrow> bool" where
  "ValidateSessionState d \<longleftrightarrow> dg_State d = SessionStateActive"

definition ValidateSessionID :: "DiagramSession \<Rightarrow> string \<Rightarrow> bool" where
  "ValidateSessionID d providedSessionID \<longleftrightarrow> providedSessionID = [] \<or> providedSessionID = dg_ID d"

datatype ws_outcome =
    BadRequest | Unauthenticated | TooManyConnections | SessionFull | NoPermission | NotActive | WrongSession | Registering nat nat

definition new_client :: "nat \<Rightarrow> UserInfo \<Rightarrow> time \<Rightarrow> WebSocketClient" where
  "new_client s userInfo now = \<lparr>wc_Session = s, wc_UserID = ui_UserID userInfo, wc_UserName = ui_UserName userInfo,
     wc_UserEmail = ui_UserEmail userInfo, wc_UserProvider = ui_UserProvider userInfo,
     wc_InternalUUID = ui_InternalUUID userInfo, wc_Send = [], wc_LastActivity = now, wc_closing = False,
     wc_JWTExpiry = ui_TokenExpiry userInfo, wc_Written = [], wc_ConnClosed = False\<rparr>"

text \<open>
  \<open>HandleWS\<close> up to the send on the \<open>Register\<close> channel: \<open>Registering s c\<close> is client \<open>c\<close> waiting to be
  registered with session \<open>s\<close>. The path parameters are checked first (\<open>validateWebSocketRequest\<close>).
\<close>

definition HandleWS ::
  "(string \<Rightarrow> string option) \<Rightarrow> ws_env \<Rightarrow> WebSocketHub \<Rightarrow> gin_context \<Rightarrow> string \<Rightarrow> time \<Rightarrow> string \<Rightarrow> string \<Rightarrow> string \<Rightarrow>
   WebSocketHub \<times> ws_outcome" where
  "HandleWS uuid_parse env h ctx uuid now threatModelID diagramID sessionID =
    (if uuid_parse threatModelID = None \<or> uuid_parse diagramID = None then (h, BadRequest)
     else if (case ctx ''user_id'' of Some v \<Rightarrow> ctx_string ctx ''user_id'' | None \<Rightarrow> ctx_string ctx ''user_name_legacy'') = []
       then (h, Unauthenticated)
     else case ExtractUserInfo ctx of
       Inl e \<Rightarrow> (h, Unauthenticated)
     | Inr userInfo \<Rightarrow>
       if CountUserConnections h (ui_UserID userInfo) \<ge> 5 then (h, TooManyConnections)
       else if CountSessionParticipants h diagramID \<ge> 50 then (h, SessionFull)
       else if \<not> validateWebSocketDiagramAccessWithFlexibleMatching uuid_parse env userInfo threatModelID diagramID
         then (h, NoPermission)
       else
         (let (h1, s) = GetOrCreateSession h uuid now diagramID threatModelID
                          \<lparr>ru_InternalUUID = ui_InternalUUID userInfo, ru_Provider = ui_UserProvider userInfo,
                           ru_ProviderID = ui_UserID userInfo, ru_Email = ui_UserEmail userInfo, ru_DisplayName = ui_UserName userInfo\<rparr>
          in if \<not> ValidateSessionState (session_of h1 s) then (h1, NotActive)
             else if \<not> ValidateSessionID (session_of h1 s) sessionID then (h1, WrongSession)
             else (h1\<lparr>hub_clients := (hub_clients h1)(hub_next h1 := new_client s userInfo now), hub_next := Suc (hub_next h1)\<rparr>,
                   Registering s (hub_next h1))))"

subsection \<open>The session loop\<close>

text \<open>The deferred function of \<open>Run\<close>: the goroutine ends and the diagram's entry leaves the hub.\<close>

definition run_exit :: "WebSocketHub \<Rightarrow> nat \<Rightarrow> WebSocketHub" where
  "run_exit h s = hub_delete (dg_DiagramID (session_of h s)) (upd_session s (\<lambda>d. d\<lparr>dg_Running := False\<rparr>) h)"

definition run_Register ::
  "time \<Rightarrow> go_error + DfdDiagram \<Rightarrow> WebSocketHub \<Rightarrow> nat \<Rightarrow> nat \<Rightarrow> WebSocketHub" where
  "run_Register now diagram h s c =
    (if wc_InternalUUID (client_of h c) \<noteq> [] \<and> wc_InternalUUID (client_of h c) \<in> set (dg_DeniedUsers (session_of h s)) then
       upd_client c (\<lambda>w. w\<lparr>wc_Written := wc_Written w @ [ErrorMessage ''access_denied''
           ''You have been removed from this collaboration session and cannot rejoin''], wc_ConnClosed := True\<rparr>) h
     else
       (let h1 = upd_session s (\<lambda>d. d\<lparr>dg_Clients := List.insert c (dg_Clients d), dg_LastActivity := now\<rparr>) h in
        case diagram of
          Inl e \<Rightarrow> broadcastParticipantsUpdate h1 s
        | Inr d \<Rightarrow>
          if wc_closing (client_of h1 c) then run_exit h1 s
          else broadcastParticipantsUpdate
                 (sendToClient h1 c (DiagramStateMessage (dg_DiagramID (session_of h1 s)) (vector_of d) (df_Cells d) (df_ColorPalette d))) s))"

definition CleanupEmptySessions :: "WebSocketHub \<Rightarrow> WebSocketHub" where
  "CleanupEmptySessions h = h\<lparr>hub_Diagrams := filter (\<lambda>(diagramID, s). dg_Clients (session_of h s) \<noteq> []) (hub_Diagrams h)\<rparr>"

text \<open>
  The \<open>Unregister\<close> case. The cleanup of empty sessions it starts runs in a goroutine of its own: it is a
  step of its own.
\<close>

definition run_Unregister :: "ws_env \<Rightarrow> time \<Rightarrow> WebSocketHub \<Rightarrow> nat \<Rightarrow> nat \<Rightarrow> WebSocketHub" where
  "run_Unregister env now h s c =
    (if c \<notin> set (dg_Clients (session_of h s)) then h
     else
       (let h1 = upd_client c closeClientChannel
                   (upd_session s (\<lambda>d. d\<lparr>dg_Clients := remove1 c (dg_Clients d), dg_LastActivity := now\<rparr>) h);
            wasPresenter = is_presenter h1 s c;
            wasHost = SamePrincipal (client_user h1 c) (dg_Host (session_of h1 s));
            hasRemainingClients = dg_Clients (session_of h1 s) \<noteq> [];
            h2 = (if wasPresenter then handlePresenterDisconnection env h1 s else h1)
        in if wasHost then run_exit (handleHostDisconnection now h2 s (wc_UserID (client_of h2 c))) s
           else if hasRemainingClients then broadcastParticipantsUpdate h2 s
           else h2))"

text \<open>
  Delivering one broadcast message. A send on a closed channel panics, with the session's mutex held:
  the flag. A client whose queue is full is closed and dropped.
\<close>

fun deliver :: "ws_message \<Rightarrow> nat list \<Rightarrow> WebSocketHub \<Rightarrow> nat \<Rightarrow> WebSocketHub \<times> bool" where
  "deliver msg [] h s = (h, False)"
| "deliver msg (c # cs) h s =
    (if wc_closing (client_of h c) then (h, True)
     else if length (wc_Send (client_of h c)) < 256 then deliver msg cs (sendToClient h c msg) s
     else deliver msg cs (upd_session s (\<lambda>d. d\<lparr>dg_Clients := remove1 c (dg_Clients d)\<rparr>) (upd_client c closeClientChannel h)) s)"

definition run_Broadcast :: "time \<Rightarrow> WebSocketHub \<Rightarrow> nat \<Rightarrow> WebSocketHub" where
  "run_Broadcast now h s =
    (case dg_Broadcast (session_of h s) of
       [] \<Rightarrow> h
     | msg # rest \<Rightarrow>
       (let h1 = upd_session s (\<lambda>d. d\<lparr>dg_Broadcast := rest, dg_LastActivity := now\<rparr>) h;
            (h2, panicked) = deliver msg (dg_Clients (session_of h1 s)) h1 s
        in if panicked then run_exit (upd_session s (\<lambda>d. d\<lparr>dg_Wedged := True\<rparr>) h2) s else h2))"

subsection \<open>The write pump\<close>

definition close_conn :: "ws_message list \<Rightarrow> WebSocketClient \<Rightarrow> WebSocketClient" where
  "close_conn frames w = w\<lparr>wc_Written := wc_Written w @ frames, wc_ConnClosed := True\<rparr>"

text \<open>One received message: \<open>written\<close> is whether the connection took it; a failed write ends the pump.\<close>

definition WritePump_message :: "bool \<Rightarrow> WebSocketClient \<Rightarrow> WebSocketClient" where
  "WritePump_message written w =
    (case wc_Send w of
       m # ms \<Rightarrow> if written then w\<lparr>wc_Send := ms, wc_Written := wc_Written w @ [m]\<rparr> else close_conn [] (w\<lparr>wc_Send := ms\<rparr>)
     | [] \<Rightarrow> if wc_closing w then close_conn [CloseMessage 1005 []] w else w)"

definition WritePump_tick :: "ws_env \<Rightarrow> time \<Rightarrow> WebSocketHub \<Rightarrow> nat \<Rightarrow> nat \<Rightarrow> WebSocketHub" where
  "WritePump_tick env now h s c =
    (if (case wc_JWTExpiry (client_of h c) of None \<Rightarrow> False | Some t \<Rightarrow> now > t)
     then upd_client c (close_conn [CloseMessage 4401 ''token expired'']) h
     else if \<not> checkReadPermission env h s c then upd_client c (close_conn [CloseMessage 4403 ''access revoked'']) h
     else h)"

subsection \<open>Closing and cleaning up\<close>

definition close_all :: "nat list \<Rightarrow> WebSocketHub \<Rightarrow> WebSocketHub" where
  "close_all cs h = foldl (\<lambda>h c. upd_client c closeClientChannel h) h cs"

definition CloseSession :: "time \<Rightarrow> WebSocketHub \<Rightarrow> string \<Rightarrow> WebSocketHub" where
  "CloseSession now h diagramID =
    (case GetSession h diagramID of
       None \<Rightarrow> h
     | Some s \<Rightarrow>
       (let clientsToClose = dg_Clients (session_of h s);
            h1 = upd_session s (\<lambda>d. d\<lparr>dg_State := SessionStateTerminated, dg_TerminatedAt := Some now, dg_Clients := []\<rparr>)
                   (hub_delete diagramID h)
        in close_all clientsToClose h1))"

definition stale_session :: "time \<Rightarrow> WebSocketHub \<Rightarrow> DiagramSession \<Rightarrow> bool" where
  "stale_session now h d \<longleftrightarrow> dg_State d = SessionStateTerminated \<or>
     dg_LastActivity d < now - hub_InactivityTimeout h \<or> dg_Clients d = []"

text \<open>Deleting the current key while ranging over a map is allowed: every entry is visited once.\<close>

definition CleanupInactiveSessions :: "time \<Rightarrow> WebSocketHub \<Rightarrow> WebSocketHub" where
  "CleanupInactiveSessions now h =
     foldl (\<lambda>g (diagramID, s). if stale_session now g (session_of g s)
                               then hub_delete diagramID (close_all (dg_Clients (session_of g s)) g) else g)
       h (hub_Diagrams h)"

definition CleanupAllSessions :: "WebSocketHub \<Rightarrow> WebSocketHub" where
  "CleanupAllSessions h =
    (if hub_Diagrams h = [] then h
     else (foldl (\<lambda>g (diagramID, s). close_all (dg_Clients (session_of g s)) g) h (hub_Diagrams h))\<lparr>hub_Diagrams := []\<rparr>)"

subsection \<open>Closing channels\<close>

lemma closeClientChannel_idem [simp]: "closeClientChannel (closeClientChannel w) = closeClientChannel w"
  by (simp add: closeClientChannel_def)

lemma closeClientChannel_sel [simp]:
  "wc_closing (closeClientChannel w)" "wc_UserID (closeClientChannel w) = wc_UserID w"
  "wc_InternalUUID (closeClientChannel w) = wc_InternalUUID w" "wc_Send (closeClientChannel w) = wc_Send w"
  "ResolvedUserFromWebSocketClient (closeClientChannel w) = ResolvedUserFromWebSocketClient w"
  by (simp_all add: closeClientChannel_def ResolvedUserFromWebSocketClient_def)

lemma close_all_sel [simp]:
  "hub_sessions (close_all cs h) = hub_sessions h" "hub_Diagrams (close_all cs h) = hub_Diagrams h"
  "hub_InactivityTimeout (close_all cs h) = hub_InactivityTimeout h" "hub_next (close_all cs h) = hub_next h"
  unfolding close_all_def by (simp_all add: foldl_client_frame)

lemma close_all_client [simp]:
  "client_of (close_all cs h) c = (if c \<in> set cs then closeClientChannel (client_of h c) else client_of h c)"
  unfolding close_all_def by (induction cs arbitrary: h) auto

subsection \<open>Cleanup\<close>

abbreviation cleanup_step :: "time \<Rightarrow> WebSocketHub \<Rightarrow> string \<times> nat \<Rightarrow> WebSocketHub" where
  "cleanup_step now \<equiv> \<lambda>g (diagramID, s). if stale_session now g (session_of g s)
     then hub_delete diagramID (close_all (dg_Clients (session_of g s)) g) else g"

lemma AList_delete_filter: "AList.delete k m = filter (\<lambda>(i, v). i \<noteq> k) m"
  by (induction m) (auto simp: AList.delete_eq)

lemma cleanup_fold:
  "hub_sessions (foldl (cleanup_step now) h ds) = hub_sessions h \<and>
   hub_InactivityTimeout (foldl (cleanup_step now) h ds) = hub_InactivityTimeout h \<and>
   hub_Diagrams (foldl (cleanup_step now) h ds) =
     filter (\<lambda>(i, v). \<not> (\<exists>s. (i, s) \<in> set ds \<and> stale_session now h (session_of h s))) (hub_Diagrams h) \<and>
   (\<forall>c. client_of (foldl (cleanup_step now) h ds) c =
     (if \<exists>(i, s) \<in> set ds. stale_session now h (session_of h s) \<and> c \<in> set (dg_Clients (session_of h s))
      then closeClientChannel (client_of h c) else client_of h c))"
proof (induction ds arbitrary: h)
  case Nil
  then show ?case by simp
next
  case (Cons d ds)
  obtain i s where d: "d = (i, s)" by fastforce
  let ?h = "cleanup_step now h d"
  have st: "stale_session now ?h x = stale_session now h x" for x
    by (simp add: d stale_session_def)
  have se: "hub_sessions ?h = hub_sessions h" by (simp add: d)
  from Cons.IH [of ?h] show ?case
    unfolding foldl_Cons st se
    by (auto simp: d AList_delete_filter intro!: filter_cong)
qed

text \<open>
  Cleanup is exact: with one entry per diagram, the hub keeps exactly the sessions that are not
  terminated, were active within the timeout and have a client; exactly the channels of the others'
  clients are closed, and no session is changed.
\<close>

theorem CleanupInactiveSessions_exact:
  assumes "distinct (map fst (hub_Diagrams h))"
  shows "hub_Diagrams (CleanupInactiveSessions now h) = filter (\<lambda>(i, s). dg_State (session_of h s) \<noteq> SessionStateTerminated \<and>
      now - hub_InactivityTimeout h \<le> dg_LastActivity (session_of h s) \<and> dg_Clients (session_of h s) \<noteq> []) (hub_Diagrams h) \<and>
    hub_sessions (CleanupInactiveSessions now h) = hub_sessions h \<and>
    (\<forall>c. wc_closing (client_of (CleanupInactiveSessions now h) c) \<longleftrightarrow> wc_closing (client_of h c) \<or>
       (\<exists>(i, s) \<in> set (hub_Diagrams h). (i, s) \<notin> set (hub_Diagrams (CleanupInactiveSessions now h)) \<and> c \<in> set (dg_Clients (session_of h s))))"
proof -
  have u: "(\<exists>s'. (i, s') \<in> set (hub_Diagrams h) \<and> stale_session now h (session_of h s')) \<longleftrightarrow> stale_session now h (session_of h s)"
    if "(i, s) \<in> set (hub_Diagrams h)" for i s
    using assms that eq_key_imp_eq_value by metis
  have f: "hub_Diagrams (CleanupInactiveSessions now h) =
      filter (\<lambda>(i, s). \<not> stale_session now h (session_of h s)) (hub_Diagrams h)"
    unfolding CleanupInactiveSessions_def using cleanup_fold [of now h "hub_Diagrams h"] u
    by (auto intro!: filter_cong)
  have c: "\<forall>c. client_of (CleanupInactiveSessions now h) c =
     (if \<exists>(i, s) \<in> set (hub_Diagrams h). stale_session now h (session_of h s) \<and> c \<in> set (dg_Clients (session_of h s))
      then closeClientChannel (client_of h c) else client_of h c)"
    and se: "hub_sessions (CleanupInactiveSessions now h) = hub_sessions h"
    unfolding CleanupInactiveSessions_def using cleanup_fold [of now h "hub_Diagrams h"] by blast+
  show ?thesis
    unfolding f c [rule_format] se
    by (auto simp: stale_session_def intro!: filter_cong)
qed

theorem CleanupInactiveSessions_exact_witness:
  "hub_Diagrams (CleanupInactiveSessions 300 demo_pair) = [(''dg'', 0)] \<and> hub_Diagrams (CleanupInactiveSessions 301 demo_pair) = []"
proof -
  have d: "distinct (map fst (hub_Diagrams demo_pair))" by (simp add: demo_pair_def)
  show ?thesis
    using CleanupInactiveSessions_exact [OF d, of 300] CleanupInactiveSessions_exact [OF d, of 301] by (simp add: demo_pair_def)
qed

subsection \<open>Leaving\<close>

lemma run_exit_sel [simp]:
  "hub_clients (run_exit h s) = hub_clients h" "hub_next (run_exit h s) = hub_next h"
  "hub_Diagrams (run_exit h s) = AList.delete (dg_DiagramID (session_of h s)) (hub_Diagrams h)"
  "hub_sessions (run_exit h s) = (hub_sessions h)(s := (session_of h s)\<lparr>dg_Running := False\<rparr>)"
  by (simp_all add: run_exit_def)

lemma handlePresenterDisconnection_sel [simp]:
  "hub_clients (handlePresenterDisconnection env h s) = hub_clients h"
  "hub_Diagrams (handlePresenterDisconnection env h s) = hub_Diagrams h"
  "hub_next (handlePresenterDisconnection env h s) = hub_next h"
  "dg_ID (session_of (handlePresenterDisconnection env h s) t) = dg_ID (session_of h t)"
  "dg_DiagramID (session_of (handlePresenterDisconnection env h s) t) = dg_DiagramID (session_of h t)"
  "dg_State (session_of (handlePresenterDisconnection env h s) t) = dg_State (session_of h t)"
  "dg_Clients (session_of (handlePresenterDisconnection env h s) t) = dg_Clients (session_of h t)"
  "dg_Broadcast (session_of (handlePresenterDisconnection env h s) t) = dg_Broadcast (session_of h t)"
  "dg_Host (session_of (handlePresenterDisconnection env h s) t) = dg_Host (session_of h t)"
  "dg_DeniedUsers (session_of (handlePresenterDisconnection env h s) t) = dg_DeniedUsers (session_of h t)"
  by (auto simp: handlePresenterDisconnection_def Let_def)

lemma disconnect_fold:
  assumes "distinct cs"
  shows "client_of (foldl (\<lambda>h c. if wc_UserID (client_of h c) \<noteq> u then upd_client c disconnect_participant h else h) h cs) c =
     (if c \<in> set cs \<and> wc_UserID (client_of h c) \<noteq> u then disconnect_participant (client_of h c) else client_of h c)"
proof -
  have "client_of (foldl (\<lambda>h c. if wc_UserID (client_of h c) \<noteq> u then upd_client c disconnect_participant h else h) h cs) c =
     (if c \<in> set cs then (if wc_UserID (client_of h c) \<noteq> u then disconnect_participant (client_of h c) else client_of h c) else client_of h c)"
    by (rule foldl_client_each [where g = "\<lambda>c w. if wc_UserID w \<noteq> u then disconnect_participant w else w"]) (use assms in auto)
  then show ?thesis by simp
qed

lemma disconnect_frame [simp]:
  "hub_sessions (foldl (\<lambda>h c. if wc_UserID (client_of h c) \<noteq> u then upd_client c disconnect_participant h else h) h cs) = hub_sessions h"
  "hub_Diagrams (foldl (\<lambda>h c. if wc_UserID (client_of h c) \<noteq> u then upd_client c disconnect_participant h else h) h cs) = hub_Diagrams h"
  "hub_next (foldl (\<lambda>h c. if wc_UserID (client_of h c) \<noteq> u then upd_client c disconnect_participant h else h) h cs) = hub_next h"
  by (simp_all add: foldl_client_frame)

lemma termination_client:
  assumes "distinct (dg_Clients (session_of h s))"
  shows "client_of (broadcastSessionTermination h s r) c = (if c \<in> set (dg_Clients (session_of h s))
     then fst (trySend (client_of h c) (ErrorMessage ''session_terminated'' (''Collaboration session has been terminated: '' @ r)))
     else client_of h c)"
  unfolding broadcastSessionTermination_def
  by (rule foldl_client_each [where g = "\<lambda>c w. fst (trySend w (ErrorMessage ''session_terminated''
     (''Collaboration session has been terminated: '' @ r)))"]) (use assms in auto)

lemma trySend_sel [simp]:
  "wc_UserID (fst (trySend w m)) = wc_UserID w" "wc_closing (fst (trySend w m)) = wc_closing w"
  "wc_ConnClosed (fst (trySend w m)) = wc_ConnClosed w" "wc_InternalUUID (fst (trySend w m)) = wc_InternalUUID w"
  "ResolvedUserFromWebSocketClient (fst (trySend w m)) = ResolvedUserFromWebSocketClient w"
  by (auto simp: trySend_def ResolvedUserFromWebSocketClient_def)

lemma handleHostDisconnection_sel:
  assumes "distinct (dg_Clients (session_of h s))"
  shows "session_of (handleHostDisconnection now h s u) s = (session_of h s)\<lparr>dg_State := SessionStateTerminated,
      dg_TerminatedAt := Some now, dg_Clients := []\<rparr>"
    and "t \<noteq> s \<Longrightarrow> session_of (handleHostDisconnection now h s u) t = session_of h t"
    and "hub_Diagrams (handleHostDisconnection now h s u) = AList.delete (dg_DiagramID (session_of h s)) (hub_Diagrams h)"
    and "client_of (handleHostDisconnection now h s u) c = (if c \<in> set (dg_Clients (session_of h s)) then
        (let w = fst (trySend (client_of h c) (ErrorMessage ''session_terminated'' ''Collaboration session has been terminated: Host has disconnected''))
         in if wc_UserID (client_of h c) \<noteq> u then disconnect_participant w else w)
      else client_of h c)"
  using assms by (simp_all add: handleHostDisconnection_def Let_def disconnect_fold termination_client)

lemma disconnect_participant_sel [simp]: "wc_closing (disconnect_participant w)" "wc_ConnClosed (disconnect_participant w)"
  by (simp_all add: disconnect_participant_def closeClientChannel_def)

text \<open>The host's \<open>Unregister\<close> ends in \<open>handleHostDisconnection\<close> on a hub that differs in the session's presenter, clients and clock.\<close>

lemma run_Unregister_host:
  assumes "c \<in> set (dg_Clients (session_of h s))" "distinct (dg_Clients (session_of h s))"
    and "SamePrincipal (client_user h c) (dg_Host (session_of h s))"
  obtains h2 where "run_Unregister env now h s c = run_exit (handleHostDisconnection now h2 s (wc_UserID (client_of h c))) s"
    "hub_clients h2 = (hub_clients h)(c := closeClientChannel (client_of h c))" "hub_Diagrams h2 = hub_Diagrams h"
    "distinct (dg_Clients (session_of h2 s))" "set (dg_Clients (session_of h2 s)) = set (dg_Clients (session_of h s)) - {c}"
    "dg_DiagramID (session_of h2 s) = dg_DiagramID (session_of h s)" "\<And>t. t \<noteq> s \<Longrightarrow> session_of h2 t = session_of h t"
proof
  let ?h1 = "upd_client c closeClientChannel
     (upd_session s (\<lambda>d. d\<lparr>dg_Clients := remove1 c (dg_Clients d), dg_LastActivity := now\<rparr>) h)"
  let ?h2 = "if is_presenter ?h1 s c then handlePresenterDisconnection env ?h1 s else ?h1"
  show "run_Unregister env now h s c = run_exit (handleHostDisconnection now ?h2 s (wc_UserID (client_of h c))) s"
    using assms by (simp add: run_Unregister_def Let_def)
  show "set (dg_Clients (session_of ?h2 s)) = set (dg_Clients (session_of h s)) - {c}" using assms(2) by simp
  show "session_of ?h2 t = session_of h t" if "t \<noteq> s" for t
    using that by (simp add: handlePresenterDisconnection_def Let_def)
qed (use assms(2) in simp_all)

text \<open>
  A session ends with its host: when the host's client unregisters, the session is terminated and
  has no clients, its loop has ended, the diagram has no session in the hub, and the channel and
  connection of every other participant (with another user id than the host's) are closed.
\<close>

theorem host_leaves:
  assumes "c \<in> set (dg_Clients (session_of h s))" "distinct (dg_Clients (session_of h s))"
    and "SamePrincipal (client_user h c) (dg_Host (session_of h s))"
  shows "let h' = run_Unregister env now h s c; d = session_of h' s in
    dg_State d = SessionStateTerminated \<and> dg_Clients d = [] \<and> \<not> dg_Running d \<and>
    GetSession h' (dg_DiagramID (session_of h s)) = None \<and>
    (\<forall>x \<in> set (dg_Clients (session_of h s)). wc_UserID (client_of h x) \<noteq> wc_UserID (client_of h c) \<longrightarrow>
       wc_closing (client_of h' x) \<and> wc_ConnClosed (client_of h' x))"
proof -
  obtain h2 where r: "run_Unregister env now h s c = run_exit (handleHostDisconnection now h2 s (wc_UserID (client_of h c))) s"
    and h2: "hub_clients h2 = (hub_clients h)(c := closeClientChannel (client_of h c))"
      "set (dg_Clients (session_of h2 s)) = set (dg_Clients (session_of h s)) - {c}"
      "dg_DiagramID (session_of h2 s) = dg_DiagramID (session_of h s)"
    and dist: "distinct (dg_Clients (session_of h2 s))"
    using run_Unregister_host [OF assms] by metis
  show ?thesis
    unfolding r Let_def by (auto simp: handleHostDisconnection_sel [OF dist] h2 GetSession_def delete_conv)
qed

theorem host_leaves_witness:
  "GetSession (run_Unregister demo_env 5 demo_pair 0 1) ''dg'' = None \<and> wc_ConnClosed (client_of (run_Unregister demo_env 5 demo_pair 0 1) 2)"
proof -
  have a: "1 \<in> set (dg_Clients (session_of demo_pair 0))" "distinct (dg_Clients (session_of demo_pair 0))"
    "SamePrincipal (client_user demo_pair 1) (dg_Host (session_of demo_pair 0))" by code_simp+
  have "dg_DiagramID (session_of demo_pair 0) = ''dg''" "2 \<in> set (dg_Clients (session_of demo_pair 0))"
    "wc_UserID (client_of demo_pair 2) \<noteq> wc_UserID (client_of demo_pair 1)" by code_simp+
  with host_leaves [OF a, of demo_env 5] show ?thesis by (simp add: Let_def)
qed

subsection \<open>Connecting\<close>

lemma map_of_AList_update: "map_of (AList.update k v m) = (map_of m)(k \<mapsto> v)"
  by (simp add: update_conv')

lemma GetOrCreateSession_registers:
  assumes "GetOrCreateSession h uuid now i tm host = (h1, s)"
  shows "GetSession h1 i = Some s" "hub_clients h1 = hub_clients h" "hub_next h \<le> hub_next h1"
    and "s \<noteq> hub_next h \<Longrightarrow> dg_Clients (session_of h1 t) = dg_Clients (session_of h t)"
  using assms
  by (auto simp: GetOrCreateSession_def alloc_session_def GetSession_def map_of_AList_update refresh_session_def Let_def
      split: option.splits)

text \<open>
  Who gets in: a connection reaches registration only for an authenticated user below five
  connections, into a session below fifty participants, with reader access to the threat model that
  contains the diagram; the session is active, is the hub's session of the diagram and the one asked
  for; the new client carries the caller's identity and is not registered yet.
\<close>

theorem HandleWS_admits:
  assumes "HandleWS uuid_parse env h ctx uuid now threatModelID diagramID sessionID = (h', Registering s c)"
  shows "\<exists>u tmid tm. ExtractUserInfo ctx = Inr u \<and> CountUserConnections h (ui_UserID u) < 5 \<and>
    CountSessionParticipants h diagramID < 50 \<and>
    uuid_parse threatModelID = Some tmid \<and> env_ThreatModel_Get env tmid = Inr tm \<and> diagramID \<in> set (tm_Diagrams tm) \<and>
    AccessCheckWithGroups (client_user h' c) [] RoleReader
      \<lparr>ad_Type = ''tmi-1.0'', ad_Owner = tm_Owner tm, ad_Authorization = derefAuthSlice (tm_Authorization tm)\<rparr> \<and>
    client_of h' c = new_client s u now \<and> hub_next h \<le> c \<and> wc_Session (client_of h' c) = s \<and>
    GetSession h' diagramID = Some s \<and> dg_State (session_of h' s) = SessionStateActive \<and>
    (sessionID = [] \<or> sessionID = dg_ID (session_of h' s))"
proof -
  from assms obtain u where u: "ExtractUserInfo ctx = Inr u" by (auto simp: HandleWS_def split: sum.splits if_splits)
  let ?ru = "\<lparr>ru_InternalUUID = ui_InternalUUID u, ru_Provider = ui_UserProvider u, ru_ProviderID = ui_UserID u,
     ru_Email = ui_UserEmail u, ru_DisplayName = ui_UserName u\<rparr>"
  obtain h1 s1 where g: "GetOrCreateSession h uuid now diagramID threatModelID ?ru = (h1, s1)" by fastforce
  from assms u g have
    caps: "CountUserConnections h (ui_UserID u) < 5" "CountSessionParticipants h diagramID < 50"
    and acc: "validateWebSocketDiagramAccessWithFlexibleMatching uuid_parse env u threatModelID diagramID"
    and st: "ValidateSessionState (session_of h1 s1)" "ValidateSessionID (session_of h1 s1) sessionID"
    and res: "s = s1" "c = hub_next h1"
      "h' = h1\<lparr>hub_clients := (hub_clients h1)(hub_next h1 := new_client s1 u now), hub_next := Suc (hub_next h1)\<rparr>"
    by (auto simp: HandleWS_def not_le split: if_splits)
  from acc obtain tmid tm where tm: "uuid_parse threatModelID = Some tmid" "env_ThreatModel_Get env tmid = Inr tm"
      "diagramID \<in> set (tm_Diagrams tm)"
      "AccessCheckWithGroups (empty_ResolvedUser\<lparr>ru_Provider := ui_UserProvider u, ru_ProviderID := ui_UserID u, ru_Email := ui_UserEmail u\<rparr>)
         [] RoleReader \<lparr>ad_Type = ''tmi-1.0'', ad_Owner = tm_Owner tm, ad_Authorization = derefAuthSlice (tm_Authorization tm)\<rparr>"
    by (auto simp: validateWebSocketDiagramAccessWithFlexibleMatching_def CheckResource_threat_model split: option.splits sum.splits if_splits)
  have "AccessCheckWithGroups (client_user h' c)
         [] RoleReader \<lparr>ad_Type = ''tmi-1.0'', ad_Owner = tm_Owner tm, ad_Authorization = derefAuthSlice (tm_Authorization tm)\<rparr>"
    by (rule iffD1 [OF access_by_provider_identity tm(4)]) (simp_all add: res ResolvedUserFromWebSocketClient_def new_client_def)
  with u caps tm res st GetOrCreateSession_registers [OF g] show ?thesis
    by (auto simp: ValidateSessionState_def ValidateSessionID_def new_client_def GetSession_def)
qed

definition demo_ctx :: gin_context where
  "demo_ctx = map_of [(''user_id'', CtxString ''alice''), (''userID'', CtxString ''alice''),
     (''userEmail'', CtxString ''alice@example.com''), (''userProvider'', CtxString ''google''), (''userInternalUUID'', CtxString ''u-1'')]"

definition demo_hub0 :: WebSocketHub where
  "demo_hub0 = NewWebSocketHub 300 (\<lambda>_. new_session [] 0 [] [] empty_ResolvedUser)
     (\<lambda>_. new_client 0 \<lparr>ui_UserID = [], ui_UserName = [], ui_UserEmail = [], ui_UserProvider = [], ui_InternalUUID = [], ui_TokenExpiry = None\<rparr> 0)"

definition demo_hub1 :: WebSocketHub where
  "demo_hub1 = fst (HandleWS Some demo_env demo_hub0 demo_ctx ''s-1'' 0 ''tm'' ''dg'' [])"

lemma demo_HandleWS: "HandleWS Some demo_env demo_hub0 demo_ctx ''s-1'' 0 ''tm'' ''dg'' [] = (demo_hub1, Registering 0 1)"
proof -
  have "snd (HandleWS Some demo_env demo_hub0 demo_ctx ''s-1'' 0 ''tm'' ''dg'' []) = Registering 0 1" by code_simp
  then show ?thesis by (simp add: demo_hub1_def prod_eq_iff)
qed

theorem HandleWS_admits_witness:
  "client_of demo_hub1 1 = new_client 0 (projr (ExtractUserInfo demo_ctx)) 0 \<and> GetSession demo_hub1 ''dg'' = Some 0"
  using HandleWS_admits [OF demo_HandleWS] by auto

subsection \<open>Sessions that outlive their entry\<close>

text \<open>
  The hub's entry is removed by diagram, not by session: when the host of a session that the hub
  has already replaced leaves, the replacement loses its entry although it is untouched. The witness
  reaches such a state: cleanup forgets an inactive session whose client is still connected, the user
  connects again, and the first connection is unregistered afterwards.
\<close>

theorem stale_session_evicts_successor:
  assumes "c \<in> set (dg_Clients (session_of h s))" "distinct (dg_Clients (session_of h s))"
    and "SamePrincipal (client_user h c) (dg_Host (session_of h s))"
    and "GetSession h (dg_DiagramID (session_of h s)) = Some t" "t \<noteq> s"
  shows "GetSession (run_Unregister env now h s c) (dg_DiagramID (session_of h s)) = None \<and>
    session_of (run_Unregister env now h s c) t = session_of h t"
proof -
  obtain h2 where r: "run_Unregister env now h s c = run_exit (handleHostDisconnection now h2 s (wc_UserID (client_of h c))) s"
    and h2: "dg_DiagramID (session_of h2 s) = dg_DiagramID (session_of h s)" "\<And>t. t \<noteq> s \<Longrightarrow> session_of h2 t = session_of h t"
    and dist: "distinct (dg_Clients (session_of h2 s))"
    using run_Unregister_host [OF assms(1-3)] by metis
  show ?thesis
    unfolding r using assms(5) by (simp add: handleHostDisconnection_sel [OF dist] h2 GetSession_def delete_conv)
qed

definition demo_replaced :: WebSocketHub where
  "demo_replaced =
    (let h2 = run_Register 0 (Inl (errors_New ''offline'')) demo_hub1 0 1;
         h3 = CleanupInactiveSessions 1000 h2;
         h4 = fst (HandleWS Some demo_env h3 demo_ctx ''s-2'' 1001 ''tm'' ''dg'' [])
     in run_Register 1002 (Inl (errors_New ''offline'')) h4 2 3)"

theorem stale_session_evicts_successor_witness:
  "GetSession demo_replaced ''dg'' = Some 2 \<and> GetSession (run_Unregister demo_env 1003 demo_replaced 0 1) ''dg'' = None \<and>
   dg_State (session_of (run_Unregister demo_env 1003 demo_replaced 0 1) 2) = SessionStateActive \<and>
   dg_Clients (session_of (run_Unregister demo_env 1003 demo_replaced 0 1) 2) = [3]"
proof -
  have a: "1 \<in> set (dg_Clients (session_of demo_replaced 0))" by code_simp
  have b: "distinct (dg_Clients (session_of demo_replaced 0))" by code_simp
  have c: "SamePrincipal (client_user demo_replaced 1) (dg_Host (session_of demo_replaced 0))" by code_simp
  have d: "GetSession demo_replaced (dg_DiagramID (session_of demo_replaced 0)) = Some 2" by code_simp
  have e: "dg_DiagramID (session_of demo_replaced 0) = ''dg''" by code_simp
  have f: "dg_State (session_of demo_replaced 2) = SessionStateActive" "dg_Clients (session_of demo_replaced 2) = [3]" by code_simp+
  show ?thesis
    using stale_session_evicts_successor [OF a b c d, where env = demo_env and now = 1003] d f unfolding e by simp
qed

lemma deliver_open:
  assumes "\<forall>c \<in> set cs. \<not> wc_closing (client_of h c)" "distinct cs" "distinct (dg_Clients (session_of h s))"
  shows "\<exists>h'. deliver msg cs h s = (h', False) \<and> hub_Diagrams h' = hub_Diagrams h \<and>
    session_of h' s = (session_of h s)\<lparr>dg_Clients :=
      filter (\<lambda>c. \<not> (c \<in> set cs \<and> length (wc_Send (client_of h c)) \<ge> 256)) (dg_Clients (session_of h s))\<rparr>"
  using assms
proof (induction cs arbitrary: h)
  case Nil
  then show ?case by simp
next
  case (Cons c cs)
  show ?case
  proof (cases "length (wc_Send (client_of h c)) < 256")
    case True
    have "\<forall>x \<in> set cs. client_of (sendToClient h c msg) x = client_of h x" using Cons.prems(2) by auto
    with Cons.IH [of "sendToClient h c msg"] Cons.prems True show ?thesis
      by (auto simp: intro!: filter_cong arg_cong [where f = "\<lambda>xs. (session_of h s)\<lparr>dg_Clients := xs\<rparr>"])
  next
    case False
    let ?h = "upd_session s (\<lambda>d. d\<lparr>dg_Clients := remove1 c (dg_Clients d)\<rparr>) (upd_client c closeClientChannel h)"
    have "\<forall>x \<in> set cs. client_of ?h x = client_of h x" using Cons.prems(2) by auto
    with Cons.IH [of ?h] Cons.prems False show ?thesis
      by (auto simp: distinct_remove1_removeAll removeAll_filter_not_eq filter_filter
          intro!: filter_cong arg_cong [where f = "\<lambda>xs. (session_of h s)\<lparr>dg_Clients := xs\<rparr>"])
  qed
qed

text \<open>
  A host that reads too slowly is dropped silently: a broadcast that finds the host's queue full
  takes the host's client out of the session, and the unregistration that follows when its connection
  ends does nothing, so the session stays active under an absent host and presenter.
\<close>

theorem slow_host_is_dropped:
  assumes "dg_Broadcast (session_of h s) = m # rest" "distinct (dg_Clients (session_of h s))"
    and "\<forall>x \<in> set (dg_Clients (session_of h s)). \<not> wc_closing (client_of h x)"
    and "c \<in> set (dg_Clients (session_of h s))" "length (wc_Send (client_of h c)) = 256"
    and "SamePrincipal (client_user h c) (dg_Host (session_of h s))"
  shows "let h' = run_Broadcast now h s; d = session_of h' s in
    c \<notin> set (dg_Clients d) \<and> dg_State d = dg_State (session_of h s) \<and> dg_Host d = dg_Host (session_of h s) \<and>
    dg_CurrentPresenter d = dg_CurrentPresenter (session_of h s) \<and> hub_Diagrams h' = hub_Diagrams h \<and>
    run_Unregister env later h' s c = h'"
proof -
  let ?h1 = "upd_session s (\<lambda>d. d\<lparr>dg_Broadcast := rest, dg_LastActivity := now\<rparr>) h"
  have cs: "dg_Clients (session_of ?h1 s) = dg_Clients (session_of h s)" by simp
  obtain h' where d: "deliver m (dg_Clients (session_of h s)) ?h1 s = (h', False)" "hub_Diagrams h' = hub_Diagrams h"
    "session_of h' s = (session_of ?h1 s)\<lparr>dg_Clients :=
      filter (\<lambda>x. \<not> (x \<in> set (dg_Clients (session_of h s)) \<and> length (wc_Send (client_of h x)) \<ge> 256)) (dg_Clients (session_of h s))\<rparr>"
    using deliver_open [where h = ?h1 and s = s and cs = "dg_Clients (session_of h s)" and msg = m] assms(2,3) cs by auto
  have "run_Broadcast now h s = h'" using assms(1) d(1) by (simp add: run_Broadcast_def)
  with d assms(4,5) show ?thesis by (simp add: Let_def run_Unregister_def)
qed

definition demo_slow :: WebSocketHub where
  "demo_slow = upd_session 0 (\<lambda>d. d\<lparr>dg_Broadcast := [SyncStatusResponseMessage 0]\<rparr>)
     (upd_client 1 (\<lambda>w. w\<lparr>wc_Send := replicate 256 (SyncStatusResponseMessage 0)\<rparr>) demo_pair)"

theorem slow_host_is_dropped_witness:
  "1 \<notin> set (dg_Clients (session_of (run_Broadcast 9 demo_slow 0) 0)) \<and>
   run_Unregister demo_env 10 (run_Broadcast 9 demo_slow 0) 0 1 = run_Broadcast 9 demo_slow 0"
proof -
  have a: "dg_Broadcast (session_of demo_slow 0) = SyncStatusResponseMessage 0 # []" "distinct (dg_Clients (session_of demo_slow 0))"
    "\<forall>x \<in> set (dg_Clients (session_of demo_slow 0)). \<not> wc_closing (client_of demo_slow x)"
    "1 \<in> set (dg_Clients (session_of demo_slow 0))" "length (wc_Send (client_of demo_slow 1)) = 256"
    by (simp_all add: demo_slow_def demo_pair_def demo_client_def)
  have b: "SamePrincipal (client_user demo_slow 1) (dg_Host (session_of demo_slow 0))"
    by (simp add: demo_slow_def demo_pair_def demo_client_def ResolvedUserFromWebSocketClient_def SamePrincipal_def)
  show ?thesis using slow_host_is_dropped [OF a b, of 9 demo_env 10] by (simp add: Let_def)
qed

end
