(* ===== verification/Diagram_Handler.thy ===== *)
theory Diagram_Handler
  imports Collab_Hub
begin

text \<open>
  Diagram operations over a session (\<open>api/websocket_diagram_handler.go\<close>, \<open>api/websocket.go\<close>): the
  operation request, undo, redo and the sync requests, and the router that dispatches messages
  (\<open>api/websocket_handlers.go\<close>, \<open>api/websocket_presenter_handlers.go\<close>,
  \<open>api/websocket_session_handlers.go\<close>). The state is the hub together with the diagram store; \<open>ord\<close> is
  the order in which a map of cells is ranged over. A handler is one step: the messages of different
  clients are handled concurrently in the code, so what is shown here holds for handlers that do not
  overlap. A recovered panic (a session without history) leaves the state as it is.
\<close>

subsection \<open>Rejections\<close>

text \<open>\<open>%v\<close> of a slice of strings.\<close>

fun join_space :: "string list \<Rightarrow> string" where
  "join_space [] = []"
| "join_space [x] = x"
| "join_space (x # y # xs) = x @ '' '' @ join_space (y # xs)"

definition fmt_strings :: "string list \<Rightarrow> string" where
  "fmt_strings xs = ''['' @ join_space xs @ '']''"

definition buildRejectionResponse ::
  "OperationValidationResult \<Rightarrow> string \<Rightarrow> string \<times> string \<times> string option \<times> bool" where
  "buildRejectionResponse r operationType =
    (if \<not> ov_Valid r then
       (let reason = ov_Reason r;
            (message, details, resync) =
              (if reason = ''conflict_detected'' then
                 (''Operation conflicts with current diagram state for cells: '' @ fmt_strings (ov_CellsModified r), None, True)
               else if reason = ''invalid_operation_type'' then
                 (''Invalid operation type'', Some (''Operation type must be '' @ squote ''patch'' @ '', got: '' @ operationType), False)
               else if reason = ''empty_operation'' then (''Operation contains no cell operations'', None, False)
               else if reason = ''validation_failed'' \<and> ov_CellsModified r \<noteq> [] then
                 (''Cell validation failed for: '' @ fmt_strings (ov_CellsModified r), None, False)
               else (''Operation validation failed: '' @ reason, None, False))
        in (reason, message, details, resync \<or> ov_ConflictDetected r))
     else if \<not> ov_StateChanged r then
       (''no_state_change'', ''Operation resulted in no state changes (idempotent or no-op)'', None, False)
     else ([], [], None, False))"

definition current_vector :: "'s DiagramStoreInterface \<Rightarrow> 's \<Rightarrow> string \<Rightarrow> int64" where
  "current_vector st db i = (case ds_Get st db i of Inl e \<Rightarrow> 0 | Inr d \<Rightarrow> vector_of d)"

definition sendOperationRejected ::
  "'s DiagramStoreInterface \<Rightarrow> 's \<Rightarrow> WebSocketHub \<Rightarrow> nat \<Rightarrow> nat \<Rightarrow> string \<Rightarrow> uint64 \<Rightarrow> string \<Rightarrow> string \<Rightarrow> string option \<Rightarrow>
   string list \<Rightarrow> bool \<Rightarrow> WebSocketHub" where
  "sendOperationRejected st db h s c operationID sequenceNumber reason message details affectedCells requiresResync =
     sendToClient h c (OperationRejected \<lparr>rj_OperationID = operationID, rj_SequenceNumber = Some sequenceNumber,
       rj_UpdateVector = current_vector st db (dg_DiagramID (session_of h s)), rj_Reason = reason, rj_Message = message,
       rj_Details = details, rj_AffectedCells = affectedCells, rj_RequiresResync = requiresResync\<rparr>)"

definition addToHistory :: "time \<Rightarrow> WebSocketHub \<Rightarrow> nat \<Rightarrow> DiagramOperationEvent \<Rightarrow> string \<Rightarrow> cell_map \<Rightarrow> WebSocketHub" where
  "addToHistory now h s event userID previousState =
     upd_session s (\<lambda>d. d\<lparr>dg_OperationHistory := map_option (\<lambda>oh. AddOperation oh
       \<lparr>he_SequenceNumber = (case ev_SequenceNumber event of Some n \<Rightarrow> n | None \<Rightarrow> 0), he_OperationID = ev_OperationID event,
        he_UserID = userID, he_Timestamp = now, he_Operation = ev_Operation event, he_PreviousState = previousState\<rparr>)
       (dg_OperationHistory d)\<rparr>) h"

subsection \<open>The operation request\<close>

definition cached_cells :: "DiagramSession \<Rightarrow> cell_map" where
  "cached_cells d = (case dg_OperationHistory d of Some oh \<Rightarrow> oh_CurrentState oh | None \<Rightarrow> [])"

definition init_CurrentState :: "cell_map \<Rightarrow> DiagramSession \<Rightarrow> DiagramSession" where
  "init_CurrentState m d = d\<lparr>dg_OperationHistory := map_option (\<lambda>oh. oh\<lparr>oh_CurrentState :=
     foldl (\<lambda>cs (k, v). AList.update k v cs) (oh_CurrentState oh) m\<rparr>) (dg_OperationHistory d)\<rparr>"

text \<open>
  The cells the request is checked against, and the diagram to work on: the session's cache when it has
  one, otherwise the stored diagram, which then fills the cache.
\<close>

definition load_state :: "(cell_map \<Rightarrow> cell_map) \<Rightarrow> DiagramSession \<Rightarrow> DfdDiagram \<Rightarrow> DiagramSession \<times> DfdDiagram \<times> cell_map" where
  "load_state ord d stored =
    (let cached = cached_cells d in
     if cached \<noteq> [] then (d, stored\<lparr>df_Cells := map snd (ord cached)\<rparr>, cached)
     else let currentState = buildCellStateMap (df_Cells stored) in (init_CurrentState currentState d, stored, currentState))"

text \<open>The second half of the handler: apply the operation, then save, record and broadcast, or reject.\<close>

definition run_operation ::
  "'s DiagramStoreInterface \<Rightarrow> time \<Rightarrow> WebSocketHub \<times> 's \<Rightarrow> nat \<Rightarrow> nat \<Rightarrow> DiagramOperationRequest \<Rightarrow> uint64 \<Rightarrow> DfdDiagram \<Rightarrow> cell_map \<Rightarrow>
   (WebSocketHub \<times> 's) \<times> go_error option" where
  "run_operation st now w s c req sequenceNumber diagram currentState =
    (case w of (h, db) \<Rightarrow>
     let i = dg_DiagramID (session_of h s);
         ((db1, cells), result) = session_processAndValidateCellOperations st now i db (df_Cells diagram) currentState (rq_Operation req)
     in if ov_Valid result \<and> ov_StateChanged result then
          (case ds_Update st db1 i (diagram\<lparr>df_Cells := cells\<rparr>) of
             (db2, Some e) \<Rightarrow>
               ((sendOperationRejected st db2 h s c (rq_OperationID req) sequenceNumber ''save_failed''
                   ''Failed to persist diagram changes'' None [] True, db2),
                Some (errorf_wrap ''failed to save diagram: '' e))
           | (db2, None) \<Rightarrow>
             (let event = \<lparr>ev_InitiatingUser = toUser (client_of h c), ev_OperationID = rq_OperationID req,
                           ev_SequenceNumber = Some sequenceNumber, ev_UpdateVector = vector_of diagram,
                           ev_Operation = rq_Operation req\<rparr>;
                  h1 = addToHistory now h s event (wc_UserID (client_of h c)) (ov_PreviousState result)
              in ((broadcastToOthers h1 s c (OperationEvent event), db2), None)))
        else
          (let (reason, msg, details, resync) = buildRejectionResponse result (cp_Type (rq_Operation req))
           in ((sendOperationRejected st db1 h s c (rq_OperationID req) sequenceNumber reason msg details
                  (ov_CellsModified result) resync, db1), None)))"

definition handle_DiagramOperationRequest ::
  "ws_env \<Rightarrow> 's DiagramStoreInterface \<Rightarrow> (cell_map \<Rightarrow> cell_map) \<Rightarrow> time \<Rightarrow> WebSocketHub \<times> 's \<Rightarrow> nat \<Rightarrow> nat \<Rightarrow> raw_message \<Rightarrow>
   (WebSocketHub \<times> 's) \<times> go_error option" where
  "handle_DiagramOperationRequest env st ord now w s c message =
    (case w of (h, db) \<Rightarrow>
     if \<not> checkMutationPermission env h s c then ((sendAuthorizationDenied h c [] ''insufficient_permissions'', db), None)
     else case rm_DiagramOperation message of
       None \<Rightarrow> ((h, db), Some (errors_New ''json''))
     | Some req \<Rightarrow>
       (let sequenceNumber = dg_NextSequenceNumber (session_of h s);
            h1 = upd_session s (\<lambda>d. d\<lparr>dg_NextSequenceNumber := sequenceNumber + 1\<rparr>) h
        in case ds_Get st db (dg_DiagramID (session_of h1 s)) of
             Inl e \<Rightarrow> ((sendOperationRejected st db h1 s c (rq_OperationID req) sequenceNumber ''diagram_not_found''
                          ''Target diagram could not be retrieved'' None [] True, db), Some e)
           | Inr stored \<Rightarrow>
             (let (d2, diagram, currentState) = load_state ord (session_of h1 s) stored
              in run_operation st now (upd_session s (\<lambda>d. d2) h1, db) s c req sequenceNumber diagram currentState)))"

subsection \<open>Sync, undo, redo\<close>

definition processSyncStatusRequest :: "'s DiagramStoreInterface \<Rightarrow> WebSocketHub \<times> 's \<Rightarrow> nat \<Rightarrow> nat \<Rightarrow> WebSocketHub" where
  "processSyncStatusRequest st w s c =
    (case w of (h, db) \<Rightarrow> sendToClient h c (SyncStatusResponseMessage (current_vector st db (dg_DiagramID (session_of h s)))))"

text \<open>The full state goes out by a plain send: on a closed channel it panics and is recovered, which leaves the client as \<open>trySend\<close> does.\<close>

definition processSyncRequest :: "'s DiagramStoreInterface \<Rightarrow> WebSocketHub \<times> 's \<Rightarrow> nat \<Rightarrow> nat \<Rightarrow> raw_message \<Rightarrow> WebSocketHub" where
  "processSyncRequest st w s c message =
    (case w of (h, db) \<Rightarrow>
     case rm_SyncRequest message of
       None \<Rightarrow> h
     | Some vector \<Rightarrow>
       (case ds_Get st db (dg_DiagramID (session_of h s)) of
          Inl e \<Rightarrow> h
        | Inr diagram \<Rightarrow>
          if vector = Some (vector_of diagram) then sendToClient h c (SyncStatusResponseMessage (vector_of diagram))
          else sendToClient h c (DiagramStateMessage (dg_DiagramID (session_of h s)) (vector_of diagram) (df_Cells diagram)
                                   (df_ColorPalette diagram))))"

definition applyHistoryState ::
  "'s DiagramStoreInterface \<Rightarrow> (cell_map \<Rightarrow> cell_map) \<Rightarrow> time \<Rightarrow> 's \<Rightarrow> string \<Rightarrow> cell_map \<Rightarrow> 's \<times> go_error option" where
  "applyHistoryState st ord now db i state =
    (case UpdateDiagramCells st now db i (map snd (ord state)) of
       (db', Inl e) \<Rightarrow> (db', Some (errorf_wrap ''failed to update diagram via centralized function: '' e))
     | (db', Inr r) \<Rightarrow> (db', None))"

definition applyHistoryOperation ::
  "text_lib \<Rightarrow> 's DiagramStoreInterface \<Rightarrow> 's \<Rightarrow> string \<Rightarrow> CellPatchOperation \<Rightarrow> 's \<times> go_error option" where
  "applyHistoryOperation lib st db i operation =
    (case ProcessCellOperations lib st db i operation of
       (db', _, Some e) \<Rightarrow> (db', Some (errorf_wrap ''failed to process operation: '' e))
     | (db', Some result, None) \<Rightarrow>
         (db', if \<not> ov_Valid result then Some (errors_New (''operation invalid: '' @ ov_Reason result)) else None)
     | (db', None, None) \<Rightarrow> (db', None))"

definition history_message :: "WebSocketHub \<Rightarrow> nat \<Rightarrow> string \<Rightarrow> string \<Rightarrow> WebSocketHub" where
  "history_message h c operationType message = sendToClient h c (HistoryOperationMessage operationType message)"

text \<open>The tail undo and redo share: move the cursor and tell everyone.\<close>

definition finish_history ::
  "'s DiagramStoreInterface \<Rightarrow> 's \<Rightarrow> WebSocketHub \<Rightarrow> nat \<Rightarrow> nat \<Rightarrow> HistoryEntry \<Rightarrow> uint64 \<Rightarrow> WebSocketHub" where
  "finish_history st db h s c entry newPosition =
    (let h1 = upd_session s (\<lambda>d. d\<lparr>dg_OperationHistory := map_option (\<lambda>oh. MoveToPosition oh newPosition) (dg_OperationHistory d)\<rparr>) h
     in broadcastToAllClients h1 s (OperationEvent \<lparr>ev_InitiatingUser = toUser (client_of h1 c), ev_OperationID = he_OperationID entry,
          ev_SequenceNumber = Some (he_SequenceNumber entry),
          ev_UpdateVector = current_vector st db (dg_DiagramID (session_of h1 s)), ev_Operation = he_Operation entry\<rparr>))"

definition processUndoRequest ::
  "ws_env \<Rightarrow> 's DiagramStoreInterface \<Rightarrow> (cell_map \<Rightarrow> cell_map) \<Rightarrow> time \<Rightarrow> WebSocketHub \<times> 's \<Rightarrow> nat \<Rightarrow> nat \<Rightarrow> raw_message \<Rightarrow>
   WebSocketHub \<times> 's" where
  "processUndoRequest env st ord now w s c message =
    (case w of (h, db) \<Rightarrow>
     if \<not> rm_UndoRequest message then (h, db)
     else if \<not> checkMutationPermission env h s c then (sendAuthorizationDenied h c [] ''insufficient_permissions'', db)
     else case dg_OperationHistory (session_of h s) of
       None \<Rightarrow> (h, db)
     | Some oh \<Rightarrow>
       if \<not> CanUndo oh then (history_message h c ''undo'' ''no_operations_to_undo'', db)
       else case GetUndoOperation oh of
         None \<Rightarrow> (history_message h c ''undo'' ''resync_required'', db)
       | Some (entry, previousState) \<Rightarrow>
         (case applyHistoryState st ord now db (dg_DiagramID (session_of h s)) previousState of
            (db', Some e) \<Rightarrow> (history_message h c ''undo'' ''resync_required'', db')
          | (db', None) \<Rightarrow> (finish_history st db' h s c entry (he_SequenceNumber entry - 1), db')))"

definition processRedoRequest ::
  "ws_env \<Rightarrow> text_lib \<Rightarrow> 's DiagramStoreInterface \<Rightarrow> WebSocketHub \<times> 's \<Rightarrow> nat \<Rightarrow> nat \<Rightarrow> raw_message \<Rightarrow> WebSocketHub \<times> 's" where
  "processRedoRequest env lib st w s c message =
    (case w of (h, db) \<Rightarrow>
     if \<not> rm_RedoRequest message then (h, db)
     else if \<not> checkMutationPermission env h s c then (sendAuthorizationDenied h c [] ''insufficient_permissions'', db)
     else case dg_OperationHistory (session_of h s) of
       None \<Rightarrow> (h, db)
     | Some oh \<Rightarrow>
       if \<not> CanRedo oh then (history_message h c ''redo'' ''no_operations_to_redo'', db)
       else case GetRedoOperation oh of
         None \<Rightarrow> (history_message h c ''redo'' ''resync_required'', db)
       | Some entry \<Rightarrow>
         (case applyHistoryOperation lib st db (dg_DiagramID (session_of h s)) (he_Operation entry) of
            (db', Some e) \<Rightarrow> (history_message h c ''redo'' ''resync_required'', db')
          | (db', None) \<Rightarrow> (finish_history st db' h s c entry (he_SequenceNumber entry), db')))"

subsection \<open>The router\<close>

datatype MessageHandler =
    DiagramOperationRequestHandler | PresenterRequestHandler | ChangePresenterRequestHandler
  | RemoveParticipantRequestHandler | PresenterDeniedRequestHandler | PresenterCursorHandler | PresenterSelectionHandler
  | SyncStatusRequestHandler | SyncRequestHandler | UndoRequestHandler | RedoRequestHandler

fun MessageType :: "MessageHandler \<Rightarrow> string" where
  "MessageType DiagramOperationRequestHandler = ''diagram_operation_request''"
| "MessageType PresenterRequestHandler = ''presenter_request''"
| "MessageType ChangePresenterRequestHandler = ''change_presenter_request''"
| "MessageType RemoveParticipantRequestHandler = ''remove_participant_request''"
| "MessageType PresenterDeniedRequestHandler = ''presenter_denied_request''"
| "MessageType PresenterCursorHandler = ''presenter_cursor''"
| "MessageType PresenterSelectionHandler = ''presenter_selection''"
| "MessageType SyncStatusRequestHandler = ''sync_status_request''"
| "MessageType SyncRequestHandler = ''sync_request''"
| "MessageType UndoRequestHandler = ''undo_request''"
| "MessageType RedoRequestHandler = ''redo_request''"

definition RegisterHandler :: "(string \<times> MessageHandler) list \<Rightarrow> MessageHandler \<Rightarrow> (string \<times> MessageHandler) list" where
  "RegisterHandler r handler = AList.update (MessageType handler) handler r"

definition NewMessageRouter :: "(string \<times> MessageHandler) list" where
  "NewMessageRouter = foldl RegisterHandler [] [DiagramOperationRequestHandler, PresenterRequestHandler,
     ChangePresenterRequestHandler, RemoveParticipantRequestHandler, PresenterDeniedRequestHandler, PresenterCursorHandler,
     PresenterSelectionHandler, SyncStatusRequestHandler, SyncRequestHandler, UndoRequestHandler, RedoRequestHandler]"

text \<open>What the handlers share: the sanitiser, the stores, the map order and the clock.\<close>

record 's ws_deps =
  dep_env :: ws_env
  dep_lib :: text_lib
  dep_store :: "'s DiagramStoreInterface"
  dep_ord :: "cell_map \<Rightarrow> cell_map"
  dep_now :: time

definition HandleMessage ::
  "'s ws_deps \<Rightarrow> MessageHandler \<Rightarrow> WebSocketHub \<times> 's \<Rightarrow> nat \<Rightarrow> nat \<Rightarrow> raw_message \<Rightarrow> (WebSocketHub \<times> 's) \<times> go_error option" where
  "HandleMessage dep handler w s c message =
    (case w of (h, db) \<Rightarrow>
     case handler of
       DiagramOperationRequestHandler \<Rightarrow>
         handle_DiagramOperationRequest (dep_env dep) (dep_store dep) (dep_ord dep) (dep_now dep) w s c message
     | PresenterRequestHandler \<Rightarrow> ((processPresenterRequest h s c message, db), None)
     | ChangePresenterRequestHandler \<Rightarrow> ((processChangePresenter h s c message, db), None)
     | RemoveParticipantRequestHandler \<Rightarrow> ((processRemoveParticipant h s c message, db), None)
     | PresenterDeniedRequestHandler \<Rightarrow> ((processPresenterDenied h s c message, db), None)
     | PresenterCursorHandler \<Rightarrow> ((processPresenterCursor h s c message, db), None)
     | PresenterSelectionHandler \<Rightarrow> ((processPresenterSelection h s c message, db), None)
     | SyncStatusRequestHandler \<Rightarrow> ((processSyncStatusRequest (dep_store dep) w s c, db), None)
     | SyncRequestHandler \<Rightarrow> ((processSyncRequest (dep_store dep) w s c message, db), None)
     | UndoRequestHandler \<Rightarrow>
         (processUndoRequest (dep_env dep) (dep_store dep) (dep_ord dep) (dep_now dep) w s c message, None)
     | RedoRequestHandler \<Rightarrow> (processRedoRequest (dep_env dep) (dep_lib dep) (dep_store dep) w s c message, None))"

definition server_only :: "string list" where
  "server_only = [''participants_update'', ''diagram_operation_event'', ''presenter_denied_event'', ''presenter_request_event'',
     ''authorization_denied'', ''state_correction'', ''diagram_state_sync'', ''resync_response'', ''error'', ''operation_rejected'']"

definition RouteMessage ::
  "'s ws_deps \<Rightarrow> (string \<times> MessageHandler) list \<Rightarrow> WebSocketHub \<times> 's \<Rightarrow> nat \<Rightarrow> nat \<Rightarrow> raw_message \<Rightarrow>
   (WebSocketHub \<times> 's) \<times> go_error option" where
  "RouteMessage dep r w s c message =
    (case w of (h, db) \<Rightarrow>
     case rm_MessageType message of
       None \<Rightarrow> ((h, db), Some (errors_New ''json''))
     | Some ty \<Rightarrow>
       if ty \<in> set server_only then
         ((sendErrorMessage h c ''invalid_message_type''
             (''Message type '' @ squote ty @ '' is server-only and cannot be sent by clients''), db), None)
       else case map_of r ty of
         None \<Rightarrow> ((sendErrorMessage h c ''unsupported_message_type'' (''Message type '' @ squote ty @ '' is not supported''), db), None)
       | Some handler \<Rightarrow> HandleMessage dep handler (h, db) s c message)"

definition ProcessMessage :: "'s ws_deps \<Rightarrow> WebSocketHub \<times> 's \<Rightarrow> nat \<Rightarrow> nat \<Rightarrow> raw_message \<Rightarrow> WebSocketHub \<times> 's" where
  "ProcessMessage dep w s c message = fst (RouteMessage dep NewMessageRouter w s c message)"

subsection \<open>What a message can do\<close>

lemma load_state_session:
  "load_state ord d stored = (d2, diagram, cur) \<Longrightarrow> control d2 = control d \<and> dg_Clients d2 = dg_Clients d"
  by (auto simp: load_state_def init_CurrentState_def control_def Let_def split: if_splits)

lemma quiet_run: "quiet (fst w) (fst (fst (run_operation st now w s c req seq diagram cur)))"
  by (simp add: run_operation_def Let_def sendOperationRejected_def addToHistory_def control_def quiet_def
      split: option.split prod.split)

lemma quiet_trans: "quiet h1 h2 \<Longrightarrow> quiet h2 h3 \<Longrightarrow> quiet h1 h3"
  by (simp add: quiet_def)

lemma quiet_load:
  assumes "load_state ord (session_of (upd_session s (\<lambda>d. d\<lparr>dg_NextSequenceNumber := n\<rparr>) h) s) stored = (d2, diagram, cur)"
  shows "quiet h (upd_session s (\<lambda>d. d2) (upd_session s (\<lambda>d. d\<lparr>dg_NextSequenceNumber := n\<rparr>) h))"
  using load_state_session [OF assms] by (simp add: quiet_def control_def)

lemma quiet_operation: "quiet (fst w) (fst (fst (handle_DiagramOperationRequest env st ord now w s c m)))"
proof -
  obtain h db where w: "w = (h, db)" by fastforce
  have 1: "quiet h (sendAuthorizationDenied h c x y)" for x y by (simp add: quiet_def sendAuthorizationDenied_def)
  have 2: "quiet h h" by (simp add: quiet_def)
  have 3: "quiet h (sendOperationRejected st db (upd_session s (\<lambda>d. d\<lparr>dg_NextSequenceNumber := n\<rparr>) h) s c i q x y z as f)" for n i q x y z as f
    by (simp add: quiet_def control_def sendOperationRejected_def)
  show ?thesis
    unfolding w handle_DiagramOperationRequest_def Let_def
    using 1 2 3 quiet_trans [OF quiet_load quiet_run [of "(_, db)", simplified]]
    by (auto split: option.split sum.split prod.split)
qed

lemma quiet_history:
  "quiet (fst w) (fst (processUndoRequest env st ord now w s c m))" "quiet (fst w) (fst (processRedoRequest env lib st w s c m))"
  by (simp_all add: processUndoRequest_def processRedoRequest_def sendAuthorizationDenied_def history_message_def finish_history_def
      quiet_def Let_def control_def split: option.split sum.split prod.split)

lemma quiet_sync: "quiet (fst w) (processSyncStatusRequest st w s c)" "quiet (fst w) (processSyncRequest st w s c m)"
  by (simp_all add: processSyncStatusRequest_def processSyncRequest_def quiet_def split: option.split sum.split prod.split)

lemmas quiet_handlers = quiet_operation quiet_history quiet_sync

lemma HandleMessage_harmless:
  assumes "\<not> SamePrincipal (client_user h c) (dg_Host (session_of h s))"
  shows "harmless h s c (fst (fst (HandleMessage dep handler (h, db) s c m)))"
  using nonhost_handlers [OF assms] cursor_handlers quiet_handlers [where w = "(h, db)", THEN quiet_harmless]
  by (cases handler) (simp_all add: HandleMessage_def)

text \<open>
  C8. Only the host steers: whatever message a client that is not the host sends, every session keeps
  its host, presenter, deny list, state and threat model, the hub keeps its sessions, and no client
  other than the sender leaves a session.
\<close>

theorem only_host_steers:
  assumes "\<not> SamePrincipal (client_user h c) (dg_Host (session_of h s))"
    and "ProcessMessage dep (h, db) s c m = (h', db')"
  shows "hub_Diagrams h' = hub_Diagrams h \<and>
    dg_Host (session_of h' t) = dg_Host (session_of h t) \<and>
    dg_CurrentPresenter (session_of h' t) = dg_CurrentPresenter (session_of h t) \<and>
    dg_DeniedUsers (session_of h' t) = dg_DeniedUsers (session_of h t) \<and>
    dg_State (session_of h' t) = dg_State (session_of h t) \<and>
    dg_ThreatModelID (session_of h' t) = dg_ThreatModelID (session_of h t) \<and>
    (dg_Clients (session_of h' t) = dg_Clients (session_of h t) \<or>
     t = s \<and> dg_Clients (session_of h' t) = remove1 c (dg_Clients (session_of h t)))"
proof -
  have "harmless h s c (fst (ProcessMessage dep (h, db) s c m))"
    using HandleMessage_harmless [OF assms(1), where dep = dep and db = db] by (simp add: ProcessMessage_def RouteMessage_def split: option.split)
  with assms(2) show ?thesis by (simp add: harmless_def control_def)
qed

definition demo_deps :: "diagram_db ws_deps" where
  "demo_deps = \<lparr>dep_env = demo_env, dep_lib = demo_lib, dep_store = GormDiagramStore False, dep_ord = (\<lambda>m. m), dep_now = 1\<rparr>"

theorem only_host_steers_witness:
  "dg_CurrentPresenter (session_of (fst (ProcessMessage demo_deps (demo_pair, demo_ddb) 0 2
      (no_message\<lparr>rm_MessageType := Some ''presenter_request'', rm_PresenterRequest := True\<rparr>))) 0) =
   dg_CurrentPresenter (session_of demo_pair 0)"
proof -
  have n: "\<not> SamePrincipal (client_user demo_pair 2) (dg_Host (session_of demo_pair 0))" by code_simp
  show ?thesis by (rule only_host_steers [OF n prod.collapse [symmetric], THEN conjunct2, THEN conjunct2, THEN conjunct1])
qed

text \<open>
  C9. Readers cannot edit: whatever message a client without write access to the threat model sends,
  the stored diagrams and every session's history and sequence counter stay as they are.
\<close>

theorem readers_cannot_edit:
  assumes "\<not> checkMutationPermission env h s c"
    and "ProcessMessage (dep\<lparr>dep_env := env\<rparr>) (h, db) s c m = (h', db')"
  shows "db' = db \<and> dg_OperationHistory (session_of h' t) = dg_OperationHistory (session_of h t) \<and>
    dg_NextSequenceNumber (session_of h' t) = dg_NextSequenceNumber (session_of h t)"
proof -
  have "snd (fst (HandleMessage (dep\<lparr>dep_env := env\<rparr>) handler (h, db) s c m)) = db \<and>
      same_history h (fst (fst (HandleMessage (dep\<lparr>dep_env := env\<rparr>) handler (h, db) s c m)))" for handler
    using assms(1)
    by (cases handler) (simp_all add: HandleMessage_def handle_DiagramOperationRequest_def processUndoRequest_def processRedoRequest_def
        presenter_handlers_history, simp_all add: same_history_def sendAuthorizationDenied_def processSyncStatusRequest_def
        processSyncRequest_def split: option.split sum.split)
  then have "snd (ProcessMessage (dep\<lparr>dep_env := env\<rparr>) (h, db) s c m) = db \<and>
      same_history h (fst (ProcessMessage (dep\<lparr>dep_env := env\<rparr>) (h, db) s c m))"
    by (simp add: ProcessMessage_def RouteMessage_def sendErrorMessage_def same_history_def split: option.split)
  with assms(2) show ?thesis by (simp add: same_history_def)
qed

theorem readers_cannot_edit_witness:
  "snd (ProcessMessage (demo_deps\<lparr>dep_env := demo_env\<rparr>) (demo_pair, demo_ddb) 0 2
     (no_message\<lparr>rm_MessageType := Some ''undo_request'', rm_UndoRequest := True\<rparr>)) = demo_ddb"
proof -
  have n: "\<not> checkMutationPermission demo_env demo_pair 0 2" by code_simp
  show ?thesis by (rule readers_cannot_edit [OF n prod.collapse [symmetric], THEN conjunct1])
qed

text \<open>
  Editing does not keep a session alive: however many diagram operations its clients send, a session
  whose last registration, departure or participant broadcast lies further back than the timeout is
  removed by the next cleanup.
\<close>

theorem edits_do_not_keep_alive:
  assumes "GetSession h i = Some s" "distinct (map fst (hub_Diagrams h))"
    and "dg_LastActivity (session_of h s) < now - hub_InactivityTimeout h"
  shows "GetSession (CleanupInactiveSessions now (fst (foldl (\<lambda>w (ord, t, c, m). fst (handle_DiagramOperationRequest env st ord t w s c m))
     (h, db) requests))) i = None"
proof -
  let ?step = "\<lambda>w (ord, t, c, m). fst (handle_DiagramOperationRequest env st ord t w s c m)"
  have "quiet (fst w) (fst (foldl ?step w requests))" for w
  proof (induction requests arbitrary: w)
    case Nil
    then show ?case by (simp add: quiet_def)
  next
    case (Cons r rs)
    obtain ord t c m where r: "r = (ord, t, c, m)" by (cases r)
    show ?case unfolding foldl_Cons r prod.case by (rule quiet_trans [OF quiet_operation Cons.IH])
  qed
  then have q: "quiet h (fst (foldl ?step (h, db) requests))" (is "quiet h ?h") by (metis fst_conv)
  have "stale_session now ?h (session_of ?h s)"
    using q assms(3) by (simp add: quiet_def control_def stale_session_def)
  moreover have "map_of (hub_Diagrams ?h) i = Some s" using q assms(1) by (simp add: quiet_def GetSession_def)
  moreover have "distinct (map fst (hub_Diagrams ?h))" using q assms(2) by (simp add: quiet_def)
  ultimately show ?thesis
    unfolding GetSession_def CleanupInactiveSessions_def
    using cleanup_fold [of now ?h "hub_Diagrams ?h"]
    by (auto simp: map_of_eq_None_iff dest: map_of_SomeD)
qed

theorem edits_do_not_keep_alive_witness:
  "GetSession (CleanupInactiveSessions 301 (fst (foldl (\<lambda>w (ord, t, c, m). fst (handle_DiagramOperationRequest demo_env (GormDiagramStore False) ord t w 0 c m))
     (demo_pair, demo_ddb) [(\<lambda>m. m, 299, 1, no_message), (\<lambda>m. m, 300, 1, no_message)]))) ''dg'' = None"
proof -
  have "GetSession demo_pair ''dg'' = Some 0" "distinct (map fst (hub_Diagrams demo_pair))"
    "dg_LastActivity (session_of demo_pair 0) < 301 - hub_InactivityTimeout demo_pair" by (simp_all add: demo_pair_def GetSession_def)
  then show ?thesis by (rule edits_do_not_keep_alive)
qed

text \<open>
  C36. A rejected patch can be half applied: when the first of two operations adds a cell and can be
  saved, and the second updates a cell that does not exist, the request is refused although the first
  operation is already in the database.
\<close>

theorem rejected_patch_is_half_applied:
  assumes "co_Operation a = ''add''" "co_Data a = Some x" "map_of cur (co_ID a) = None"
    and "co_Operation b = ''update''" "map_of cur (co_ID b) = None" "co_ID a \<noteq> co_ID b"
    and save: "UpdateDiagramCells (GormDiagramStore ora) now db i (cells @ [x]) = (db1, Inr u)"
    and run: "session_processAndValidateCellOperations (GormDiagramStore ora) now i db cells cur \<lparr>cp_Type = ''patch'', cp_Cells = [a, b]\<rparr> =
      ((db', cells'), r)"
  shows "\<not> ov_Valid r \<and> ov_Reason r = ''update_nonexistent_cell'' \<and>
    (\<exists>d. Gorm_Get ora db' i = Inr d \<and> df_Cells d = cells @ [x])"
proof -
  have dd: "deduplicateCellOperations [a, b] = [a, b]" using assms(6) by (simp add: deduplicateCellOperations_def)
  have 1: "session_validateAndProcessCellOperation (GormDiagramStore ora) now i cur (db, cells) a = ((db1, cells @ [x]), ov_changed)"
    using assms(1-3) save by (simp add: session_validateAndProcessCellOperation_def session_validateAddOperation_def save_cells_def)
  have 2: "session_validateAndProcessCellOperation (GormDiagramStore ora) now i cur (db1, cells @ [x]) b =
      ((db1, cells @ [x]), ov_refuse ''update_nonexistent_cell'' True True)"
    using assms(4,5) by (simp add: session_validateAndProcessCellOperation_def session_validateUpdateOperation_def)
  have "db' = db1 \<and> \<not> ov_Valid r \<and> ov_Reason r = ''update_nonexistent_cell''"
    using run by (auto simp: session_processAndValidateCellOperations_def process_frame_def dd 1 2 Let_def ov_changed_def ov_ok_def ov_refuse_def)
  with gorm.UpdateDiagramCells_stores [OF save] show ?thesis by (auto simp: GormDiagramStore_def)
qed

definition demo_half :: "(diagram_db \<times> Cells_Item list) \<times> OperationValidationResult" where
  "demo_half = session_processAndValidateCellOperations (GormDiagramStore False) 1 ''d1'' demo_ddb [] []
     \<lparr>cp_Type = ''patch'', cp_Cells = [\<lparr>co_ID = ''n1'', co_Operation = ''add'', co_Data = Some (NodeJSON demo_temp)\<rparr>,
        \<lparr>co_ID = ''n9'', co_Operation = ''update'', co_Data = None\<rparr>]\<rparr>"

theorem rejected_patch_is_half_applied_witness:
  "\<not> ov_Valid (snd demo_half) \<and> (\<exists>d. Gorm_Get False (fst (fst demo_half)) ''d1'' = Inr d \<and> df_Cells d = [NodeJSON demo_temp])"
proof -
  let ?u = "UpdateDiagramCells (GormDiagramStore False) 1 demo_ddb ''d1'' ([] @ [NodeJSON demo_temp])"
  have "\<not> isl (snd ?u)" by code_simp
  then have u: "?u = (fst ?u, Inr (projr (snd ?u)))" by (simp add: prod_eq_iff)
  show ?thesis
    using rejected_patch_is_half_applied [OF _ _ _ _ _ _ u, where cur = "[]" and
      a = "\<lparr>co_ID = ''n1'', co_Operation = ''add'', co_Data = Some (NodeJSON demo_temp)\<rparr>" and
      b = "\<lparr>co_ID = ''n9'', co_Operation = ''update'', co_Data = None\<rparr>" and
      db' = "fst (fst demo_half)" and cells' = "snd (fst demo_half)" and r = "snd demo_half"]
    by (simp add: demo_half_def)
qed

subsection \<open>The cache of a session\<close>

text \<open>A map of cells under their own identifiers.\<close>

definition keyed :: "cell_map \<Rightarrow> bool" where
  "keyed m \<longleftrightarrow> distinct (map fst m) \<and> (\<forall>(k, v) \<in> set m. extractCellID v = k \<and> k \<noteq> [])"

lemma keyed_range: "keyed m \<Longrightarrow> range_order ord \<Longrightarrow> keyed (ord m) \<and> map_of (ord m) = map_of m"
  by (simp add: keyed_def range_order_set range_order_distinct range_order_map_of)

lemma keyed_cells:
  assumes "keyed m" "range_order ord"
  shows "wf_cells (map snd (ord m)) \<and> cell_view (map snd (ord m)) = map_of m"
proof -
  have k: "keyed (ord m)" "map_of (ord m) = map_of m" using keyed_range [OF assms] by auto
  have ids: "map extractCellID (map snd (ord m)) = map fst (ord m)"
    using k(1) by (auto simp: keyed_def)
  have wf: "wf_cells (map snd (ord m))"
    using k(1) unfolding wf_cells_def ids by (auto simp: keyed_def image_iff)
  have "map_of (ord m) k' = Some x \<longleftrightarrow> x \<in> set (map snd (ord m)) \<and> extractCellID x = k'" for k' x
    using k(1) by (force simp: keyed_def)
  with wf k(2) show ?thesis using cell_view_eqI [OF wf, of "map_of (ord m)"] by simp
qed

lemma keyed_build:
  assumes "wf_cells cells"
  shows "keyed (buildCellState cells)"
proof -
  have "extractCellID v = k \<and> k \<noteq> []" if "(k, v) \<in> set (buildCellState cells)" for k v
  proof -
    have "cell_view cells k = Some v" using that distinct_buildCellState by (simp add: cell_view_def)
    with cell_view_iff [OF assms] assms show ?thesis by (auto simp: wf_cells_def image_iff)
  qed
  then show ?thesis by (auto simp: keyed_def distinct_buildCellState)
qed

text \<open>The session's cache, when it has one, shows the stored diagram.\<close>

definition synced :: "'s DiagramStoreInterface \<Rightarrow> 's \<Rightarrow> DiagramSession \<Rightarrow> bool" where
  "synced st db d \<longleftrightarrow> (\<exists>oh stored. dg_OperationHistory d = Some oh \<and> oh_MaxEntries oh = 100 \<and> keyed (oh_CurrentState oh) \<and>
     ds_Get st db (dg_DiagramID d) = Inr stored \<and> wf_cells (df_Cells stored) \<and>
     (oh_CurrentState oh \<noteq> [] \<longrightarrow> cell_view (df_Cells stored) = map_of (oh_CurrentState oh)))"

lemma foldl_update_Nil: "distinct (map fst (m :: cell_map)) \<Longrightarrow> foldl (\<lambda>cs (k, v). AList.update k v cs) [] m = m"
  using copyPreviousState_same [of m] by (simp add: copyPreviousState_def)

lemma load_state_synced:
  assumes "dg_OperationHistory d = Some oh" "keyed (oh_CurrentState oh)" "wf_cells (df_Cells stored)" "range_order ord"
    and "oh_CurrentState oh \<noteq> [] \<longrightarrow> cell_view (df_Cells stored) = map_of (oh_CurrentState oh)"
    and load: "load_state ord d stored = (d2, diagram, cur)"
  shows "wf_cells (df_Cells diagram) \<and> cell_view (df_Cells diagram) = map_of cur \<and> cell_view (df_Cells stored) = map_of cur \<and>
    vector_of diagram = vector_of stored \<and> distinct (map fst cur) \<and>
    d2 = d\<lparr>dg_OperationHistory := Some (oh\<lparr>oh_CurrentState := cur\<rparr>)\<rparr>"
proof (cases "oh_CurrentState oh = []")
  case True
  with load assms(1) have e: "cur = buildCellState (df_Cells stored)" "diagram = stored" "d2 = init_CurrentState cur d"
    by (auto simp: load_state_def cached_cells_def buildCellStateMap_same Let_def)
  show ?thesis
    using assms(1,3) True unfolding e
    by (simp add: cell_view_def distinct_buildCellState init_CurrentState_def foldl_update_Nil)
next
  case False
  with load assms(1) have e: "cur = oh_CurrentState oh" "diagram = stored\<lparr>df_Cells := map snd (ord cur)\<rparr>" "d2 = d"
    by (auto simp: load_state_def cached_cells_def Let_def)
  show ?thesis
    using assms(1,2,5) False keyed_cells [OF assms(2,4)] unfolding e by (simp add: vector_of_def keyed_def)
qed

subsection \<open>An accepted operation\<close>

text \<open>The history entry and the event an accepted request produces.\<close>

definition op_entry :: "time \<Rightarrow> uint64 \<Rightarrow> DiagramOperationRequest \<Rightarrow> WebSocketClient \<Rightarrow> cell_map \<Rightarrow> HistoryEntry" where
  "op_entry now seq req w prev = \<lparr>he_SequenceNumber = seq, he_OperationID = rq_OperationID req, he_UserID = wc_UserID w,
     he_Timestamp = now, he_Operation = rq_Operation req, he_PreviousState = prev\<rparr>"

definition op_event :: "uint64 \<Rightarrow> DiagramOperationRequest \<Rightarrow> WebSocketClient \<Rightarrow> int64 \<Rightarrow> DiagramOperationEvent" where
  "op_event seq req w v = \<lparr>ev_InitiatingUser = toUser w, ev_OperationID = rq_OperationID req, ev_SequenceNumber = Some seq,
     ev_UpdateVector = v, ev_Operation = rq_Operation req\<rparr>"

text \<open>A request that records an entry ran to the end; every other path leaves the entries alone.\<close>

lemma run_operation_recorded:
  assumes oh: "dg_OperationHistory (session_of h s) = Some oh" and new: "map_of (oh_Operations oh) seq = None"
    and run: "run_operation st now (h, db) s c req seq diagram cur = ((h', db'), err)"
    and rec: "GetHistoryEntry (dg_OperationHistory (session_of h' s)) seq \<noteq> None"
  obtains db1 cells r where
    "session_processAndValidateCellOperations st now (dg_DiagramID (session_of h s)) db (df_Cells diagram) cur (rq_Operation req) = ((db1, cells), r)"
    "ov_Valid r" "ds_Update st db1 (dg_DiagramID (session_of h s)) (diagram\<lparr>df_Cells := cells\<rparr>) = (db', None)" "err = None"
    "h' = broadcastToOthers (upd_session s (\<lambda>d. d\<lparr>dg_OperationHistory :=
            Some (AddOperation oh (op_entry now seq req (client_of h c) (ov_PreviousState r)))\<rparr>) h) s c
          (OperationEvent (op_event seq req (client_of h c) (vector_of diagram)))"
proof -
  have same: False if "hub_sessions h' = hub_sessions h"
    using rec oh new that by (simp add: GetHistoryEntry_def)
  obtain db1 cells r where p: "session_processAndValidateCellOperations st now (dg_DiagramID (session_of h s)) db (df_Cells diagram)
      cur (rq_Operation req) = ((db1, cells), r)" by (metis prod.collapse)
  obtain db2 e2 where u: "ds_Update st db1 (dg_DiagramID (session_of h s)) (diagram\<lparr>df_Cells := cells\<rparr>) = (db2, e2)" by fastforce
  have ok: "ov_Valid r \<and> ov_StateChanged r"
  proof (rule ccontr)
    assume "\<not> (ov_Valid r \<and> ov_StateChanged r)"
    with run p have "hub_sessions h' = hub_sessions h"
      by (auto simp: run_operation_def sendOperationRejected_def Let_def split: prod.splits)
    then show False by (rule same)
  qed
  have "e2 = None"
  proof (rule ccontr)
    assume "e2 \<noteq> None"
    with run p ok u have "hub_sessions h' = hub_sessions h"
      by (auto simp: run_operation_def sendOperationRejected_def Let_def)
    then show False by (rule same)
  qed
  with run p ok u oh that show ?thesis
    by (auto simp: run_operation_def Let_def addToHistory_def op_entry_def op_event_def upd_session_def)
qed

text \<open>The store's part, for any store that keeps its contract.\<close>

context diagram_store
begin

lemma accepted_run:
  assumes valid: "CellPatchOperation_Validate uuid_ok p = None"
    and get: "ds_Get st db i = Inr stored" and wf: "wf_cells (df_Cells diagram)" and view: "cell_view (df_Cells diagram) = map_of cur"
    and dist: "distinct (map fst cur)"
    and run: "session_processAndValidateCellOperations st now i db (df_Cells diagram) cur p = ((db1, cells), r)" and ok: "ov_Valid r"
    and save: "ds_Update st db1 i (diagram\<lparr>df_Cells := cells\<rparr>) = (db2, None)"
  shows "\<exists>d'. ds_Get st db2 i = Inr d' \<and> df_Cells d' = cells \<and> vector_of d' = vector_of diagram \<and> wf_cells cells \<and>
     ov_PreviousState r = cur \<and>
     cell_view cells = foldl (\<lambda>m op. m(co_ID op := session_effect op)) (map_of cur) (deduplicateCellOperations (cp_Cells p))"
proof -
  have inv: "session_inv st i (db, df_Cells diagram)" using get wf by (simp add: session_inv_def)
  have good: "\<forall>op \<in> set (cp_Cells p). CellOperation_Validate uuid_ok op = None"
    using CellPatchOperation_Validate_None [OF valid] by blast
  note run' = run [unfolded session_processAndValidateCellOperations_def]
  have v: "wf_cells cells" "\<exists>d1. ds_Get st db1 i = Inr d1"
    "cell_view cells = foldl (\<lambda>m op. m(co_ID op := session_effect op)) (map_of cur) (deduplicateCellOperations (cp_Cells p))"
    using session.process_frame_correct [OF inv good _ run'] view ok by (auto simp: session_inv_def)
  then obtain d' where "ds_Get st db2 i = Inr d'" "df_Cells d' = cells" "df_UpdateVector d' = Some (vector_of (diagram\<lparr>df_Cells := cells\<rparr>))"
    using get_update [OF _ save] by auto
  with v process_frame_PreviousState [OF run' dist] show ?thesis by (auto simp: vector_of_def)
qed

end

lemma dedup_distinct_id: "distinct (map co_ID ops) \<Longrightarrow> deduplicateCellOperations ops = ops"
proof -
  have "set (map co_ID ops) \<inter> set seen = {} \<Longrightarrow> distinct (map co_ID ops) \<Longrightarrow> dedup_cells seen ops = ops" for seen
    by (induction ops arbitrary: seen) auto
  then show "distinct (map co_ID ops) \<Longrightarrow> deduplicateCellOperations ops = ops" by (simp add: deduplicateCellOperations_def)
qed

lemma synced_load:
  assumes "synced st db d0" "range_order ord" "d1 = d0\<lparr>dg_NextSequenceNumber := n\<rparr>"
  obtains oh d diagram cur where "dg_OperationHistory d0 = Some oh" "oh_MaxEntries oh = 100" "ds_Get st db (dg_DiagramID d0) = Inr d"
    "load_state ord d1 d = (d1\<lparr>dg_OperationHistory := Some (oh\<lparr>oh_CurrentState := cur\<rparr>)\<rparr>, diagram, cur)"
    "wf_cells (df_Cells diagram)" "cell_view (df_Cells diagram) = map_of cur" "cell_view (df_Cells d) = map_of cur"
    "vector_of diagram = vector_of d" "keyed cur"
proof -
  obtain oh d where oh: "dg_OperationHistory d0 = Some oh" "oh_MaxEntries oh = 100" "keyed (oh_CurrentState oh)"
    and d: "ds_Get st db (dg_DiagramID d0) = Inr d" "wf_cells (df_Cells d)"
      "oh_CurrentState oh \<noteq> [] \<longrightarrow> cell_view (df_Cells d) = map_of (oh_CurrentState oh)"
    using assms(1) by (auto simp: synced_def)
  obtain d2 diagram cur where load: "load_state ord d1 d = (d2, diagram, cur)" by (metis prod.collapse)
  have "keyed cur"
    using load oh(1,3) keyed_build [OF d(2)] assms(3)
    by (auto simp: load_state_def cached_cells_def buildCellStateMap_same Let_def split: if_splits)
  with load_state_synced [OF _ oh(3) d(2) assms(2) d(3) load] oh d load assms(3) show ?thesis by (auto intro: that)
qed

text \<open>
  An accepted operation, end to end, on the GORM store: from a session whose cache shows the stored
  diagram, a permitted client's valid request with one operation per cell that the session records
  leaves the stored cells updated as asked, the cache still in step with the store, the entry under
  the next sequence number with the cells before it, and the event in every other open client's queue.
\<close>

lemma operation_end_to_end:
  assumes perm: "checkMutationPermission env h s c" and req: "rm_DiagramOperation m = Some req"
    and valid: "CellPatchOperation_Validate uuid_ok (rq_Operation req) = None"
    and one: "distinct (map co_ID (cp_Cells (rq_Operation req)))" and ord: "range_order ord"
    and sync: "synced (GormDiagramStore ora) db (session_of h s)" and clients: "distinct (dg_Clients (session_of h s))"
    and seq: "seq = dg_NextSequenceNumber (session_of h s)" and i: "i = dg_DiagramID (session_of h s)"
    and new: "GetHistoryEntry (dg_OperationHistory (session_of h s)) seq = None"
    and run: "handle_DiagramOperationRequest env (GormDiagramStore ora) ord now (h, db) s c m = ((h', db'), err)"
    and rec: "GetHistoryEntry (dg_OperationHistory (session_of h' s)) seq = Some e"
  obtains d d' oh' where "Gorm_Get ora db i = Inr d" "Gorm_Get ora db' i = Inr d'" "wf_cells (df_Cells d')"
    "cell_view (df_Cells d') = foldl (\<lambda>m op. m(co_ID op := session_effect op)) (cell_view (df_Cells d)) (cp_Cells (rq_Operation req))"
    "dg_OperationHistory (session_of h' s) = Some oh'" "map_of (oh_CurrentState oh') = cell_view (df_Cells d')"
    "oh_CurrentPosition oh' = seq" "oh_MaxEntries oh' = 100"
    "he_SequenceNumber e = seq" "he_Operation e = rq_Operation req" "map_of (he_PreviousState e) = cell_view (df_Cells d)"
    "keyed (he_PreviousState e)" "vector_of d' = vector_of d" "err = None"
    "\<And>x. client_of h' x = (if x \<in> set (dg_Clients (session_of h s)) \<and> x \<noteq> c \<and> \<not> wc_closing (client_of h x) \<and> length (wc_Send (client_of h x)) < 256
       then (client_of h x)\<lparr>wc_Send := wc_Send (client_of h x) @ [OperationEvent (op_event seq req (client_of h c) (vector_of d))]\<rparr>
       else client_of h x)"
proof -
  let ?st = "GormDiagramStore ora"
  have gorm_get [simp]: "ds_Get ?st = Gorm_Get ora" by (simp add: GormDiagramStore_def)
  define d1 where "d1 = (session_of h s)\<lparr>dg_NextSequenceNumber := seq + 1\<rparr>"
  obtain oh d diagram cur where oh: "dg_OperationHistory (session_of h s) = Some oh" "oh_MaxEntries oh = 100"
    and d: "Gorm_Get ora db i = Inr d" and load: "load_state ord d1 d = (d1\<lparr>dg_OperationHistory := Some (oh\<lparr>oh_CurrentState := cur\<rparr>)\<rparr>, diagram, cur)"
    and ls: "wf_cells (df_Cells diagram)" "cell_view (df_Cells diagram) = map_of cur" "cell_view (df_Cells d) = map_of cur"
      "vector_of diagram = vector_of d" and kc: "keyed cur"
    by (rule synced_load [OF sync ord d1_def, unfolded gorm_get, folded i])
  define d2 where "d2 = d1\<lparr>dg_OperationHistory := Some (oh\<lparr>oh_CurrentState := cur\<rparr>)\<rparr>"
  let ?h2 = "upd_session s (\<lambda>d. d2) (upd_session s (\<lambda>d. d\<lparr>dg_NextSequenceNumber := seq + 1\<rparr>) h)"
  have h2: "session_of ?h2 s = d2" "hub_clients ?h2 = hub_clients h" "dg_DiagramID d2 = i" "dg_Clients d2 = dg_Clients (session_of h s)"
    by (simp_all add: d2_def d1_def i)
  have run2: "run_operation ?st now (?h2, db) s c req seq diagram cur = ((h', db'), err)"
    using run perm req d load by (simp add: handle_DiagramOperationRequest_def Let_def seq i d1_def d2_def)
  have oh2: "dg_OperationHistory (session_of ?h2 s) = Some (oh\<lparr>oh_CurrentState := cur\<rparr>)" by (simp add: d2_def)
  have new2: "map_of (oh_Operations (oh\<lparr>oh_CurrentState := cur\<rparr>)) seq = None" using new oh(1) by (simp add: GetHistoryEntry_def)
  obtain db1 cells r where p: "session_processAndValidateCellOperations ?st now i db (df_Cells diagram) cur (rq_Operation req) = ((db1, cells), r)"
    "ov_Valid r" "ds_Update ?st db1 i (diagram\<lparr>df_Cells := cells\<rparr>) = (db', None)" "err = None"
    and h': "h' = broadcastToOthers (upd_session s (\<lambda>d. d\<lparr>dg_OperationHistory :=
            Some (AddOperation (oh\<lparr>oh_CurrentState := cur\<rparr>) (op_entry now seq req (client_of h c) (ov_PreviousState r)))\<rparr>) ?h2) s c
          (OperationEvent (op_event seq req (client_of h c) (vector_of diagram)))"
    using run_operation_recorded [OF oh2 new2 run2] rec h2 by auto
  have get: "ds_Get ?st db i = Inr d" and dist: "distinct (map fst cur)" using d kc by (simp_all add: keyed_def)
  obtain d' where d': "ds_Get ?st db' i = Inr d'" "df_Cells d' = cells" "vector_of d' = vector_of diagram" "wf_cells cells" "ov_PreviousState r = cur"
    "cell_view cells = foldl (\<lambda>m op. m(co_ID op := session_effect op)) (map_of cur) (cp_Cells (rq_Operation req))"
    using gorm.accepted_run [OF valid get ls(1,2) dist p(1-3)] dedup_distinct_id [OF one] by auto
  let ?e = "op_entry now seq req (client_of h c) cur"
  let ?oh = "AddOperation (oh\<lparr>oh_CurrentState := cur\<rparr>) ?e"
  have hist: "dg_OperationHistory (session_of h' s) = Some ?oh" by (simp add: h' d'(5))
  have "map_of (oh_Operations ?oh) (he_SequenceNumber ?e) = Some ?e" by (rule AddOperation_lookup) (simp add: oh(2))
  then have e: "e = ?e" using rec hist by (simp add: GetHistoryEntry_def op_entry_def)
  have good: "\<forall>op \<in> set (cp_Cells (rq_Operation req)). CellOperation_Validate uuid_ok op = None"
    using CellPatchOperation_Validate_None [OF valid] by blast
  have cs: "map_of (oh_CurrentState ?oh) = cell_view (df_Cells d')"
    by (simp add: op_entry_def d' current_state_refines [OF good])
  have "distinct (dg_Clients (session_of (upd_session s (\<lambda>d. d\<lparr>dg_OperationHistory := Some ?oh\<rparr>) ?h2) s))"
    using clients by (simp add: d2_def d1_def)
  note deliver = broadcast_delivery [OF this, of c "OperationEvent (op_event seq req (client_of h c) (vector_of diagram))"]
  show ?thesis
    by (rule that [OF d _ _ _ hist cs])
       (use d' ls kc oh p(4) deliver in \<open>simp_all add: e op_entry_def h' h2(4)\<close>)
qed


text \<open>Alice adds a node to the empty diagram of the demonstration store.\<close>

definition demo_ops :: WebSocketHub where
  "demo_ops = upd_session 0 (\<lambda>d. d\<lparr>dg_DiagramID := ''d1''\<rparr>) demo_pair"

definition demo_req :: DiagramOperationRequest where
  "demo_req = \<lparr>rq_OperationID = ''op-1'', rq_Operation = demo_patch\<rparr>"

definition demo_msg :: raw_message where
  "demo_msg = no_message\<lparr>rm_MessageType := Some ''diagram_operation_request'', rm_DiagramOperation := Some demo_req\<rparr>"

definition demo_after :: "(WebSocketHub \<times> diagram_db) \<times> go_error option" where
  "demo_after = handle_DiagramOperationRequest demo_env (GormDiagramStore False) (\<lambda>m. m) 7 (demo_ops, demo_ddb) 0 1 demo_msg"

definition demo_recorded :: HistoryEntry where
  "demo_recorded = the (GetHistoryEntry (dg_OperationHistory (session_of (fst (fst demo_after)) 0)) 1)"

lemma demo_stored: obtains d where "Gorm_Get False demo_ddb ''d1'' = Inr d" "df_Cells d = []" "vector_of d = 4"
proof
  show "Gorm_Get False demo_ddb ''d1'' = Inr (projr (Gorm_Get False demo_ddb ''d1''))" by (rule demo_get)
  show "df_Cells (projr (Gorm_Get False demo_ddb ''d1'')) = []" by code_simp
  show "vector_of (projr (Gorm_Get False demo_ddb ''d1'')) = 4" by code_simp
qed

lemma demo_synced: "synced (GormDiagramStore False) demo_ddb (session_of demo_ops 0)"
  by (rule demo_stored) (simp add: synced_def demo_ops_def demo_pair_def NewOperationHistory_def keyed_def GormDiagramStore_def)

lemma demo_facts:
  "checkMutationPermission demo_env demo_ops 0 1" "rm_DiagramOperation demo_msg = Some demo_req"
  "CellPatchOperation_Validate (\<lambda>_. True) (rq_Operation demo_req) = None"
  "distinct (map co_ID (cp_Cells (rq_Operation demo_req)))" "range_order (\<lambda>m. m)"
  "synced (GormDiagramStore False) demo_ddb (session_of demo_ops 0)" "distinct (dg_Clients (session_of demo_ops 0))"
  "1 = dg_NextSequenceNumber (session_of demo_ops 0)" "''d1'' = dg_DiagramID (session_of demo_ops 0)"
  "GetHistoryEntry (dg_OperationHistory (session_of demo_ops 0)) 1 = None"
  "handle_DiagramOperationRequest demo_env (GormDiagramStore False) (\<lambda>m. m) 7 (demo_ops, demo_ddb) 0 1 demo_msg =
     ((fst (fst demo_after), snd (fst demo_after)), snd demo_after)"
  "GetHistoryEntry (dg_OperationHistory (session_of (fst (fst demo_after)) 0)) 1 = Some demo_recorded"
proof -
  have "GetHistoryEntry (dg_OperationHistory (session_of (fst (fst demo_after)) 0)) 1 \<noteq> None" by code_simp
  then show "GetHistoryEntry (dg_OperationHistory (session_of (fst (fst demo_after)) 0)) 1 = Some demo_recorded"
    by (simp add: demo_recorded_def)
  show "synced (GormDiagramStore False) demo_ddb (session_of demo_ops 0)" by (rule demo_synced)
  show "checkMutationPermission demo_env demo_ops 0 1" by code_simp
  show "CellPatchOperation_Validate (\<lambda>_. True) (rq_Operation demo_req) = None" by code_simp
  show "distinct (map co_ID (cp_Cells (rq_Operation demo_req)))" by code_simp
  show "GetHistoryEntry (dg_OperationHistory (session_of demo_ops 0)) 1 = None" by code_simp
qed (simp_all add: demo_msg_def demo_ops_def demo_pair_def demo_after_def)


text \<open>
  The version that does not move: the same request saves every step under a new version and then
  saves the whole diagram once more under the version it had read, so an accepted operation changes the
  stored cells but not the stored version, and a client that has not seen the operation and sends a
  sync request with the old version is told it is current.
\<close>

theorem operation_keeps_vector:
  assumes "checkMutationPermission env h s c" "rm_DiagramOperation m = Some req"
    and "CellPatchOperation_Validate uuid_ok (rq_Operation req) = None"
    and "distinct (map co_ID (cp_Cells (rq_Operation req)))" "range_order ord"
    and "synced (GormDiagramStore ora) db (session_of h s)" "distinct (dg_Clients (session_of h s))"
    and "seq = dg_NextSequenceNumber (session_of h s)" "i = dg_DiagramID (session_of h s)"
    and "GetHistoryEntry (dg_OperationHistory (session_of h s)) seq = None"
    and "handle_DiagramOperationRequest env (GormDiagramStore ora) ord now (h, db) s c m = ((h', db'), err)"
    and "GetHistoryEntry (dg_OperationHistory (session_of h' s)) seq = Some e"
    and "rm_SyncRequest m2 = Some (Some v)" "Gorm_Get ora db i = Inr d" "v = vector_of d"
  shows "processSyncRequest (GormDiagramStore ora) (h', db') s x m2 = sendToClient h' x (SyncStatusResponseMessage v)"
proof -
  obtain d' where d': "Gorm_Get ora db' i = Inr d'" "vector_of d' = v"
    by (rule operation_end_to_end [OF assms(1-12)]) (use assms(14,15) in simp)
  have "dg_DiagramID (session_of h' s) = i"
    using quiet_operation [of "(h, db)" env "GormDiagramStore ora" ord now s c m] assms(9,11) by (simp add: quiet_def control_def)
  with d' assms(13) show ?thesis by (simp add: processSyncRequest_def GormDiagramStore_def)
qed

theorem operation_keeps_vector_witness:
  "processSyncRequest (GormDiagramStore False) (fst (fst demo_after), snd (fst demo_after)) 0 2 (no_message\<lparr>rm_SyncRequest := Some (Some 4)\<rparr>) =
   sendToClient (fst (fst demo_after)) 2 (SyncStatusResponseMessage 4)"
proof -
  obtain d where d: "Gorm_Get False demo_ddb ''d1'' = Inr d" "vector_of d = 4" by (rule demo_stored)
  have r: "rm_SyncRequest (no_message\<lparr>rm_SyncRequest := Some (Some 4)\<rparr>) = Some (Some 4)" by simp
  show ?thesis by (rule operation_keeps_vector [OF demo_facts r d(1) d(2) [symmetric]])
qed



end
