(* ===== verification/Collab_Machine.thy ===== *)
theory Collab_Machine
  imports Diagram_Handler
begin

text \<open>
  The collaboration service as a transition system: one step per handler, per iteration of a session's
  loop, per write of a client's pump, per connection attempt and per cleanup, in any interleaving.
  The order in which a session's clients are ranged over may change at any time, and so may the stored
  diagrams, through requests outside a session. Invariants are proved once per operation with the
  relation \<open>shrinks\<close> and lifted to all reachable states through the locale \<open>invariant_system\<close>.
\<close>

subsection \<open>Steps\<close>

inductive collab_step :: "'s DiagramStoreInterface \<Rightarrow> WebSocketHub \<times> 's \<Rightarrow> WebSocketHub \<times> 's \<Rightarrow> bool" for st where
  connect: "HandleWS uuid_parse env h ctx uuid now tm i sid = (h', out) \<Longrightarrow> collab_step st (h, db) (h', db)"
| create: "CreateSession h uuid now i tm host = (h', out) \<Longrightarrow> collab_step st (h, db) (h', db)"
| join: "JoinSession h now i = (h', out) \<Longrightarrow> collab_step st (h, db) (h', db)"
| register: "dg_Running (session_of h s) \<Longrightarrow> \<not> dg_Wedged (session_of h s) \<Longrightarrow> c < hub_next h \<Longrightarrow> wc_Session (client_of h c) = s \<Longrightarrow>
    collab_step st (h, db) (run_Register now (ds_Get st db (dg_DiagramID (session_of h s))) h s c, db)"
| unregister: "dg_Running (session_of h s) \<Longrightarrow> \<not> dg_Wedged (session_of h s) \<Longrightarrow>
    collab_step st (h, db) (run_Unregister env now h s c, db)"
| broadcast: "dg_Running (session_of h s) \<Longrightarrow> \<not> dg_Wedged (session_of h s) \<Longrightarrow> collab_step st (h, db) (run_Broadcast now h s, db)"
| receive: "dep_store dep = st \<Longrightarrow> wc_Session (client_of h c) = s \<Longrightarrow> \<not> dg_Wedged (session_of h s) \<Longrightarrow>
    ProcessMessage dep (h, db) s c m = (h', db') \<Longrightarrow> collab_step st (h, db) (h', db')"
| write_message: "collab_step st (h, db) (upd_client c (WritePump_message written) h, db)"
| write_tick: "collab_step st (h, db) (WritePump_tick env now h s c, db)"
| close: "collab_step st (h, db) (CloseSession now h i, db)"
| cleanup: "collab_step st (h, db) (CleanupInactiveSessions now h, db)"
| cleanup_empty: "collab_step st (h, db) (CleanupEmptySessions h, db)"
| cleanup_all: "collab_step st (h, db) (CleanupAllSessions h, db)"
| reorder: "mset cs = mset (dg_Clients (session_of h s)) \<Longrightarrow>
    collab_step st (h, db) (upd_session s (\<lambda>d. d\<lparr>dg_Clients := cs\<rparr>) h, db)"
| outside: "collab_step st (h, db) (h, db')"

subsection \<open>Operations that only shrink a hub\<close>

text \<open>
  What almost every operation has in common: no entry and no member is added, no reference is allocated
  or re-owned, denials stay, and queues stay within their capacity.
\<close>

definition session_le :: "DiagramSession \<Rightarrow> DiagramSession \<Rightarrow> bool" where
  "session_le d d' \<longleftrightarrow> dg_DiagramID d' = dg_DiagramID d \<and> set (dg_Clients d') \<subseteq> set (dg_Clients d) \<and>
     (distinct (dg_Clients d) \<longrightarrow> distinct (dg_Clients d')) \<and> set (dg_DeniedUsers d) \<subseteq> set (dg_DeniedUsers d') \<and>
     (length (dg_Broadcast d) \<le> 256 \<longrightarrow> length (dg_Broadcast d') \<le> 256)"

definition client_le :: "WebSocketClient \<Rightarrow> WebSocketClient \<Rightarrow> bool" where
  "client_le w w' \<longleftrightarrow> wc_Session w' = wc_Session w \<and> wc_InternalUUID w' = wc_InternalUUID w \<and>
     (length (wc_Send w) \<le> 256 \<longrightarrow> length (wc_Send w') \<le> 256)"

definition shrinks :: "WebSocketHub \<Rightarrow> WebSocketHub \<Rightarrow> bool" where
  "shrinks h h' \<longleftrightarrow> hub_next h' = hub_next h \<and> set (hub_Diagrams h') \<subseteq> set (hub_Diagrams h) \<and>
     (distinct (map fst (hub_Diagrams h)) \<longrightarrow> distinct (map fst (hub_Diagrams h'))) \<and>
     (\<forall>s. session_le (session_of h s) (session_of h' s)) \<and> (\<forall>c. client_le (client_of h c) (client_of h' c))"

named_theorems shrink "operations that shrink a hub"

lemma session_le_refl [simp]: "session_le d d"
  by (simp add: session_le_def)

lemma client_le_refl [simp]: "client_le w w"
  by (simp add: client_le_def)

lemma session_le_trans: "session_le a b \<Longrightarrow> session_le b c \<Longrightarrow> session_le a c"
  by (auto simp: session_le_def)

lemma client_le_trans: "client_le a b \<Longrightarrow> client_le b c \<Longrightarrow> client_le a c"
  by (auto simp: client_le_def)

lemma shrinks_refl [shrink]: "shrinks h h"
  by (simp add: shrinks_def)

lemma shrinks_trans: "shrinks h1 h2 \<Longrightarrow> shrinks h2 h3 \<Longrightarrow> shrinks h1 h3"
  unfolding shrinks_def by (auto intro: session_le_trans client_le_trans)

lemma shrinks_upd_client: "shrinks h0 h \<Longrightarrow> (\<And>w. client_le w (f w)) \<Longrightarrow> shrinks h0 (upd_client c f h)"
  by (erule shrinks_trans) (simp add: shrinks_def)

lemma shrinks_upd_session: "shrinks h0 h \<Longrightarrow> (\<And>d. session_le d (f d)) \<Longrightarrow> shrinks h0 (upd_session s f h)"
  by (erule shrinks_trans) (simp add: shrinks_def)

lemma shrinks_send [shrink]: "shrinks h0 h \<Longrightarrow> shrinks h0 (sendToClient h c m)"
  unfolding sendToClient_def by (erule shrinks_upd_client) (auto simp: trySend_def client_le_def)

lemma shrinks_close [shrink]: "shrinks h0 h \<Longrightarrow> shrinks h0 (upd_client c closeClientChannel h)"
  by (erule shrinks_upd_client) (simp add: closeClientChannel_def client_le_def)

lemma shrinks_close_conn [shrink]: "shrinks h0 h \<Longrightarrow> shrinks h0 (upd_client c (close_conn frames) h)"
  by (erule shrinks_upd_client) (simp add: close_conn_def client_le_def)

lemma shrinks_participants [shrink]: "shrinks h0 h \<Longrightarrow> shrinks h0 (broadcastParticipantsUpdate h s)"
  by (erule shrinks_trans) (simp add: broadcastParticipantsUpdate_def Let_def shrinks_def session_le_def)

lemma shrinks_presenter [shrink]: "shrinks h0 h \<Longrightarrow> shrinks h0 (set_presenter s p h)"
  unfolding set_presenter_def by (erule shrinks_upd_session) (simp add: session_le_def)

lemma shrinks_leave [shrink]: "shrinks h0 h \<Longrightarrow> shrinks h0 (upd_session s (\<lambda>d. d\<lparr>dg_Clients := remove1 c (dg_Clients d)\<rparr>) h)"
  by (erule shrinks_upd_session) (simp add: session_le_def set_remove1_subset)

lemma shrinks_delete [shrink]: "shrinks h0 h \<Longrightarrow> shrinks h0 (hub_delete i h)"
  by (erule shrinks_trans) (auto simp: shrinks_def AList_delete_filter distinct_map_filter)

lemma shrinks_foldl: "(\<And>h x. shrinks h0 h \<Longrightarrow> shrinks h0 (f h x)) \<Longrightarrow> shrinks h0 h \<Longrightarrow> shrinks h0 (foldl f h xs)"
  by (induction xs arbitrary: h) simp_all

lemma shrinks_broadcasts [shrink]:
  "shrinks h0 h \<Longrightarrow> shrinks h0 (broadcastToAllClients h s m)" "shrinks h0 h \<Longrightarrow> shrinks h0 (broadcastToOthers h s c m)"
  "shrinks h0 h \<Longrightarrow> shrinks h0 (broadcastSessionTermination h s r)" "shrinks h0 h \<Longrightarrow> shrinks h0 (close_all cs h)"
  unfolding broadcastToAllClients_def broadcastToOthers_def broadcastSessionTermination_def close_all_def
  by (auto intro!: shrinks_foldl shrink)

lemma shrinks_error [shrink]: "shrinks h0 h \<Longrightarrow> shrinks h0 (sendErrorMessage h c code text)"
  unfolding sendErrorMessage_def by (intro shrink)

lemma shrinks_block [shrink]: "shrinks h0 h \<Longrightarrow> shrinks h0 (removeAndBlockClient h s c reason)"
  unfolding removeAndBlockClient_def Let_def by (intro shrink)

lemma shrinks_exit [shrink]: "shrinks h0 h \<Longrightarrow> shrinks h0 (run_exit h s)"
  unfolding run_exit_def by (intro shrink, erule shrinks_upd_session) (simp add: session_le_def)

lemma shrinks_target [shrink]:
  "shrinks h0 h \<Longrightarrow> shrinks h0 (fst (validateTargetUserIdentity h s c u x))"
  unfolding validateTargetUserIdentity_def by (auto intro!: shrink)

lemma shrinks_presenter_handlers [shrink]:
  "shrinks h0 h \<Longrightarrow> shrinks h0 (processPresenterRequest h s c m)"
  "shrinks h0 h \<Longrightarrow> shrinks h0 (processChangePresenter h s c m)"
  "shrinks h0 h \<Longrightarrow> shrinks h0 (processPresenterDenied h s c m)"
  "shrinks h0 h \<Longrightarrow> shrinks h0 (processPresenterCursor h s c m)"
  "shrinks h0 h \<Longrightarrow> shrinks h0 (processPresenterSelection h s c m)"
  by (auto simp: processPresenterRequest_def processChangePresenter_def processPresenterDenied_def processPresenterCursor_def
      processPresenterSelection_def validateTargetUserIdentity_def Let_def intro!: shrink split: option.split)

lemma shrinks_deny [shrink]:
  "shrinks h0 h \<Longrightarrow> shrinks h0 (upd_session s (\<lambda>d. d\<lparr>dg_DeniedUsers := List.insert u (dg_DeniedUsers d)\<rparr>) h)"
  by (erule shrinks_upd_session) (auto simp: session_le_def)

lemma shrinks_conn [shrink]: "shrinks h0 h \<Longrightarrow> shrinks h0 (upd_client c (\<lambda>w. w\<lparr>wc_ConnClosed := True\<rparr>) h)"
  by (erule shrinks_upd_client) (simp add: client_le_def)

lemma shrinks_remove [shrink]: "shrinks h0 h \<Longrightarrow> shrinks h0 (processRemoveParticipant h s c m)"
  by (auto simp: processRemoveParticipant_def validateTargetUserIdentity_def Let_def intro!: shrink split: option.split)

lemma shrinks_run_operation: "shrinks (fst w) (fst (fst (run_operation st now w s c req seq diagram cur)))"
  by (auto simp: run_operation_def Let_def sendOperationRejected_def addToHistory_def session_le_def
      intro!: shrink shrinks_upd_session split: option.split prod.split)

lemma shrinks_load:
  assumes "load_state ord ((session_of h s)\<lparr>dg_NextSequenceNumber := n\<rparr>) stored = (d2, diagram, cur)"
  shows "shrinks h (upd_session s (\<lambda>d. d2) (upd_session s (\<lambda>d. d\<lparr>dg_NextSequenceNumber := n\<rparr>) h))"
proof -
  have "session_le (session_of h s) d2"
    using assms by (auto simp: load_state_def init_CurrentState_def session_le_def Let_def split: if_splits)
  then show ?thesis by (simp add: shrinks_def)
qed

lemma shrinks_operation: "shrinks (fst w) (fst (fst (handle_DiagramOperationRequest env st ord now w s c m)))"
proof -
  obtain h db where w: "w = (h, db)" by fastforce
  have 1: "shrinks h (sendAuthorizationDenied h c x y)" for x y
    unfolding sendAuthorizationDenied_def by (intro shrink)
  have 2: "shrinks h h" by (intro shrink)
  have 3: "shrinks h (sendOperationRejected st db (upd_session s (\<lambda>d. d\<lparr>dg_NextSequenceNumber := n\<rparr>) h) s c i q x y z as f)" for n i q x y z as f
    unfolding sendOperationRejected_def by (intro shrink shrinks_upd_session) (simp add: session_le_def)
  show ?thesis
    unfolding w handle_DiagramOperationRequest_def Let_def
    using 1 2 3 shrinks_trans [OF shrinks_load shrinks_run_operation [of "(_, db)", simplified]]
    by (auto split: option.split sum.split prod.split)
qed

lemma shrinks_history:
  "shrinks (fst w) (fst (processUndoRequest env st ord now w s c m))" "shrinks (fst w) (fst (processRedoRequest env lib st w s c m))"
  by (auto simp: processUndoRequest_def processRedoRequest_def sendAuthorizationDenied_def history_message_def finish_history_def
      Let_def session_le_def intro!: shrink shrinks_upd_session split: option.split sum.split prod.split)

lemma shrinks_sync: "shrinks (fst w) (processSyncStatusRequest st w s c)" "shrinks (fst w) (processSyncRequest st w s c m)"
  by (auto simp: processSyncStatusRequest_def processSyncRequest_def intro!: shrink split: option.split sum.split prod.split)

lemma shrinks_ProcessMessage: "shrinks h (fst (ProcessMessage dep (h, db) s c m))"
proof -
  have "shrinks h (fst (fst (HandleMessage dep handler (h, db) s c m)))" for handler
    using shrinks_operation [of "(h, db)"] shrinks_history [of "(h, db)"] shrinks_sync [of "(h, db)"]
    by (cases handler) (auto simp: HandleMessage_def intro!: shrink)
  then show ?thesis by (auto simp: ProcessMessage_def RouteMessage_def intro!: shrink split: option.split)
qed

lemma shrinks_presenter_left [shrink]: "shrinks h0 h \<Longrightarrow> shrinks h0 (handlePresenterDisconnection env h s)"
  unfolding handlePresenterDisconnection_def Let_def by (intro shrink)

lemma shrinks_host_left [shrink]:
  assumes "shrinks h0 h"
  shows "shrinks h0 (handleHostDisconnection now h s u)"
proof -
  have d: "client_le w (disconnect_participant w)" for w
    by (simp add: disconnect_participant_def closeClientChannel_def client_le_def)
  show ?thesis
    unfolding handleHostDisconnection_def Let_def
    by (auto simp: d session_le_def intro!: shrink shrinks_upd_session shrinks_foldl shrinks_upd_client assms)
qed

lemma shrinks_Unregister: "shrinks h (run_Unregister env now h s c)"
proof -
  have "session_le d (d\<lparr>dg_Clients := remove1 c (dg_Clients d), dg_LastActivity := now\<rparr>)" for d
    by (simp add: session_le_def set_remove1_subset)
  then show ?thesis
    unfolding run_Unregister_def Let_def by (auto intro!: shrink shrinks_upd_session)
qed

lemma shrinks_deliver: "shrinks h0 h \<Longrightarrow> shrinks h0 (fst (deliver msg cs h s))"
  by (induction cs arbitrary: h) (simp_all add: shrinks_leave shrinks_close shrinks_send)

lemma shrinks_Broadcast: "shrinks h (run_Broadcast now h s)"
proof (cases "dg_Broadcast (session_of h s)")
  case Nil
  then show ?thesis by (simp add: run_Broadcast_def shrinks_refl)
next
  case (Cons msg rest)
  have "shrinks h (upd_session s (\<lambda>d. d\<lparr>dg_Broadcast := rest, dg_LastActivity := now\<rparr>) h)"
    using Cons by (simp add: shrinks_def session_le_def)
  from shrinks_deliver [OF this] Cons show ?thesis
    by (auto simp: run_Broadcast_def session_le_def split: prod.split intro!: shrink shrinks_upd_session) (metis fst_conv)+
qed

lemma shrinks_cleanups:
  "shrinks h (CloseSession now h i)" "shrinks h (CleanupInactiveSessions now h)" "shrinks h (CleanupEmptySessions h)" "shrinks h (CleanupAllSessions h)"
proof -
  show "shrinks h (CloseSession now h i)"
    by (auto simp: CloseSession_def Let_def session_le_def intro!: shrink shrinks_upd_session split: option.split)
  show "shrinks h (CleanupInactiveSessions now h)"
    unfolding CleanupInactiveSessions_def by (auto intro!: shrink shrinks_foldl)
  show "shrinks h (CleanupEmptySessions h)"
    by (auto simp: CleanupEmptySessions_def shrinks_def distinct_map_filter)
  have "shrinks h (foldl (\<lambda>g (diagramID, s). close_all (dg_Clients (session_of g s)) g) h (hub_Diagrams h))"
    by (auto intro!: shrink shrinks_foldl)
  then show "shrinks h (CleanupAllSessions h)"
    by (simp add: CleanupAllSessions_def shrinks_def)
qed

lemma shrinks_write: "shrinks h (upd_client c (WritePump_message written) h)" "shrinks h (WritePump_tick env now h s c)"
  by (auto simp: WritePump_message_def WritePump_tick_def close_conn_def client_le_def intro!: shrink shrinks_upd_client split: list.split)

subsection \<open>The invariant of the hub\<close>

definition session_ok :: "WebSocketHub \<Rightarrow> nat \<Rightarrow> DiagramSession \<Rightarrow> bool" where
  "session_ok h s d \<longleftrightarrow> distinct (dg_Clients d) \<and> (\<forall>c\<in>set (dg_Clients d). c < hub_next h \<and> wc_Session (client_of h c) = s) \<and>
     length (dg_Broadcast d) \<le> 256"

definition hub_ok :: "WebSocketHub \<Rightarrow> bool" where
  "hub_ok h \<longleftrightarrow> distinct (map fst (hub_Diagrams h)) \<and>
     (\<forall>(i, s)\<in>set (hub_Diagrams h). s < hub_next h \<and> dg_DiagramID (session_of h s) = i) \<and>
     (\<forall>s. session_ok h s (session_of h s)) \<and> (\<forall>c. length (wc_Send (client_of h c)) \<le> 256)"

lemma session_ok_le:
  "session_ok h s d \<Longrightarrow> session_le d d' \<Longrightarrow> hub_next h' = hub_next h \<Longrightarrow> (\<And>c. wc_Session (client_of h' c) = wc_Session (client_of h c)) \<Longrightarrow>
   session_ok h' s d'"
  by (auto simp: session_ok_def session_le_def)

lemma shrinks_ok: "shrinks h h' \<Longrightarrow> hub_ok h \<Longrightarrow> hub_ok h'"
  unfolding shrinks_def hub_ok_def client_le_def
  by (auto intro: session_ok_le simp: session_le_def)

lemma update_fresh: "k \<notin> fst ` set m \<Longrightarrow> AList.update k v m = m @ [(k, v)]"
  by (induction m) auto

lemma alloc_ok:
  assumes "hub_ok h" "alloc_session h i d = (h', s)" "GetSession h i = None" "dg_DiagramID d = i" "dg_Clients d = []" "dg_Broadcast d = []"
  shows "hub_ok h' \<and> s < hub_next h'"
proof -
  have "map_of (hub_Diagrams h) i = None" using assms(3) by (simp add: GetSession_def)
  then have u: "AList.update i (hub_next h) (hub_Diagrams h) = hub_Diagrams h @ [(i, hub_next h)]" "i \<notin> fst ` set (hub_Diagrams h)"
    by (auto simp: map_of_eq_None_iff intro: update_fresh)
  have h': "hub_Diagrams h' = hub_Diagrams h @ [(i, hub_next h)]" "hub_clients h' = hub_clients h" "hub_next h' = Suc (hub_next h)"
    "hub_sessions h' = (hub_sessions h)(hub_next h := d)" "s = hub_next h"
    using assms(2) u by (auto simp: alloc_session_def)
  have "session_ok h' t (session_of h' t)" for t
    using assms(1,5,6) by (auto simp: hub_ok_def session_ok_def h' less_Suc_eq)
  moreover have "\<forall>(j, t)\<in>set (hub_Diagrams h'). t < hub_next h' \<and> dg_DiagramID (session_of h' t) = j"
    using assms(1,4) by (auto simp: hub_ok_def h' less_Suc_eq)
  ultimately show ?thesis
    using assms(1) u(2) by (simp add: hub_ok_def h')
qed

lemma touch_ok:
  "hub_ok h \<Longrightarrow> (\<And>d. dg_DiagramID (f d) = dg_DiagramID d \<and> dg_Clients (f d) = dg_Clients d \<and> dg_Broadcast (f d) = dg_Broadcast d) \<Longrightarrow>
   hub_ok (upd_session s f h)"
  by (auto simp: hub_ok_def session_ok_def)

lemma refresh_sel [simp]:
  "dg_DiagramID (refresh_session now tm host d) = dg_DiagramID d" "dg_Clients (refresh_session now tm host d) = dg_Clients d"
  "dg_Broadcast (refresh_session now tm host d) = dg_Broadcast d" "dg_DeniedUsers (refresh_session now tm host d) = dg_DeniedUsers d"
  by (simp_all add: refresh_session_def Let_def)

lemma GetOrCreateSession_ok:
  assumes "hub_ok h" "GetOrCreateSession h uuid now i tm host = (h', s)"
  shows "hub_ok h'"
  using assms alloc_ok [OF assms(1), of i "new_session uuid now i tm host"]
  by (auto simp: GetOrCreateSession_def new_session_def intro: touch_ok split: option.splits)

lemma CreateSession_ok: "hub_ok h \<Longrightarrow> CreateSession h uuid now i tm host = (h', out) \<Longrightarrow> hub_ok h'"
  using alloc_ok [of h i "new_session uuid now i tm host"]
  by (auto simp: CreateSession_def new_session_def split: if_splits prod.splits)

lemma JoinSession_ok: "hub_ok h \<Longrightarrow> JoinSession h now i = (h', out) \<Longrightarrow> hub_ok h'"
  by (auto simp: JoinSession_def intro: touch_ok split: option.splits)

lemma alloc_client_ok:
  "hub_ok h \<Longrightarrow> wc_Send w = [] \<Longrightarrow> hub_ok (h\<lparr>hub_clients := (hub_clients h)(hub_next h := w), hub_next := Suc (hub_next h)\<rparr>)"
  by (fastforce simp: hub_ok_def session_ok_def)

text \<open>Connecting leaves the hub alone, or finds or makes the session, and then perhaps a client of it.\<close>

lemma HandleWS_cases:
  assumes "HandleWS uuid_parse env h ctx uuid now tm i sid = (h', out)"
  obtains "h' = h"
  | host s where "GetOrCreateSession h uuid now i tm host = (h', s)"
  | host s h1 info where "GetOrCreateSession h uuid now i tm host = (h1, s)"
      "h' = h1\<lparr>hub_clients := (hub_clients h1)(hub_next h1 := new_client s info now), hub_next := Suc (hub_next h1)\<rparr>"
  using assms unfolding HandleWS_def Let_def
  by (simp split: if_splits sum.splits prod.splits) (metis Pair_inject)+

lemma HandleWS_ok: "hub_ok h \<Longrightarrow> HandleWS uuid_parse env h ctx uuid now tm i sid = (h', out) \<Longrightarrow> hub_ok h'"
  by (erule HandleWS_cases) (auto intro: GetOrCreateSession_ok intro!: alloc_client_ok simp: new_client_def)

text \<open>A registration adds the client; everything after that only shrinks.\<close>

lemma run_Register_shrinks:
  "shrinks h (run_Register now diagram h s c) \<or>
   (wc_InternalUUID (client_of h c) = [] \<or> wc_InternalUUID (client_of h c) \<notin> set (dg_DeniedUsers (session_of h s))) \<and>
   shrinks (upd_session s (\<lambda>d. d\<lparr>dg_Clients := List.insert c (dg_Clients d), dg_LastActivity := now\<rparr>) h) (run_Register now diagram h s c)"
proof (cases "wc_InternalUUID (client_of h c) \<noteq> [] \<and> wc_InternalUUID (client_of h c) \<in> set (dg_DeniedUsers (session_of h s))")
  case True
  then show ?thesis
    by (auto simp: run_Register_def client_le_def intro!: shrinks_upd_client shrink)
next
  case False
  then show ?thesis
    by (auto simp: run_Register_def Let_def intro!: shrink split: sum.split)
qed

lemma run_Register_ok:
  assumes "hub_ok h" "c < hub_next h" "wc_Session (client_of h c) = s"
  shows "hub_ok (run_Register now diagram h s c)"
proof -
  have "hub_ok (upd_session s (\<lambda>d. d\<lparr>dg_Clients := List.insert c (dg_Clients d), dg_LastActivity := now\<rparr>) h)"
    using assms by (auto simp: hub_ok_def session_ok_def)
  with run_Register_shrinks [of h now diagram s c] assms(1) show ?thesis
    by (blast intro: shrinks_ok)
qed

lemma reorder_shrinks: "mset cs = mset (dg_Clients (session_of h s)) \<Longrightarrow> shrinks h (upd_session s (\<lambda>d. d\<lparr>dg_Clients := cs\<rparr>) h)"
  by (auto simp: shrinks_def session_le_def dest: mset_eq_setD mset_eq_imp_distinct_iff)

text \<open>A step shrinks the hub, opens or touches a session, connects a client, or registers one.\<close>

lemma collab_step_cases:
  assumes "collab_step st (h, db) (h', db')"
  obtains "shrinks h h'"
  | uuid_parse env ctx uuid now tm i sid out where "HandleWS uuid_parse env h ctx uuid now tm i sid = (h', out)"
  | uuid now i tm host out where "CreateSession h uuid now i tm host = (h', out)"
  | now i out where "JoinSession h now i = (h', out)"
  | now diagram s c where "h' = run_Register now diagram h s c" "c < hub_next h" "wc_Session (client_of h c) = s"
  using assms
proof cases
  case (receive dep c s m)
  then show ?thesis using shrinks_ProcessMessage [of h dep db s c m] that(1) by simp
qed (auto intro: that shrinks_Unregister shrinks_Broadcast shrinks_cleanups shrinks_write reorder_shrinks shrinks_refl)

lemma collab_step_ok: "collab_step st (h, db) (h', db') \<Longrightarrow> hub_ok h \<Longrightarrow> hub_ok h'"
  by (erule collab_step_cases) (auto intro: shrinks_ok HandleWS_ok CreateSession_ok JoinSession_ok run_Register_ok)

definition hub_init :: "WebSocketHub \<times> 's \<Rightarrow> bool" where
  "hub_init w \<longleftrightarrow> (\<exists>timeout sessions clients. fst w = NewWebSocketHub timeout sessions clients \<and>
     (\<forall>s. dg_Clients (sessions s) = [] \<and> dg_Broadcast (sessions s) = []) \<and> (\<forall>c. wc_Send (clients c) = []))"

interpretation hub_system: invariant_system hub_init "collab_step st" "\<lambda>w. hub_ok (fst w)" for st :: "'s DiagramStoreInterface"
proof unfold_locales
  show "hub_ok (fst w)" if "hub_init w" for w :: "WebSocketHub \<times> 's"
    using that by (auto simp: hub_init_def NewWebSocketHub_def hub_ok_def session_ok_def)
  show "hub_ok (fst w')" if "collab_step st w w'" "hub_ok (fst w)" for w w'
    using that collab_step_ok by (cases w; cases w') auto
qed



subsection \<open>Removed users stay out\<close>

definition grows :: "WebSocketHub \<Rightarrow> WebSocketHub \<Rightarrow> bool" where
  "grows h h' \<longleftrightarrow> hub_next h \<le> hub_next h' \<and> (\<forall>s<hub_next h. session_le (session_of h s) (session_of h' s)) \<and>
     (\<forall>c<hub_next h. client_of h' c = client_of h c)"

lemma grows_sessions:
  "GetOrCreateSession h uuid now i tm host = (h', s) \<Longrightarrow> grows h h'" "CreateSession h uuid now i tm host = (h', out) \<Longrightarrow> grows h h'"
  "JoinSession h now i = (h', out) \<Longrightarrow> grows h h'"
  by (auto simp: GetOrCreateSession_def CreateSession_def JoinSession_def alloc_session_def grows_def session_le_def split: option.splits if_splits)

lemma grows_HandleWS: "HandleWS uuid_parse env h ctx uuid now tm i sid = (h', out) \<Longrightarrow> grows h h'"
proof (erule HandleWS_cases)
  show "grows h h'" if "h' = h" using that by (simp add: grows_def)
qed (auto dest!: grows_sessions(1) simp: grows_def)

definition kept_out :: "nat \<Rightarrow> string \<Rightarrow> WebSocketHub \<Rightarrow> bool" where
  "kept_out s u h \<longleftrightarrow> hub_ok h \<and> s < hub_next h \<and> u \<noteq> [] \<and> u \<in> set (dg_DeniedUsers (session_of h s)) \<and>
     (\<forall>c\<in>set (dg_Clients (session_of h s)). wc_InternalUUID (client_of h c) \<noteq> u)"

lemma kept_out_shrinks: "shrinks h h' \<Longrightarrow> kept_out s u h \<Longrightarrow> kept_out s u h'"
  unfolding kept_out_def using shrinks_ok [of h h'] by (simp add: shrinks_def session_le_def client_le_def subset_iff)

lemma kept_out_grows: "grows h h' \<Longrightarrow> hub_ok h' \<Longrightarrow> kept_out s u h \<Longrightarrow> kept_out s u h'"
proof -
  assume g: "grows h h'" and ok: "hub_ok h'" and k: "kept_out s u h"
  have old: "c < hub_next h" if "c \<in> set (dg_Clients (session_of h s))" for c
    using k that by (auto simp: kept_out_def hub_ok_def session_ok_def)
  from g k have "session_le (session_of h s) (session_of h' s)" by (simp add: grows_def kept_out_def)
  then have "set (dg_Clients (session_of h' s)) \<subseteq> set (dg_Clients (session_of h s))"
    "set (dg_DeniedUsers (session_of h s)) \<subseteq> set (dg_DeniedUsers (session_of h' s))" by (simp_all add: session_le_def)
  with g k ok old show "kept_out s u h'" unfolding kept_out_def grows_def by (metis subset_iff le_trans less_le_trans)
qed

lemma kept_out_Register:
  assumes k: "kept_out s u h" and c: "c < hub_next h" "wc_Session (client_of h c) = t"
  shows "kept_out s u (run_Register now diagram h t c)"
  using run_Register_shrinks [of h now diagram t c]
proof
  assume "shrinks h (run_Register now diagram h t c)"
  then show ?thesis using k by (rule kept_out_shrinks)
next
  let ?h = "upd_session t (\<lambda>d. d\<lparr>dg_Clients := List.insert c (dg_Clients d), dg_LastActivity := now\<rparr>) h"
  assume r: "(wc_InternalUUID (client_of h c) = [] \<or> wc_InternalUUID (client_of h c) \<notin> set (dg_DeniedUsers (session_of h t))) \<and>
    shrinks ?h (run_Register now diagram h t c)"
  have "kept_out s u ?h"
    using k c r by (auto simp: kept_out_def hub_ok_def session_ok_def)
  with r show ?thesis by (blast intro: kept_out_shrinks)
qed

interpretation denial: invariant_system "\<lambda>w. kept_out s u (fst w)" "collab_step st" "\<lambda>w. kept_out s u (fst w)"
  for s u and st :: "'s DiagramStoreInterface"
proof unfold_locales
  show "kept_out s u (fst w')" if step: "collab_step st w w'" and k: "kept_out s u (fst w)" for w w'
  proof -
    obtain h db h' db' where w: "w = (h, db)" "w' = (h', db')" by fastforce
    have ok: "hub_ok h'" using step k collab_step_ok unfolding w kept_out_def by auto
    from step [unfolded w] show ?thesis
      using k [unfolded w fst_conv] unfolding w fst_conv
      by (elim collab_step_cases)
        (blast intro: kept_out_shrinks kept_out_grows [OF _ ok] grows_sessions grows_HandleWS | simp add: kept_out_Register)+
  qed
qed

text \<open>
  C10. A removed user stays out: once a user is on a session's deny list and has no connection in it, no
  sequence of steps by anybody brings one of that user's connections back into the session.
\<close>

theorem denied_stays_out:
  assumes "reachable (\<lambda>w. kept_out s u (fst w)) (collab_step st) (h, db)"
  shows "u \<in> set (dg_DeniedUsers (session_of h s)) \<and> (\<forall>c\<in>set (dg_Clients (session_of h s)). wc_InternalUUID (client_of h c) \<noteq> u)"
  using denial.reachable_inv [OF assms] by (simp add: kept_out_def)

text \<open>A session that Bob was removed from, with Alice left in it.\<close>

definition demo_removed :: WebSocketHub where
  "demo_removed = demo_pair\<lparr>hub_sessions := (\<lambda>s. if s = 0
     then (session_of demo_pair 0)\<lparr>dg_Clients := [1], dg_DeniedUsers := [''u-bob'']\<rparr> else (session_of demo_pair 0)\<lparr>dg_Clients := []\<rparr>)\<rparr>"

theorem denied_stays_out_witness:
  "\<exists>h. collab_step (GormDiagramStore False) (demo_removed, demo_ddb) (h, demo_ddb) \<and> wc_ConnClosed (client_of h 2) \<and>
     2 \<notin> set (dg_Clients (session_of h 0)) \<and> ''u-bob'' \<in> set (dg_DeniedUsers (session_of h 0))"
proof -
  let ?h = "run_Register 0 (ds_Get (GormDiagramStore False) demo_ddb (dg_DiagramID (session_of demo_removed 0))) demo_removed 0 2"
  have k: "kept_out 0 ''u-bob'' demo_removed"
    by (simp add: kept_out_def hub_ok_def session_ok_def demo_removed_def demo_pair_def demo_client_def)
  have s: "collab_step (GormDiagramStore False) (demo_removed, demo_ddb) (?h, demo_ddb)"
    by (rule collab_step.register) (simp_all add: demo_removed_def demo_pair_def demo_client_def)
  have "reachable (\<lambda>w. kept_out 0 ''u-bob'' (fst w)) (collab_step (GormDiagramStore False)) (?h, demo_ddb)"
    by (rule reach_step [where s = "(demo_removed, demo_ddb)"]) (simp_all add: k s reach_init)
  from denied_stays_out [OF this] have "''u-bob'' \<in> set (dg_DeniedUsers (session_of ?h 0))" "2 \<notin> set (dg_Clients (session_of ?h 0))"
    by (auto simp: run_Register_def demo_removed_def demo_pair_def demo_client_def)
  with s show ?thesis by (auto simp: run_Register_def demo_removed_def demo_pair_def demo_client_def)
qed

text \<open>
  Removing a participant: when the host names a participant correctly, the user is put on the deny
  list and the connection found for that user is closed. No other connection is: a second connection of
  the removed user stays open and stays a member of the session.
\<close>

theorem removal_closes_one_connection:
  assumes "rm_RemoveParticipant m = Some u" "findClientByUserID h s (usr_ProviderId u) = Some t"
    and "\<not> identity_mismatch u (client_of h t)" "SamePrincipal (client_user h c) (dg_Host (session_of h s))"
    and "usr_ProviderId u \<noteq> wc_UserID (client_of h c)"
  shows "(wc_InternalUUID (client_of h t) \<noteq> [] \<longrightarrow>
      wc_InternalUUID (client_of h t) \<in> set (dg_DeniedUsers (session_of (processRemoveParticipant h s c m) s))) \<and>
    wc_ConnClosed (client_of (processRemoveParticipant h s c m) t) \<and>
    dg_Clients (session_of (processRemoveParticipant h s c m) s) = dg_Clients (session_of h s) \<and>
    (c2 \<noteq> t \<longrightarrow> client_of (processRemoveParticipant h s c m) c2 = client_of h c2)"
  using assms
  by (auto simp: processRemoveParticipant_def validateTargetUserIdentity_def sendErrorMessage_def Let_def split: option.split)

text \<open>Bob with a second connection, client 3.\<close>

definition demo_twice :: WebSocketHub where
  "demo_twice = demo_pair\<lparr>hub_sessions := (\<lambda>s. (session_of demo_pair s)\<lparr>dg_Clients := [1, 2, 3]\<rparr>), hub_next := 4\<rparr>"

theorem removal_closes_one_connection_witness:
  "let m = no_message\<lparr>rm_RemoveParticipant := Some (toUser (demo_client ''bob''))\<rparr>;
       h = processRemoveParticipant demo_twice 0 1 m
   in ''u-bob'' \<in> set (dg_DeniedUsers (session_of h 0)) \<and> wc_ConnClosed (client_of h 2) \<and>
      3 \<in> set (dg_Clients (session_of h 0)) \<and> \<not> wc_ConnClosed (client_of h 3) \<and> wc_InternalUUID (client_of h 3) = ''u-bob''"
proof -
  let ?m = "no_message\<lparr>rm_RemoveParticipant := Some (toUser (demo_client ''bob''))\<rparr>"
  have "rm_RemoveParticipant ?m = Some (toUser (demo_client ''bob''))" by simp
  moreover have "findClientByUserID demo_twice 0 (usr_ProviderId (toUser (demo_client ''bob''))) = Some 2" by code_simp
  moreover have "\<not> identity_mismatch (toUser (demo_client ''bob'')) (client_of demo_twice 2)" by code_simp
  moreover have "SamePrincipal (client_user demo_twice 1) (dg_Host (session_of demo_twice 0))" by code_simp
  moreover have "usr_ProviderId (toUser (demo_client ''bob'')) \<noteq> wc_UserID (client_of demo_twice 1)" by code_simp
  ultimately have "(c2 \<noteq> 2 \<longrightarrow> client_of (processRemoveParticipant demo_twice 0 1 ?m) c2 = client_of demo_twice c2) \<and>
      ''u-bob'' \<in> set (dg_DeniedUsers (session_of (processRemoveParticipant demo_twice 0 1 ?m) 0)) \<and>
      wc_ConnClosed (client_of (processRemoveParticipant demo_twice 0 1 ?m) 2) \<and>
      dg_Clients (session_of (processRemoveParticipant demo_twice 0 1 ?m) 0) = [1, 2, 3]" for c2
    using removal_closes_one_connection [of ?m "toUser (demo_client ''bob'')" demo_twice 0 2 1]
    by (simp add: demo_twice_def demo_pair_def demo_client_def)
  from this [of 3] show ?thesis
    by (simp add: Let_def) (simp add: demo_twice_def demo_pair_def demo_client_def)
qed

subsection \<open>Writing\<close>


end
