(* ===== verification/Ip_Address.thy ===== *)
theory Ip_Address
  imports Db_Errors
begin

text \<open>
  IP addresses as package \<open>net\<close> has them: sixteen bytes, parsed from text by \<open>net.ParseIP\<close>, with the
  classifications the blocklist of \<open>internal/safehttp\<close> uses, and that blocklist.
\<close>

type_synonym byte = "8 word"
type_synonym net_IP = "byte list"

subsection \<open>Parsing\<close>

definition is_digit :: "char \<Rightarrow> bool" where
  "is_digit c \<longleftrightarrow> (let n = (of_char c :: nat) in 48 \<le> n \<and> n \<le> 57)"

text \<open>One field of a dotted quad: digits, no leading zero, at most 255.\<close>

definition parse_octet :: "string \<Rightarrow> byte option" where
  "parse_octet s =
    (if s \<noteq> [] \<and> list_all is_digit s \<and> (length s = 1 \<or> hd s \<noteq> CHR ''0'') \<and> nat_of_string s \<le> 255
     then Some (of_nat (nat_of_string s)) else None)"

definition parse_v4 :: "string \<Rightarrow> byte list option" where
  "parse_v4 s =
    (case map parse_octet (strings_Split s CHR ''.'') of
       [Some a, Some b, Some c, Some d] \<Rightarrow> Some [a, b, c, d] | _ \<Rightarrow> None)"

definition hex_value :: "char \<Rightarrow> nat option" where
  "hex_value c =
    (let n = (of_char c :: nat) in
     if 48 \<le> n \<and> n \<le> 57 then Some (n - 48)
     else if 97 \<le> n \<and> n \<le> 102 then Some (n - 87)
     else if 65 \<le> n \<and> n \<le> 70 then Some (n - 55) else None)"

definition hex_group :: "string \<Rightarrow> nat" where
  "hex_group s = foldl (\<lambda>n c. 16 * n + the (hex_value c)) 0 s"

text \<open>
  The groups of an IPv6 address: at most \<open>n\<close> more, the rest of the text, where the ellipsis was, and the
  bytes so far. The last two groups may be a dotted quad.
\<close>

fun v6_groups :: "nat \<Rightarrow> string \<Rightarrow> nat option \<Rightarrow> byte list \<Rightarrow> (byte list \<times> nat option) option" where
  "v6_groups 0 s ellipsis ip = (if s = [] then Some (ip, ellipsis) else None)"
| "v6_groups (Suc n) s ellipsis ip =
    (let digits = takeWhile (\<lambda>c. hex_value c \<noteq> None) s; rest = drop (length digits) s; v = hex_group digits;
         ip' = ip @ [of_nat (v div 256), of_nat (v mod 256)]
     in if digits = [] \<or> 4 < length digits then None
        else case rest of
          [] \<Rightarrow> Some (ip', ellipsis)
        | c # s' \<Rightarrow>
          if c = CHR ''.'' then
            (if ellipsis = None \<and> length ip \<noteq> 12 \<or> 16 < length ip + 4 then None
             else map_option (\<lambda>quad. (ip @ quad, ellipsis)) (parse_v4 s))
          else if c \<noteq> CHR '':'' \<or> s' = [] then None
          else if hd s' = CHR '':'' then
            (if ellipsis \<noteq> None then None
             else if tl s' = [] then Some (ip', Some (length ip'))
             else v6_groups n (tl s') (Some (length ip')) ip')
          else v6_groups n s' ellipsis ip')"

definition v6_expand :: "byte list \<times> nat option \<Rightarrow> byte list option" where
  "v6_expand r =
    (case r of
       (ip, None) \<Rightarrow> if length ip < 16 then None else Some ip
     | (ip, Some e) \<Rightarrow> if length ip < 16 then Some (take e ip @ replicate (16 - length ip) 0 @ drop e ip) else None)"

definition parse_v6 :: "string \<Rightarrow> byte list option" where
  "parse_v6 s =
    (if take 2 s = ''::'' then
       (if drop 2 s = [] then Some (replicate 16 0) else Option.bind (v6_groups 8 (drop 2 s) (Some 0) []) v6_expand)
     else Option.bind (v6_groups 8 s None []) v6_expand)"

definition v4_mapped :: "byte list \<Rightarrow> net_IP" where
  "v4_mapped quad = replicate 10 0 @ [255, 255] @ quad"

text \<open>The first of the characters dot, colon and percent decides; an address with a zone is no \<open>net.IP\<close>.\<close>

definition ParseIP :: "string \<Rightarrow> net_IP option" where
  "ParseIP s =
    (case find (\<lambda>c. c = CHR ''.'' \<or> c = CHR '':'' \<or> c = CHR ''%'') s of
       None \<Rightarrow> None
     | Some c \<Rightarrow>
       if c = CHR ''.'' then map_option v4_mapped (parse_v4 s)
       else if c = CHR '':'' \<and> CHR ''%'' \<notin> set s then parse_v6 s
       else None)"

subsection \<open>Classification\<close>

unbundle bit_operations_syntax

definition To4 :: "net_IP \<Rightarrow> byte list option" where
  "To4 ip = (if length ip = 16 \<and> take 12 ip = replicate 10 0 @ [255, 255] then Some (drop 12 ip) else None)"

definition IsLoopback :: "net_IP \<Rightarrow> bool" where
  "IsLoopback ip = (case To4 ip of Some q \<Rightarrow> q ! 0 = 127 | None \<Rightarrow> ip = replicate 15 0 @ [1])"

definition IsPrivate :: "net_IP \<Rightarrow> bool" where
  "IsPrivate ip =
    (case To4 ip of
       Some q \<Rightarrow> q ! 0 = 10 \<or> q ! 0 = 172 \<and> q ! 1 AND 0xF0 = 16 \<or> q ! 0 = 192 \<and> q ! 1 = 168
     | None \<Rightarrow> length ip = 16 \<and> ip ! 0 AND 0xFE = 0xFC)"

definition IsLinkLocalUnicast :: "net_IP \<Rightarrow> bool" where
  "IsLinkLocalUnicast ip =
    (case To4 ip of
       Some q \<Rightarrow> q ! 0 = 169 \<and> q ! 1 = 254
     | None \<Rightarrow> length ip = 16 \<and> ip ! 0 = 0xFE \<and> ip ! 1 AND 0xC0 = 0x80)"

definition IsLinkLocalMulticast :: "net_IP \<Rightarrow> bool" where
  "IsLinkLocalMulticast ip =
    (case To4 ip of
       Some q \<Rightarrow> q ! 0 = 224 \<and> q ! 1 = 0 \<and> q ! 2 = 0
     | None \<Rightarrow> length ip = 16 \<and> ip ! 0 = 0xFF \<and> ip ! 1 AND 0x0F = 0x02)"

text \<open>The reason an address is blocked stands for the error; its text also names the address.\<close>

datatype ip_block = LoopbackAddress | PrivateAddress | CloudMetadataEndpoint | LinkLocalAddress

definition CheckIP :: "net_IP \<Rightarrow> ip_block option" where
  "CheckIP ip =
    (if IsLoopback ip then Some LoopbackAddress
     else if IsPrivate ip then Some PrivateAddress
     else if ip = v4_mapped [169, 254, 169, 254] then Some CloudMetadataEndpoint
     else if IsLinkLocalUnicast ip \<or> IsLinkLocalMulticast ip then Some LinkLocalAddress
     else None)"

definition IsBlockedLocalhostName :: "string \<Rightarrow> bool" where
  "IsBlockedLocalhostName host \<longleftrightarrow> strings_ToLower host \<in> set [''localhost'', ''ip6-localhost'', ''ip6-loopback'']"

subsection \<open>Reading a dotted quad\<close>

fun dotted :: "nat list \<Rightarrow> string" where
  "dotted [] = []"
| "dotted [n] = string_of_nat n"
| "dotted (n # ns) = string_of_nat n @ ''.'' @ dotted ns"

lemma split_nodelim [simp]: "d \<notin> set s \<Longrightarrow> strings_Split s d = [s]"
  by (induction s) auto

lemma split_append: "d \<notin> set s \<Longrightarrow> strings_Split (s @ d # t) d = s # strings_Split t d"
  by (induction s) auto

lemma dot_not_nat [simp]: "CHR ''.'' \<notin> set (string_of_nat n)" "CHR '':'' \<notin> set (string_of_nat n)" "CHR ''%'' \<notin> set (string_of_nat n)"
  using string_of_nat_digit [of "CHR ''.''" n] string_of_nat_digit [of "CHR '':''" n] string_of_nat_digit [of "CHR ''%''" n] by auto

lemma string_of_nat_leading: "length (string_of_nat n) = 1 \<or> hd (string_of_nat n) \<noteq> CHR ''0''"
proof (induction n rule: string_of_nat.induct)
  case (1 n)
  show ?case
  proof (cases "n < 10")
    case True
    then show ?thesis by (simp add: string_of_nat.simps [of n])
  next
    case False
    have ne: "string_of_nat (n div 10) \<noteq> []" by simp
    have "hd (string_of_nat (n div 10)) \<noteq> CHR ''0''"
    proof (cases "n div 10 < 10")
      case True
      then show ?thesis using False by (simp add: string_of_nat.simps [of "n div 10"] char_of_eq_iff take_bit_eq_mod)
    next
      case big: False
      have "length (string_of_nat (n div 10)) \<noteq> 1" using big by (subst string_of_nat.simps) simp
      with 1 False show ?thesis by blast
    qed
    with False ne show ?thesis by (simp add: string_of_nat.simps [of n])
  qed
qed

lemma parse_octet_print: "n \<le> 255 \<Longrightarrow> parse_octet (string_of_nat n) = Some (of_nat n)"
proof -
  assume n: "n \<le> 255"
  have "string_of_nat n \<noteq> []" by (subst string_of_nat.simps) simp
  moreover have "list_all is_digit (string_of_nat n)"
    using string_of_nat_digit by (auto simp: list_all_iff is_digit_def)
  ultimately show ?thesis using n string_of_nat_leading [of n] by (auto simp: parse_octet_def)
qed

text \<open>
  Dotted quads are read back: the decimal notation of any four bytes parses to the IPv4-mapped
  address of these bytes, and that address is recognised as IPv4.
\<close>

theorem ParseIP_dotted:
  assumes "a \<le> 255" "b \<le> 255" "c \<le> 255" "d \<le> 255"
  shows "ParseIP (dotted [a, b, c, d]) = Some (v4_mapped [of_nat a, of_nat b, of_nat c, of_nat d]) \<and>
    To4 (v4_mapped [of_nat a, of_nat b, of_nat c, of_nat d]) = Some [of_nat a, of_nat b, of_nat c, of_nat d]"
proof -
  have "find (\<lambda>c. c = CHR ''.'' \<or> c = CHR '':'' \<or> c = CHR ''%'') (dotted [a, b, c, d]) = Some CHR ''.''"
  proof -
    have "find (\<lambda>c. c = CHR ''.'' \<or> c = CHR '':'' \<or> c = CHR ''%'') (string_of_nat a) = None"
      using dot_not_nat by (auto simp: find_None_iff)
    then show ?thesis by (simp add: find_append)
  qed
  moreover have "parse_v4 (dotted [a, b, c, d]) = Some [of_nat a, of_nat b, of_nat c, of_nat d]"
    using assms by (simp add: parse_v4_def split_append parse_octet_print)
  ultimately show ?thesis by (simp add: ParseIP_def To4_def v4_mapped_def)
qed

theorem ParseIP_dotted_witness:
  "ParseIP ''169.254.169.254'' = Some (v4_mapped [169, 254, 169, 254]) \<and> CheckIP (v4_mapped [169, 254, 169, 254]) = Some CloudMetadataEndpoint"
proof -
  have "dotted [169, 254, 169, 254] = ''169.254.169.254''" by code_simp
  then show ?thesis using ParseIP_dotted [of 169 254 169 254] by (simp add: CheckIP_def IsLoopback_def IsPrivate_def To4_def v4_mapped_def)
qed

subsection \<open>The blocklist\<close>

definition v4_number :: "byte list \<Rightarrow> nat" where
  "v4_number q = foldl (\<lambda>n b. 256 * n + unat b) 0 q"

text \<open>The documented ranges: loopback, RFC 1918, link-local (with the metadata endpoint) and link-local multicast.\<close>

definition blocked_v4 :: "(byte list \<times> byte list) list" where
  "blocked_v4 = [([127, 0, 0, 0], [127, 255, 255, 255]), ([10, 0, 0, 0], [10, 255, 255, 255]),
     ([172, 16, 0, 0], [172, 31, 255, 255]), ([192, 168, 0, 0], [192, 168, 255, 255]),
     ([169, 254, 0, 0], [169, 254, 255, 255]), ([224, 0, 0, 0], [224, 0, 0, 255])]"

lemma byte_bound: "unat (b :: byte) < 256"
  using unsigned_less [of b, where ?'a = nat] by simp

lemma high_nibble: "(b :: byte) AND 0xF0 = 16 \<longleftrightarrow> 16 \<le> unat b \<and> unat b \<le> 31"
proof -
  have "list_all (\<lambda>n. ((of_nat n :: byte) AND 0xF0 = 16) = (16 \<le> n \<and> n \<le> 31)) [0..<256]" by code_simp
  then have "\<forall>n\<in>{0..<256}. ((of_nat n :: byte) AND 0xF0 = 16) = (16 \<le> n \<and> n \<le> 31)" by (simp add: list_all_iff)
  from bspec [OF this, of "unat b"] show ?thesis using byte_bound [of b] by simp
qed

text \<open>Intervals of 32-bit numbers given by their leading bytes.\<close>

lemma leading_byte:
  fixes a b c d :: nat
  assumes "b < 256" "c < 256" "d < 256"
  shows "16777216 * k \<le> 16777216 * a + 65536 * b + 256 * c + d \<and> 16777216 * a + 65536 * b + 256 * c + d < 16777216 * (k + 1) \<longleftrightarrow> a = k"
  using assms by auto

lemma intervals:
  fixes a b c d :: nat
  assumes "a < 256" "b < 256" "c < 256" "d < 256"
  defines "N \<equiv> 16777216 * a + 65536 * b + 256 * c + d"
  shows interval8: "16777216 * k \<le> N \<and> N \<le> 16777216 * k + 16777215 \<longleftrightarrow> a = k"
    and interval12: "2886729728 \<le> N \<and> N \<le> 2887778303 \<longleftrightarrow> a = 172 \<and> 16 \<le> b \<and> b \<le> 31"
    and interval16: "l < 256 \<Longrightarrow> 16777216 * k + 65536 * l \<le> N \<and> N \<le> 16777216 * k + 65536 * l + 65535 \<longleftrightarrow> a = k \<and> b = l"
    and interval24: "3758096384 \<le> N \<and> N \<le> 3758096639 \<longleftrightarrow> a = 224 \<and> b = 0 \<and> c = 0"
proof -
  have lead: "a = k" if "16777216 * k \<le> N" "N < 16777216 * (k + 1)" for k
    using leading_byte [OF assms(2-4), of k a] that by (simp add: N_def)
  show "16777216 * k \<le> N \<and> N \<le> 16777216 * k + 16777215 \<longleftrightarrow> a = k"
    using leading_byte [OF assms(2-4), of k a] by (simp add: N_def) linarith
  show "2886729728 \<le> N \<and> N \<le> 2887778303 \<longleftrightarrow> a = 172 \<and> 16 \<le> b \<and> b \<le> 31"
  proof
    assume h: "2886729728 \<le> N \<and> N \<le> 2887778303"
    then have "a = 172" by (intro lead) simp_all
    with h assms(2-4) show "a = 172 \<and> 16 \<le> b \<and> b \<le> 31" unfolding N_def by auto
  qed (use assms(2-4) in \<open>auto simp: N_def\<close>)
  show "16777216 * k + 65536 * l \<le> N \<and> N \<le> 16777216 * k + 65536 * l + 65535 \<longleftrightarrow> a = k \<and> b = l" if "l < 256"
  proof
    assume h: "16777216 * k + 65536 * l \<le> N \<and> N \<le> 16777216 * k + 65536 * l + 65535"
    then have "a = k" by (intro lead) (use that in auto)
    with h assms(2-4) that show "a = k \<and> b = l" unfolding N_def by auto
  qed (use assms(2-4) that in \<open>auto simp: N_def\<close>)
  show "3758096384 \<le> N \<and> N \<le> 3758096639 \<longleftrightarrow> a = 224 \<and> b = 0 \<and> c = 0"
  proof
    assume h: "3758096384 \<le> N \<and> N \<le> 3758096639"
    then have "a = 224" by (intro lead) simp_all
    with h assms(2-4) show "a = 224 \<and> b = 0 \<and> c = 0" unfolding N_def by auto
  qed (use assms(2-4) in \<open>auto simp: N_def\<close>)
qed

lemma quad_cases: "length (q :: byte list) = 4 \<Longrightarrow> \<exists>a b c d. q = [a, b, c, d]"
  by (auto simp: length_Suc_conv numeral_eq_Suc)

text \<open>
  C30. The blocklist is exact on IPv4: an address is refused exactly when, as a 32-bit number, it lies in
  one of the ranges 127.0.0.0/8, 10.0.0.0/8, 172.16.0.0/12, 192.168.0.0/16, 169.254.0.0/16 and
  224.0.0.0/24.
\<close>

theorem CheckIP_v4_exact:
  assumes "length q = 4"
  shows "CheckIP (v4_mapped q) \<noteq> None \<longleftrightarrow>
    (\<exists>(lo, hi) \<in> set blocked_v4. v4_number lo \<le> v4_number q \<and> v4_number q \<le> v4_number hi)"
proof -
  obtain a b c d where q: "q = [a, b, c, d]" using quad_cases [OF assms] by blast
  note bd = byte_bound [of a] byte_bound [of b] byte_bound [of c] byte_bound [of d]
  have n: "v4_number q = 16777216 * unat a + 65536 * unat b + 256 * unat c + unat d" by (simp add: q v4_number_def)
  have u: "(x = 127) = (unat x = 127)" "(x = 10) = (unat x = 10)" "(x = 172) = (unat x = 172)" "(x = 192) = (unat x = 192)"
    "(x = 168) = (unat x = 168)" "(x = 169) = (unat x = 169)" "(x = 254) = (unat x = 254)" "(x = 224) = (unat x = 224)"
    "(x = 0) = (unat x = 0)" for x :: byte
    by (simp_all add: word_unat_eq_iff)
  have "CheckIP (v4_mapped q) \<noteq> None \<longleftrightarrow> unat a = 127 \<or> unat a = 10 \<or> unat a = 172 \<and> 16 \<le> unat b \<and> unat b \<le> 31 \<or>
      unat a = 192 \<and> unat b = 168 \<or> unat a = 169 \<and> unat b = 254 \<or> unat a = 224 \<and> unat b = 0 \<and> unat c = 0"
    by (auto simp: CheckIP_def IsLoopback_def IsPrivate_def IsLinkLocalUnicast_def IsLinkLocalMulticast_def To4_def v4_mapped_def q high_nibble u)
  moreover have "(\<exists>(lo, hi) \<in> set blocked_v4. v4_number lo \<le> v4_number q \<and> v4_number q \<le> v4_number hi) \<longleftrightarrow>
      unat a = 127 \<or> unat a = 10 \<or> unat a = 172 \<and> 16 \<le> unat b \<and> unat b \<le> 31 \<or>
      unat a = 192 \<and> unat b = 168 \<or> unat a = 169 \<and> unat b = 254 \<or> unat a = 224 \<and> unat b = 0 \<and> unat c = 0"
    unfolding n blocked_v4_def using interval8 [OF bd, of 127] interval8 [OF bd, of 10]
      interval16 [OF bd, of 168 192] interval16 [OF bd, of 254 169] interval12 [OF bd] interval24 [OF bd]
    by (simp add: v4_number_def)
  ultimately show ?thesis by simp
qed

theorem CheckIP_v4_exact_witness:
  "CheckIP (v4_mapped [172, 31, 0, 1]) \<noteq> None \<and> CheckIP (v4_mapped [172, 32, 0, 1]) = None"
  using CheckIP_v4_exact [of "[172, 31, 0, 1]"] CheckIP_v4_exact [of "[172, 32, 0, 1]"]
  by (simp add: blocked_v4_def v4_number_def)

text \<open>
  The unspecified address is not blocked: \<open>0.0.0.0\<close> and \<open>::\<close>, which reach the host itself when dialed,
  pass the blocklist, and so do the shared address space of carriers and IPv4 broadcast.
\<close>

theorem unspecified_not_blocked:
  "CheckIP (v4_mapped [0, 0, 0, 0]) = None \<and> CheckIP (replicate 16 0) = None \<and> CheckIP (v4_mapped [100, 64, b, c]) = None \<and>
   CheckIP (v4_mapped [255, 255, 255, 255]) = None"
proof -
  have "CheckIP (v4_mapped [0, 0, 0, 0]) = None" "CheckIP (replicate 16 0) = None" "CheckIP (v4_mapped [255, 255, 255, 255]) = None"
    by code_simp+
  then show ?thesis
    by (simp add: CheckIP_def IsLoopback_def IsPrivate_def IsLinkLocalUnicast_def IsLinkLocalMulticast_def To4_def v4_mapped_def)
qed

end
