(* ===== verification/Outbound_Http.thy ===== *)
theory Outbound_Http
  imports Ip_Address
begin

text \<open>
  Where the server may connect to: the URI validator and the pinning HTTP client
  (\<open>api/ssrf_validator.go\<close>, \<open>api/safe_http_client.go\<close>), the pinning dialer
  (\<open>internal/safehttp/safehttp.go\<close>), the webhook URL validator (\<open>api/webhook_url_validator.go\<close>) and the
  list of allowed client callbacks (\<open>auth/client_callback_allowlist.go\<close>).

  What \<open>url.Parse\<close> makes of a raw URL, what \<open>net.SplitHostPort\<close> makes of an address, DNS resolution,
  IDNA, glob and regular expression matching are arguments. Errors keep the text up to what is printed of
  a map or an address.
\<close>

subsection \<open>URI validator\<close>

record URL =
  url_Scheme :: string
  url_Host :: string
  url_Hostname :: string
  url_Port :: string

record URIValidator =
  uv_exactHosts :: "string list"
  uv_wildcardHosts :: "string list"
  uv_schemes :: "string list"
  uv_hasAllowlist :: bool

definition strings_HasSuffix :: "string \<Rightarrow> string \<Rightarrow> bool" where
  "strings_HasSuffix s p \<longleftrightarrow> length p \<le> length s \<and> drop (length s - length p) s = p"

fun strings_Cut_dot :: "string \<Rightarrow> (string \<times> string) option" where
  "strings_Cut_dot [] = None"
| "strings_Cut_dot (c # s) = (if c = CHR ''.'' then Some ([], s) else map_option (\<lambda>(a, b). (c # a, b)) (strings_Cut_dot s))"

definition allowlist_entry :: "string list \<times> string list \<Rightarrow> string \<Rightarrow> string list \<times> string list" where
  "allowlist_entry v raw =
    (case v of (exact, wild) \<Rightarrow>
     let entry = strings_ToLower (strings_TrimSpace raw) in
     if entry = [] then v
     else if strings_HasPrefix entry ''*.'' then
       (let suffix = drop 2 entry in if suffix = [] \<or> CHR ''*'' \<in> set suffix then v else (exact, wild @ [suffix]))
     else if CHR ''*'' \<in> set entry then v
     else (List.insert entry exact, wild))"

definition NewURIValidator :: "string list \<Rightarrow> string list \<Rightarrow> URIValidator" where
  "NewURIValidator allowlist schemes =
    (let (exact, wild) = foldl allowlist_entry ([], []) allowlist
     in \<lparr>uv_exactHosts = exact, uv_wildcardHosts = wild,
         uv_schemes = (if schemes = [] then [''https''] else map strings_ToLower schemes),
         uv_hasAllowlist = (exact \<noteq> [] \<or> wild \<noteq> [])\<rparr>)"

definition matchHost :: "URIValidator \<Rightarrow> string \<Rightarrow> bool" where
  "matchHost v host =
    (if \<not> uv_hasAllowlist v then True
     else let hostname = strings_ToLower host in
       if hostname \<in> set (uv_exactHosts v) then True
       else if (case strings_Cut_dot hostname of Some (_, parent) \<Rightarrow> parent \<in> set (uv_exactHosts v) | None \<Rightarrow> False) then True
       else list_ex (\<lambda>suffix. hostname = suffix \<or> strings_HasSuffix hostname (CHR ''.'' # suffix)) (uv_wildcardHosts v))"

definition check_url :: "URIValidator \<Rightarrow> go_error + URL \<Rightarrow> go_error + URL" where
  "check_url v parsed =
    (case parsed of
       Inl e \<Rightarrow> Inl (errorf_wrap ''invalid URL: '' e)
     | Inr u \<Rightarrow>
       if url_Scheme u = [] \<or> url_Host u = [] then Inl (errors_New ''invalid URL: missing scheme or host'')
       else if strings_ToLower (url_Scheme u) \<notin> set (uv_schemes v) then Inl (errors_New (''unsupported scheme: '' @ url_Scheme u))
       else Inr u)"

definition not_in_allowlist :: "string \<Rightarrow> go_error" where
  "not_in_allowlist host = errors_New (''host '' @ strconv_Quote host @ '' is not in allowlist'')"

definition ValidateReference :: "URIValidator \<Rightarrow> go_error + URL \<Rightarrow> go_error option" where
  "ValidateReference v parsed =
    (case check_url v parsed of
       Inl e \<Rightarrow> Some e
     | Inr u \<Rightarrow> if uv_hasAllowlist v \<and> \<not> matchHost v (url_Hostname u) then Some (not_in_allowlist (url_Hostname u)) else None)"

definition block_error :: "ip_block \<Rightarrow> go_error" where
  "block_error b = errors_New (case b of
       LoopbackAddress \<Rightarrow> ''blocked: loopback address'' | PrivateAddress \<Rightarrow> ''blocked: private address''
     | CloudMetadataEndpoint \<Rightarrow> ''blocked: cloud metadata endpoint'' | LinkLocalAddress \<Rightarrow> ''blocked: link-local address'')"

text \<open>The loop over the resolved addresses: a text that is no address is skipped.\<close>

definition checkIP_text :: "string \<Rightarrow> go_error option" where
  "checkIP_text s = (case ParseIP s of None \<Rightarrow> None | Some ip \<Rightarrow> map_option block_error (CheckIP ip))"

definition check_resolved :: "string list \<Rightarrow> go_error option" where
  "check_resolved ips = check_each (\<lambda>_. checkIP_text) 0 ips"

definition URI_Validate :: "(string \<Rightarrow> go_error + string list) \<Rightarrow> URIValidator \<Rightarrow> go_error + URL \<Rightarrow> go_error option" where
  "URI_Validate LookupHost v parsed =
    (case check_url v parsed of
       Inl e \<Rightarrow> Some e
     | Inr u \<Rightarrow>
       (let hostname = url_Hostname u in
        if uv_hasAllowlist v then (if matchHost v hostname then None else Some (not_in_allowlist hostname))
        else if IsBlockedLocalhostName hostname then Some (errors_New ''blocked: localhost is not allowed'')
        else case ParseIP hostname of
          Some ip \<Rightarrow> map_option block_error (CheckIP ip)
        | None \<Rightarrow>
          (case LookupHost hostname of
             Inl e \<Rightarrow> Some (errors_New (''cannot resolve hostname: '' @ hostname))
           | Inr ips \<Rightarrow> check_resolved ips)))"

subsection \<open>Pinning\<close>

text \<open>What is dialed: the text of a parsed address, or a resolver's answer as it came.\<close>

datatype pin = PinAddress net_IP | PinText string

definition resolveAndPin ::
  "(string \<Rightarrow> go_error + string list) \<Rightarrow> URIValidator \<Rightarrow> go_error + URL \<Rightarrow> go_error + pin \<times> string \<times> string" where
  "resolveAndPin LookupHost v parsed =
    (case check_url v parsed of
       Inl e \<Rightarrow> Inl e
     | Inr u \<Rightarrow>
       (let scheme = strings_ToLower (url_Scheme u); host = url_Hostname u;
            port = (if url_Port u \<noteq> [] then Some (url_Port u)
                    else if scheme = ''https'' then Some ''443'' else if scheme = ''http'' then Some ''80'' else None)
        in case port of
          None \<Rightarrow> Inl (errors_New (''cannot infer port for scheme: '' @ scheme))
        | Some p \<Rightarrow>
          (let hostnameLower = strings_ToLower host; allowlistMatch = (uv_hasAllowlist v \<and> matchHost v hostnameLower)
           in if uv_hasAllowlist v \<and> \<not> allowlistMatch then Inl (not_in_allowlist host)
              else case ParseIP host of
                Some literal \<Rightarrow>
                  (case (if allowlistMatch then None else CheckIP literal) of
                     Some b \<Rightarrow> Inl (block_error b)
                   | None \<Rightarrow> Inr (PinAddress literal, p, host))
              | None \<Rightarrow>
                if \<not> uv_hasAllowlist v \<and> IsBlockedLocalhostName hostnameLower then Inl (errors_New ''blocked: localhost is not allowed'')
                else case LookupHost host of
                  Inl e \<Rightarrow> Inl (errors_New (''cannot resolve hostname: '' @ host))
                | Inr [] \<Rightarrow> Inl (errors_New (''no IPs resolved for: '' @ host))
                | Inr (ip # ips) \<Rightarrow>
                  (case (if allowlistMatch then None else check_resolved (ip # ips)) of
                     Some e \<Rightarrow> Inl e
                   | None \<Rightarrow> Inr (PinText ip, p, host)))))"

text \<open>The dialer of package \<open>safehttp\<close>: \<open>addr\<close> is what \<open>net.SplitHostPort\<close> makes of the address; gives host and port to dial.\<close>

definition DialContext ::
  "(string \<Rightarrow> go_error + string list) \<Rightarrow> (string \<Rightarrow> bool) option \<Rightarrow> go_error + string \<times> string \<Rightarrow> go_error + string \<times> string" where
  "DialContext LookupHost allowHost addr =
    (case addr of
       Inl e \<Rightarrow> Inl (errorf_wrap ''safehttp: invalid dial address: '' e)
     | Inr (host, port) \<Rightarrow>
       if (case allowHost of Some f \<Rightarrow> f host | None \<Rightarrow> False) then Inr (host, port)
       else case ParseIP host of
         Some ip \<Rightarrow> (case CheckIP ip of Some b \<Rightarrow> Inl (block_error b) | None \<Rightarrow> Inr (host, port))
       | None \<Rightarrow>
         if IsBlockedLocalhostName host then Inl (errors_New ''blocked: localhost is not allowed'')
         else case LookupHost host of
           Inl e \<Rightarrow> Inl (errors_New (''cannot resolve hostname: '' @ host))
         | Inr [] \<Rightarrow> Inl (errors_New (''no IPs resolved for: '' @ host))
         | Inr (ip # ips) \<Rightarrow> (case check_resolved (ip # ips) of Some e \<Rightarrow> Inl e | None \<Rightarrow> Inr (ip, port)))"

text \<open>The body read and whether it was cut off.\<close>

definition readCappedBody :: "byte list \<Rightarrow> int \<Rightarrow> byte list \<times> bool" where
  "readCappedBody r maxBytes =
    (if maxBytes \<le> 0 then (r, False)
     else let buf = take (nat (maxBytes + 1)) r in
       if int (length buf) > maxBytes then (take (nat maxBytes) buf, True) else (buf, False))"

subsection \<open>Client callbacks\<close>

definition NewClientCallbackAllowList :: "string list \<Rightarrow> string list" where
  "NewClientCallbackAllowList patterns = filter (\<lambda>p. p \<noteq> []) (map strings_TrimSpace patterns)"

definition callback_Allowed :: "string list \<Rightarrow> string \<Rightarrow> bool" where
  "callback_Allowed patterns url =
     list_ex (\<lambda>p. if strings_HasSuffix p ''*'' then strings_HasPrefix url (butlast p) else p = url) patterns"

subsection \<open>Webhook URLs\<close>

definition isAlphanumeric :: "char \<Rightarrow> bool" where
  "isAlphanumeric c \<longleftrightarrow> (let n = (of_char c :: nat) in 97 \<le> n \<and> n \<le> 122 \<or> 65 \<le> n \<and> n \<le> 90 \<or> 48 \<le> n \<and> n \<le> 57)"

definition validateDNSLabel :: "string \<Rightarrow> go_error option" where
  "validateDNSLabel label =
    (if length label < 1 \<or> length label > 63 then Some (errors_New (''label length must be 1-63 characters: '' @ string_of_nat (length label)))
     else if \<not> isAlphanumeric (hd label) then Some (errors_New (''label must start with alphanumeric character: '' @ squote [hd label]))
     else if \<not> isAlphanumeric (last label) then Some (errors_New (''label must end with alphanumeric character: '' @ squote [last label]))
     else check_each (\<lambda>i ch. if i = 0 \<or> i = length label - 1 then None
            else if \<not> isAlphanumeric ch \<and> ch \<noteq> CHR ''-'' then
              Some (errors_New (''label contains invalid character: '' @ squote [ch] @ '' (only alphanumeric and hyphen allowed)''))
            else None) 0 label)"

definition validateDNSHostname :: "(string \<Rightarrow> go_error + string) \<Rightarrow> string \<Rightarrow> go_error option" where
  "validateDNSHostname ToASCII hostname =
    (case ToASCII hostname of
       Inl e \<Rightarrow> Some (errorf_wrap ''invalid IDN hostname: '' e)
     | Inr ascii \<Rightarrow>
       if length ascii > 253 then Some (errors_New (''hostname too long (max 253 characters): '' @ string_of_nat (length ascii)))
       else if ascii = [] then Some (errors_New ''hostname cannot be empty'')
       else check_each (\<lambda>_ label. map_option (errorf_wrap (''invalid label '' @ squote label @ '': '')) (validateDNSLabel label))
              0 (strings_Split ascii CHR ''.''))"

record DenyListEntry =
  dl_Pattern :: string
  dl_PatternType :: string
  dl_Description :: string

text \<open>A pattern that does not compile is a matcher's error.\<close>

definition checkDenyList ::
  "(string \<Rightarrow> string \<Rightarrow> go_error + bool) \<Rightarrow> (string \<Rightarrow> string \<Rightarrow> go_error + bool) \<Rightarrow> go_error + DenyListEntry list \<Rightarrow> string \<Rightarrow> go_error option" where
  "checkDenyList matchGlob matchRegex listed hostname =
    (case listed of
       Inl e \<Rightarrow> Some (errorf_wrap ''unable to verify URL against security policy: '' e)
     | Inr entries \<Rightarrow>
       (let normalizedHostname = strings_ToLower hostname in
        check_each (\<lambda>_ entry.
          (case (if dl_PatternType entry = ''glob'' then matchGlob normalizedHostname (strings_ToLower (dl_Pattern entry))
                 else if dl_PatternType entry = ''regex'' then matchRegex normalizedHostname (dl_Pattern entry)
                 else Inr False) of
             Inr True \<Rightarrow> Some (errors_New (''URL blocked: '' @
                (if dl_Description entry = [] then ''blocked by security policy'' else dl_Description entry) @
                '' (pattern: '' @ dl_Pattern entry @ '')''))
           | _ \<Rightarrow> None)) 0 entries))"

definition ValidateWebhookURL ::
  "(string \<Rightarrow> go_error + URL) \<Rightarrow> (string \<Rightarrow> go_error + string) \<Rightarrow> (string \<Rightarrow> string \<Rightarrow> go_error + bool) \<Rightarrow>
   (string \<Rightarrow> string \<Rightarrow> go_error + bool) \<Rightarrow> go_error + DenyListEntry list \<Rightarrow> bool \<Rightarrow> string \<Rightarrow> go_error option" where
  "ValidateWebhookURL url_Parse ToASCII matchGlob matchRegex listed allowHTTP rawURL =
    (case (if allowHTTP then
             (if length rawURL < 7 then Some ''URL too short: must start with http:// or https://''
              else if strings_ToLower (take 7 rawURL) \<noteq> ''http://'' \<and> \<not> (length rawURL \<ge> 8 \<and> strings_ToLower (take 8 rawURL) = ''https://'')
                then Some (''URL must start with http:// or https:// (found: '' @ take 7 rawURL @ '')'')
              else None)
           else
             (if length rawURL < 8 then Some ''URL too short: must start with https://''
              else if strings_ToLower (take 8 rawURL) \<noteq> ''https://'' then Some (''URL must start with https:// (found: '' @ take 8 rawURL @ '')'')
              else None)) of
       Some msg \<Rightarrow> Some (errors_New msg)
     | None \<Rightarrow>
       (case url_Parse rawURL of
          Inl e \<Rightarrow> Some (errorf_wrap ''invalid URL format: '' e)
        | Inr u \<Rightarrow>
          if url_Hostname u = [] then Some (errors_New ''URL must contain a valid hostname'')
          else case validateDNSHostname ToASCII (url_Hostname u) of
            Some e \<Rightarrow> Some (errorf_wrap ''invalid hostname: '' e)
          | None \<Rightarrow> checkDenyList matchGlob matchRegex listed (url_Hostname u)))"

subsection \<open>Only checked addresses are dialed\<close>

lemma check_resolved_None: "check_resolved ips = None \<longleftrightarrow> (\<forall>s \<in> set ips. \<forall>ip. ParseIP s = Some ip \<longrightarrow> CheckIP ip = None)"
  unfolding check_resolved_def
  by (subst check_each_None_uniform [where P = "\<lambda>s. \<forall>ip. ParseIP s = Some ip \<longrightarrow> CheckIP ip = None"])
    (auto simp: checkIP_text_def split: option.splits)

lemma char_ToLower_idem [simp]: "char_ToLower (char_ToLower c) = char_ToLower c"
proof -
  have "of_char (char_of (n + 32) :: char) = n + 32" if "n \<le> 90" for n :: nat
    using that by (simp add: of_char_of)
  then show ?thesis by (simp add: char_ToLower_def Let_def)
qed

lemma strings_ToLower_idem [simp]: "strings_ToLower (strings_ToLower s) = strings_ToLower s"
  by (simp add: strings_ToLower_def)

lemma IsBlockedLocalhostName_lower [simp]: "IsBlockedLocalhostName (strings_ToLower s) = IsBlockedLocalhostName s"
  by (simp add: IsBlockedLocalhostName_def)


definition demo_url :: "string \<Rightarrow> URL" where
  "demo_url host = \<lparr>url_Scheme = ''https'', url_Host = host, url_Hostname = host, url_Port = []\<rparr>"

definition demo_lookup :: "string \<Rightarrow> go_error + string list" where
  "demo_lookup host = (if host = ''example.com'' then Inr [''93.184.216.34'']
     else if host = ''rebind.example'' then Inr [''93.184.216.34'', ''10.0.0.1'']
     else if host = ''zone.example'' then Inr [''fe80::1%eth0''] else Inl (errors_New ''no such host''))"


lemma split_char: "x \<in> set s \<Longrightarrow> x \<noteq> d \<Longrightarrow> \<exists>p \<in> set (strings_Split s d). x \<in> set p"
  by (induction s) (fastforce split: list.splits)+

text \<open>
  A resolved address with a zone is dialed unchecked: it is no \<open>net.IP\<close>, so the loop skips it, and
  when it is the only answer it is what the client connects to, link-local or not.
\<close>

theorem zone_address_unchecked:
  assumes "\<not> uv_hasAllowlist v" "check_url v (Inr u) = Inr u" "url_Port u \<noteq> []" "ParseIP (url_Hostname u) = None"
    and "\<not> IsBlockedLocalhostName (url_Hostname u)" "LookupHost (url_Hostname u) = Inr [s]" "CHR ''%'' \<in> set s"
  shows "resolveAndPin LookupHost v (Inr u) = Inr (PinText s, url_Port u, url_Hostname u)"
proof -
  have "ParseIP s = None \<or> (\<exists>q. parse_v4 s = Some q)"
    using assms(7) by (auto simp: ParseIP_def split: option.splits)
  moreover have "parse_v4 s = None"
  proof (rule ccontr)
    assume "parse_v4 s \<noteq> None"
    then have d: "list_all is_digit p" if "p \<in> set (strings_Split s CHR ''.'')" for p
      using that by (auto simp: parse_v4_def parse_octet_def split: list.splits option.splits if_splits)
    from split_char [OF assms(7), of "CHR ''.''"] obtain p where "p \<in> set (strings_Split s CHR ''.'')" "CHR ''%'' \<in> set p" by auto
    with d have "is_digit CHR ''%''" by (auto simp: list_all_iff)
    moreover have "\<not> is_digit CHR ''%''" by code_simp
    ultimately show False by simp
  qed
  ultimately have "check_resolved [s] = None" by (auto simp: check_resolved_None)
  with assms show ?thesis by (simp add: resolveAndPin_def Let_def)
qed

theorem zone_address_unchecked_witness:
  "resolveAndPin demo_lookup (NewURIValidator [] []) (Inr ((demo_url ''zone.example'')\<lparr>url_Port := ''443''\<rparr>)) =
     Inr (PinText ''fe80::1%eth0'', ''443'', ''zone.example'')"
proof -
  let ?u = "(demo_url ''zone.example'')\<lparr>url_Port := ''443''\<rparr>"
  have "resolveAndPin demo_lookup (NewURIValidator [] []) (Inr ?u) = Inr (PinText ''fe80::1%eth0'', url_Port ?u, url_Hostname ?u)"
  proof (rule zone_address_unchecked)
    show "\<not> uv_hasAllowlist (NewURIValidator [] [])" "check_url (NewURIValidator [] []) (Inr ?u) = Inr ?u"
      "ParseIP (url_Hostname ?u) = None" "\<not> IsBlockedLocalhostName (url_Hostname ?u)"
      "demo_lookup (url_Hostname ?u) = Inr [''fe80::1%eth0'']" by code_simp+
  qed simp_all
  then show ?thesis by (simp add: demo_url_def)
qed

subsection \<open>The dialer agrees with the client\<close>

text \<open>
  The two implementations of pinning agree: for an accepted URL with a port and no allowlist, the dialer
  of package \<open>safehttp\<close> refuses the same targets and otherwise dials the same address.
\<close>

theorem dialer_agrees:
  assumes "\<not> uv_hasAllowlist v" "check_url v (Inr u) = Inr u" "url_Port u \<noteq> []"
  shows "DialContext LookupHost None (Inr (url_Hostname u, url_Port u)) =
    (case resolveAndPin LookupHost v (Inr u) of
       Inl e \<Rightarrow> Inl e
     | Inr (PinAddress ip, port, host) \<Rightarrow> Inr (url_Hostname u, url_Port u)
     | Inr (PinText s, port, host) \<Rightarrow> Inr (s, url_Port u))"
proof -
  let ?host = "url_Hostname u" and ?port = "url_Port u"
  have pin: "resolveAndPin LookupHost v (Inr u) =
      (case ParseIP ?host of
         Some literal \<Rightarrow> (case CheckIP literal of Some b \<Rightarrow> Inl (block_error b) | None \<Rightarrow> Inr (PinAddress literal, ?port, ?host))
       | None \<Rightarrow>
         if IsBlockedLocalhostName ?host then Inl (errors_New ''blocked: localhost is not allowed'')
         else case LookupHost ?host of
           Inl e \<Rightarrow> Inl (errors_New (''cannot resolve hostname: '' @ ?host))
         | Inr [] \<Rightarrow> Inl (errors_New (''no IPs resolved for: '' @ ?host))
         | Inr (ip # ips) \<Rightarrow> (case check_resolved (ip # ips) of Some e \<Rightarrow> Inl e | None \<Rightarrow> Inr (PinText ip, ?port, ?host)))"
    using assms by (cases "ParseIP ?host"; cases "LookupHost ?host") (simp_all add: resolveAndPin_def Let_def split: list.split)
  show ?thesis
    unfolding pin DialContext_def
    by (cases "ParseIP ?host"; cases "LookupHost ?host") (simp_all split: option.split list.split)
qed

subsection \<open>Hosts on the allowlist\<close>

lemma strings_Cut_dot_Some: "strings_Cut_dot s = Some (a, b) \<longleftrightarrow> s = a @ CHR ''.'' # b \<and> CHR ''.'' \<notin> set a"
proof (induction s arbitrary: a)
  case (Cons c s)
  show ?case
  proof (cases a)
    case (Cons c' a')
    then show ?thesis using Cons.IH [of a'] by auto
  qed auto
qed simp

lemma strings_HasSuffix_iff: "strings_HasSuffix s p \<longleftrightarrow> (\<exists>u. s = u @ p)"
proof
  assume "strings_HasSuffix s p"
  then show "\<exists>u. s = u @ p" unfolding strings_HasSuffix_def by (metis append_take_drop_id)
qed (auto simp: strings_HasSuffix_def)

text \<open>
  What an allowlist admits: regardless of case, a host that is an exact entry or one label below one,
  or that is the domain of a wildcard entry or anything below it; nothing else.
\<close>

theorem matchHost_iff:
  "matchHost v host = (if uv_hasAllowlist v then strings_ToLower host \<in> set (uv_exactHosts v) \<or>
     (\<exists>label parent. CHR ''.'' \<notin> set label \<and> strings_ToLower host = label @ CHR ''.'' # parent \<and> parent \<in> set (uv_exactHosts v)) \<or>
     (\<exists>suffix \<in> set (uv_wildcardHosts v). strings_ToLower host = suffix \<or> (\<exists>u. strings_ToLower host = u @ CHR ''.'' # suffix))
     else True)"
proof -
  have "(case strings_Cut_dot h of Some (_, parent) \<Rightarrow> P parent | None \<Rightarrow> False) \<longleftrightarrow>
      (\<exists>label parent. CHR ''.'' \<notin> set label \<and> h = label @ CHR ''.'' # parent \<and> P parent)" for h P
  proof -
    have "(case strings_Cut_dot h of Some (_, parent) \<Rightarrow> P parent | None \<Rightarrow> False) \<longleftrightarrow>
        (\<exists>label parent. strings_Cut_dot h = Some (label, parent) \<and> P parent)" by (auto split: option.split)
    then show ?thesis by (simp only: strings_Cut_dot_Some) blast
  qed
  then show ?thesis
    unfolding matchHost_def Let_def by (simp add: list_ex_iff strings_HasSuffix_iff) blast
qed

subsection \<open>Capped bodies\<close>

text \<open>
  Reading with a positive cap gives the first \<open>maxBytes\<close> bytes at most, and says so exactly when there
  were more.
\<close>

theorem readCappedBody_bound:
  assumes "0 < maxBytes" "readCappedBody r maxBytes = (body, truncated)"
  shows "body = take (nat maxBytes) r \<and> (truncated \<longleftrightarrow> int (length r) > maxBytes)"
  using assms by (auto simp: readCappedBody_def Let_def min_def split: if_splits)

end
