(* ===== verification/Sliding_Window.thy ===== *)
theory Sliding_Window
  imports Db_Errors
begin

text \<open>
  The sliding window every rate limiter embeds (\<open>api/sliding_window_rate_limiter.go\<close>). Redis is not
  part of this code: its sorted sets are a parameter, the operations of \<open>redis_zsets\<close>, and what the code
  relies on is the locale \<open>sorted_sets\<close>: a key holds a finite map from members to scores and possibly a
  deadline; commands act on it as documented, and a command that reports an error has either taken
  effect or not. Times are Unix seconds, and Redis' clock is the process's. Scores are whole seconds,
  which a \<open>float64\<close> holds exactly.
\<close>

subsection \<open>Redis sorted sets\<close>

record 'r redis_zsets =
  z_RemRangeByScore :: "'r \<Rightarrow> string \<Rightarrow> int \<Rightarrow> int \<Rightarrow> 'r \<times> go_error option"
  z_Count :: "'r \<Rightarrow> string \<Rightarrow> int \<Rightarrow> int option \<Rightarrow> go_error + int"
  z_Oldest :: "'r \<Rightarrow> string \<Rightarrow> go_error + int option"
  z_Expire :: "'r \<Rightarrow> string \<Rightarrow> int \<Rightarrow> 'r \<times> go_error option"
  z_Add :: "'r \<Rightarrow> string \<Rightarrow> int \<Rightarrow> string \<Rightarrow> 'r \<times> go_error option"
  z_Del :: "'r \<Rightarrow> string \<Rightarrow> 'r \<times> go_error option"

subsection \<open>The limiter\<close>

definition window_member :: "int \<Rightarrow> int \<Rightarrow> string" where
  "window_member now nano = string_of_int now @ '':'' @ string_of_int nano"

text \<open>
  The pipeline of \<open>CheckSlidingWindow\<close>: all commands are sent, and \<open>Exec\<close> gives the first error. The
  result is the number of entries and the oldest score.
\<close>

definition window_pipeline ::
  "'r redis_zsets \<Rightarrow> 'r \<Rightarrow> string \<Rightarrow> int \<Rightarrow> int \<Rightarrow> 'r \<times> (go_error + int \<times> int option)" where
  "window_pipeline z r key windowSeconds now =
    (let windowStart = now - windowSeconds;
         (r1, e1) = z_RemRangeByScore z r key 0 windowStart;
         countCmd = z_Count z r1 key windowStart None;
         oldestCmd = z_Oldest z r1 key;
         (r2, e2) = z_Expire z r1 key (windowSeconds + 60)
     in (r2, case e1 of Some e \<Rightarrow> Inl e | None \<Rightarrow>
           (case countCmd of Inl e \<Rightarrow> Inl e | Inr cnt \<Rightarrow>
             (case oldestCmd of Inl e \<Rightarrow> Inl e | Inr oldest \<Rightarrow>
               (case e2 of Some e \<Rightarrow> Inl e | None \<Rightarrow> Inr (cnt, oldest))))))"

definition retry_after :: "int \<Rightarrow> int \<Rightarrow> int option \<Rightarrow> int" where
  "retry_after windowSeconds now oldest =
    (case oldest of
       None \<Rightarrow> windowSeconds
     | Some oldestTime \<Rightarrow> let retryAfter = oldestTime + windowSeconds - now in if retryAfter < 0 then 1 else retryAfter)"

definition CheckSlidingWindow ::
  "'r redis_zsets \<Rightarrow> 'r \<Rightarrow> string \<Rightarrow> int \<Rightarrow> int \<Rightarrow> int \<Rightarrow> int \<Rightarrow> 'r \<times> (go_error + bool \<times> int)" where
  "CheckSlidingWindow z r key limit windowSeconds now nano =
    (case window_pipeline z r key windowSeconds now of
       (r1, Inl e) \<Rightarrow> (r1, Inl e)
     | (r1, Inr (cnt, oldest)) \<Rightarrow>
       if cnt \<ge> limit then (r1, Inr (False, retry_after windowSeconds now oldest))
       else (case z_Add z r1 key now (window_member now nano) of
               (r2, Some e) \<Rightarrow> (r2, Inl e)
             | (r2, None) \<Rightarrow> (r2, Inr (True, 0))))"

definition CheckSlidingWindowSimple ::
  "'r redis_zsets \<Rightarrow> 'r \<Rightarrow> string \<Rightarrow> int \<Rightarrow> int \<Rightarrow> int \<Rightarrow> int \<Rightarrow> 'r \<times> (go_error + bool)" where
  "CheckSlidingWindowSimple z r key limit windowSeconds now nano =
    (case CheckSlidingWindow z r key limit windowSeconds now nano of
       (r1, Inl e) \<Rightarrow> (r1, Inl e)
     | (r1, Inr (allowed, _)) \<Rightarrow> (r1, Inr allowed))"

text \<open>The remaining count, the reset time and the error.\<close>

definition window_GetRateLimitInfo ::
  "'r redis_zsets \<Rightarrow> 'r \<Rightarrow> string \<Rightarrow> int \<Rightarrow> int \<Rightarrow> int \<Rightarrow> int \<times> int \<times> go_error option" where
  "window_GetRateLimitInfo z r key limit windowSeconds now =
    (case z_Count z r key (now - windowSeconds) None of
       Inl e \<Rightarrow> (limit, now + windowSeconds, Some e)
     | Inr cnt \<Rightarrow>
       (max (limit - cnt) 0,
        case z_Oldest z r key of Inr (Some oldest) \<Rightarrow> oldest + windowSeconds | _ \<Rightarrow> now + windowSeconds, None))"

definition RecordInWindow ::
  "'r redis_zsets \<Rightarrow> 'r \<Rightarrow> string \<Rightarrow> int \<Rightarrow> int \<Rightarrow> int \<Rightarrow> 'r \<times> go_error option" where
  "RecordInWindow z r key timestamp ttlSeconds nano =
    (let (r1, e1) = z_Add z r key timestamp (window_member timestamp nano);
         (r2, e2) = z_Expire z r1 key ttlSeconds
     in (r2, case e1 of Some e \<Rightarrow> Some e | None \<Rightarrow> e2))"

definition admitted :: "go_error + bool \<times> int \<Rightarrow> bool" where
  "admitted res = (case res of Inr (allowed, _) \<Rightarrow> allowed | Inl e \<Rightarrow> False)"

text \<open>
  A run of checks of one key. Before each check the store may have moved on: time has passed, other
  keys have been used. Gives the time of each check and whether it was admitted.
\<close>

fun run_checks ::
  "'r redis_zsets \<Rightarrow> ('r \<Rightarrow> int) \<Rightarrow> string \<Rightarrow> int \<Rightarrow> int \<Rightarrow> 'r \<Rightarrow> (('r \<Rightarrow> 'r) \<times> int) list \<Rightarrow> (int \<times> bool) list" where
  "run_checks z clk key limit w r [] = []"
| "run_checks z clk key limit w r ((env, nano) # calls) =
    (let now = clk (env r); (r', res) = CheckSlidingWindow z (env r) key limit w now nano
     in (now, admitted res) # run_checks z clk key limit w r' calls)"

subsection \<open>Members\<close>

lemma colon_not_int: "CHR '':'' \<notin> set (string_of_int i)"
  using string_of_nat_digit [of "CHR '':''"] by (auto simp: string_of_int_def)

lemma window_member_inject: "window_member t n = window_member t' n' \<longleftrightarrow> t = t' \<and> n = n'"
proof
  assume e: "window_member t n = window_member t' n'"
  have split: "takeWhile (\<lambda>c. c \<noteq> CHR '':'') (window_member t n) = string_of_int t" for t n
    unfolding window_member_def using colon_not_int [of t] by (subst takeWhile_append2) auto
  have "string_of_int t = string_of_int t'" using arg_cong [OF e] split by metis
  then have "t = t'" by simp
  with e show "t = t' \<and> n = n'" by (simp add: window_member_def)
qed simp

subsection \<open>What the limiter relies on\<close>

text \<open>What time and the use of other keys may do to a key: nothing, or let it expire.\<close>

definition idle ::
  "('r \<Rightarrow> string \<Rightarrow> string \<rightharpoonup> int) \<Rightarrow> ('r \<Rightarrow> string \<Rightarrow> int option) \<Rightarrow> ('r \<Rightarrow> int) \<Rightarrow> string \<Rightarrow> ('r \<Rightarrow> 'r) \<Rightarrow> bool" where
  "idle entries deadline clk key env \<longleftrightarrow> (\<forall>r. clk r \<le> clk (env r) \<and>
     (entries (env r) key = entries r key \<and> deadline (env r) key = deadline r key \<or>
      entries (env r) key = Map.empty \<and> deadline (env r) key = None \<and>
      (\<exists>e. deadline r key = Some e \<and> e \<le> clk (env r))))"

abbreviation in_scores :: "(string \<rightharpoonup> int) \<Rightarrow> int \<Rightarrow> int option \<Rightarrow> string set" where
  "in_scores m lo hi \<equiv> {x. \<exists>sc. m x = Some sc \<and> lo \<le> sc \<and> (case hi of None \<Rightarrow> True | Some h \<Rightarrow> sc \<le> h)}"

text \<open>At most \<open>limit\<close> of the given times in any \<open>w\<close> consecutive seconds.\<close>

definition bounded :: "int \<Rightarrow> int \<Rightarrow> int list \<Rightarrow> bool" where
  "bounded limit w adm \<longleftrightarrow> (\<forall>T. int (length (filter (\<lambda>a. T - w < a \<and> a \<le> T) adm)) \<le> max limit 0)"

lemma bounded_admit:
  assumes "bounded limit w adm" "\<And>a. a \<in> set adm \<Longrightarrow> a \<le> now" "int (length (filter (\<lambda>a. now - w < a) adm)) < limit"
  shows "bounded limit w (adm @ [now])"
  unfolding bounded_def
proof
  fix T
  show "int (length (filter (\<lambda>a. T - w < a \<and> a \<le> T) (adm @ [now]))) \<le> max limit 0"
  proof (cases "T < now")
    case True
    then show ?thesis using assms(1) by (simp add: bounded_def)
  next
    case False
    then have "length (filter (\<lambda>a. T - w < a \<and> a \<le> T) adm) \<le> length (filter (\<lambda>a. now - w < a) adm)"
      by (induction adm) auto
    with assms(3) show ?thesis by simp
  qed
qed

text \<open>The entries newer than a time.\<close>

definition newer :: "(string \<rightharpoonup> int) \<Rightarrow> int \<Rightarrow> string set" where
  "newer m t = {x. \<exists>sc. m x = Some sc \<and> t < sc}"

locale sorted_sets =
  fixes z :: "'r redis_zsets"
    and entries :: "'r \<Rightarrow> string \<Rightarrow> string \<rightharpoonup> int"
    and deadline :: "'r \<Rightarrow> string \<Rightarrow> int option"
    and clk :: "'r \<Rightarrow> int"
  assumes finite_entries: "finite (dom (entries r k))"
    and no_key: "entries r k = Map.empty \<Longrightarrow> deadline r k = None"
    and rem_law: "z_RemRangeByScore z r k lo hi = (r', e) \<Longrightarrow>
       clk r' = clk r \<and> (entries r' k = entries r k \<and> e \<noteq> None \<or>
         (\<forall>x sc. entries r' k x = Some sc \<longleftrightarrow> entries r k x = Some sc \<and> \<not> (lo \<le> sc \<and> sc \<le> hi))) \<and>
       (deadline r' k = deadline r k \<or> entries r' k = Map.empty \<and> deadline r' k = None)"
    and count_law: "z_Count z r k lo mx = Inr n \<Longrightarrow> n = int (card (in_scores (entries r k) lo mx))"
    and oldest_law: "z_Oldest z r k = Inr v \<Longrightarrow>
       v = (if entries r k = Map.empty then None else Some (Min (ran (entries r k))))"
    and expire_law: "z_Expire z r k secs = (r', e) \<Longrightarrow> clk r' = clk r \<and> entries r' k = entries r k \<and>
       (deadline r' k = deadline r k \<and> (e \<noteq> None \<or> entries r k = Map.empty) \<or>
        deadline r' k = Some (clk r + secs) \<and> entries r k \<noteq> Map.empty)"
    and add_law: "z_Add z r k sc x = (r', e) \<Longrightarrow> clk r' = clk r \<and> deadline r' k = deadline r k \<and>
       (entries r' k = entries r k \<and> e \<noteq> None \<or> entries r' k = (entries r k)(x \<mapsto> sc))"
    and del_law: "z_Del z r k = (r', e) \<Longrightarrow> clk r' = clk r \<and>
       (entries r' k = entries r k \<and> deadline r' k = deadline r k \<and> e \<noteq> None \<or> entries r' k = Map.empty \<and> deadline r' k = None)"
begin

lemma finite_newer [simp]: "finite (newer (entries r k) t)"
  by (rule finite_subset [OF _ finite_entries [of r k]]) (auto simp: newer_def)

text \<open>
  The window represents the admissions \<open>adm\<close> made so far: at least as many entries as admissions are
  newer than any time still in the window, no entry is from the future or outlives its deadline, and
  every member carries a stamp that has been used.
\<close>

definition represents :: "'r \<Rightarrow> string \<Rightarrow> int \<Rightarrow> int list \<Rightarrow> int set \<Rightarrow> bool" where
  "represents r k w adm nanos \<longleftrightarrow>
     (\<forall>t \<ge> clk r - w. length (filter (\<lambda>a. t < a) adm) \<le> card (newer (entries r k) t)) \<and>
     (\<forall>x sc. entries r k x = Some sc \<longrightarrow> sc \<le> clk r \<and> (\<exists>t n. x = window_member t n \<and> n \<in> nanos)) \<and>
     (\<forall>e x sc. deadline r k = Some e \<longrightarrow> entries r k x = Some sc \<longrightarrow> sc + w \<le> e) \<and>
     (\<forall>a \<in> set adm. a \<le> clk r)"

lemma representsI:
  assumes "\<And>t. clk r - w \<le> t \<Longrightarrow> length (filter (\<lambda>a. t < a) adm) \<le> card (newer (entries r k) t)"
    and "\<And>x sc. entries r k x = Some sc \<Longrightarrow> sc \<le> clk r \<and> (\<exists>t n. x = window_member t n \<and> n \<in> nanos)"
    and "\<And>e x sc. deadline r k = Some e \<Longrightarrow> entries r k x = Some sc \<Longrightarrow> sc + w \<le> e"
    and "\<And>a. a \<in> set adm \<Longrightarrow> a \<le> clk r"
  shows "represents r k w adm nanos"
  using assms unfolding represents_def by blast

lemma representsD:
  assumes "represents r k w adm nanos"
  shows "clk r - w \<le> t \<Longrightarrow> length (filter (\<lambda>a. t < a) adm) \<le> card (newer (entries r k) t)"
    and "entries r k x = Some sc \<Longrightarrow> sc \<le> clk r"
    and "entries r k x = Some sc \<Longrightarrow> \<exists>t n. x = window_member t n \<and> n \<in> nanos"
    and "deadline r k = Some e \<Longrightarrow> entries r k x = Some sc \<Longrightarrow> sc + w \<le> e"
    and "a \<in> set adm \<Longrightarrow> a \<le> clk r"
  using assms unfolding represents_def by blast+

lemma represents_idle:
  assumes rep: "represents r k w adm nanos" and idle: "idle entries deadline clk k env"
  shows "represents (env r) k w adm nanos"
proof -
  have c: "clk r \<le> clk (env r)" using idle by (simp add: idle_def)
  from idle consider "entries (env r) k = entries r k" "deadline (env r) k = deadline r k"
    | e where "entries (env r) k = Map.empty" "deadline (env r) k = None" "deadline r k = Some e" "e \<le> clk (env r)"
    unfolding idle_def by blast
  then show ?thesis
  proof cases
    case 1
    then have n: "newer (entries (env r) k) t = newer (entries r k) t" for t by (simp add: newer_def)
    show ?thesis
    proof (rule representsI)
      show "length (filter (\<lambda>a. t < a) adm) \<le> card (newer (entries (env r) k) t)" if "clk (env r) - w \<le> t" for t
        unfolding n using c that by (intro representsD(1) [OF rep]) linarith
      show "sc \<le> clk (env r) \<and> (\<exists>t n. x = window_member t n \<and> n \<in> nanos)" if "entries (env r) k x = Some sc" for x sc
        using representsD(2,3) [OF rep that [unfolded 1]] c by force
      show "sc + w \<le> e" if "deadline (env r) k = Some e" "entries (env r) k x = Some sc" for e x sc
        by (rule representsD(4) [OF rep]) (use that 1 in simp_all)
      show "a \<le> clk (env r)" if "a \<in> set adm" for a using representsD(5) [OF rep that] c by linarith
    qed
  next
    case 2
    have "filter (\<lambda>a. t < a) adm = []" if t: "clk (env r) - w \<le> t" for t
    proof -
      have "newer (entries r k) t = {}" using representsD(4) [OF rep 2(3)] 2(4) t by (fastforce simp: newer_def)
      then show ?thesis using representsD(1) [OF rep, of t] t c by simp
    qed
    then show ?thesis
      by (intro representsI) (use 2 c representsD(5) [OF rep] in force)+
  qed
qed

lemma represents_shrunk:
  assumes rep: "represents r k w adm nanos" and c: "clk r' = clk r"
    and sub: "\<And>x sc. entries r' k x = Some sc \<Longrightarrow> entries r k x = Some sc"
    and same: "\<And>t. clk r - w \<le> t \<Longrightarrow> newer (entries r' k) t = newer (entries r k) t"
    and dl: "\<And>e. deadline r' k = Some e \<Longrightarrow> deadline r k = Some e \<or> clk r + w \<le> e"
  shows "represents r' k w adm nanos"
proof (rule representsI)
  show "length (filter (\<lambda>a. t < a) adm) \<le> card (newer (entries r' k) t)" if "clk r' - w \<le> t" for t
    using that representsD(1) [OF rep] by (simp add: c same)
  show "sc \<le> clk r' \<and> (\<exists>t n. x = window_member t n \<and> n \<in> nanos)" if "entries r' k x = Some sc" for x sc
    using representsD(2,3) [OF rep sub [OF that]] by (simp add: c)
  show "sc + w \<le> e" if "deadline r' k = Some e" "entries r' k x = Some sc" for e x sc
    using dl [OF that(1)] representsD(2,4) [OF rep] sub [OF that(2)] by force
  show "a \<le> clk r'" if "a \<in> set adm" for a using representsD(5) [OF rep that] c by simp
qed

lemma represents_add:
  assumes rep: "represents r k w adm nanos" and fresh: "n \<notin> nanos" and dl: "\<And>e. deadline r k = Some e \<Longrightarrow> clk r + w \<le> e"
    and add: "z_Add z r k (clk r) (window_member (clk r) n) = (r', e)"
  shows "represents r' k w (if e = None then adm @ [clk r] else adm) (insert n nanos)"
proof -
  let ?x = "window_member (clk r) n"
  have new: "entries r k ?x = None"
    using representsD(3) [OF rep] fresh window_member_inject by (metis not_None_eq)
  then have out: "?x \<notin> newer (entries r k) t" for t by (simp add: newer_def)
  have c: "clk r' = clk r" "deadline r' k = deadline r k" using add_law [OF add] by simp_all
  have ents: "entries r k x = Some sc \<or> x = ?x \<and> sc = clk r" if "entries r' k x = Some sc" for x sc
    using add_law [OF add] that by (auto split: if_splits)
  have card: "card (newer (entries r k) t) + (if e = None \<and> t < clk r then 1 else 0) \<le> card (newer (entries r' k) t)" for t
  proof (cases "entries r' k = (entries r k)(?x \<mapsto> clk r)")
    case True
    then have "newer (entries r' k) t = (if t < clk r then insert ?x (newer (entries r k) t) else newer (entries r k) t)"
      using new by (auto simp: newer_def)
    then show ?thesis using out by simp
  next
    case False
    then show ?thesis using add_law [OF add] by (auto simp: newer_def)
  qed
  show ?thesis
  proof (rule representsI)
    show "length (filter (\<lambda>a. t < a) (if e = None then adm @ [clk r] else adm)) \<le> card (newer (entries r' k) t)" if "clk r' - w \<le> t" for t
      using card [of t] representsD(1) [OF rep, of t] that by (auto simp: c split: if_splits)
    show "sc \<le> clk r' \<and> (\<exists>t m. x = window_member t m \<and> m \<in> insert n nanos)" if "entries r' k x = Some sc" for x sc
      using ents [OF that] representsD(2,3) [OF rep, of x sc] by (auto simp: c)
    show "sc + w \<le> d" if "deadline r' k = Some d" "entries r' k x = Some sc" for d x sc
      using ents [OF that(2)] dl representsD(4) [OF rep] that(1) c by auto
    show "a \<le> clk r'" if "a \<in> set (if e = None then adm @ [clk r] else adm)" for a
      using that representsD(5) [OF rep] by (auto simp: c split: if_splits)
  qed
qed

lemma pipeline:
  assumes rep: "represents r k w adm nanos" and w: "0 \<le> w"
    and p: "window_pipeline z r k w (clk r) = (r1, out)"
  shows "represents r1 k w adm nanos \<and> clk r1 = clk r \<and>
    (\<forall>cnt oldest. out = Inr (cnt, oldest) \<longrightarrow> int (card (newer (entries r1 k) (clk r - w))) \<le> cnt \<and>
      (\<forall>e. deadline r1 k = Some e \<longrightarrow> clk r + w \<le> e))"
proof -
  obtain r0 e1 where e1: "z_RemRangeByScore z r k 0 (clk r - w) = (r0, e1)" by fastforce
  obtain e2 where e2: "z_Expire z r0 k (w + 60) = (r1, e2)"
    using p unfolding window_pipeline_def e1 Let_def by (auto split: prod.splits)
  note rem = rem_law [OF e1] and ex = expire_law [OF e2]
  have c: "clk r0 = clk r" "clk r1 = clk r" using rem ex by simp_all
  have sub: "entries r k x = Some sc" if "entries r1 k x = Some sc" for x sc
    using rem ex that by (auto split: option.splits if_splits)
  have same: "newer (entries r1 k) t = newer (entries r k) t" if "clk r - w \<le> t" for t
    using rem ex that by (fastforce simp: newer_def split: option.splits if_splits)
  have dl: "deadline r k = Some e \<or> clk r + w \<le> e" if "deadline r1 k = Some e" for e
    using rem ex that c by auto
  have r1: "represents r1 k w adm nanos"
    by (rule represents_shrunk [OF rep c(2) sub same dl])
  have "int (card (newer (entries r1 k) (clk r - w))) \<le> cnt \<and> (\<forall>e. deadline r1 k = Some e \<longrightarrow> clk r + w \<le> e)" if o: "out = Inr (cnt, oldest)" for cnt oldest
  proof -
    from p o have cnt: "z_Count z r0 k (clk r - w) None = Inr cnt" and ok: "e2 = None"
      unfolding window_pipeline_def e1 Let_def prod.case e2 by (auto split: option.splits sum.splits)
    have fin: "finite (in_scores (entries r0 k) (clk r - w) None)"
      by (rule finite_subset [OF _ finite_entries [of r0 k]]) auto
    have "newer (entries r1 k) (clk r - w) \<subseteq> in_scores (entries r0 k) (clk r - w) None"
      using ex by (auto simp: newer_def)
    from card_mono [OF fin this] count_law [OF cnt] have "int (card (newer (entries r1 k) (clk r - w))) \<le> cnt" by simp
    moreover have "clk r + w \<le> e" if "deadline r1 k = Some e" for e
      using ex ok that c no_key [of r0 k] by auto
    ultimately show ?thesis by blast
  qed
  with r1 c(2) show ?thesis by blast
qed

lemma represents_stamps: "represents r k w adm nanos \<Longrightarrow> represents r k w adm (insert n nanos)"
  unfolding represents_def by blast

lemma check_step:
  assumes rep: "represents r k w adm nanos" and w: "0 \<le> w" and fresh: "n \<notin> nanos"
    and run: "CheckSlidingWindow z r k limit w (clk r) n = (r', res)"
  shows "represents r' k w (if admitted res then adm @ [clk r] else adm) (insert n nanos) \<and> clk r' = clk r \<and>
    (admitted res \<longrightarrow> int (length (filter (\<lambda>a. clk r - w < a) adm)) < limit)"
proof -
  obtain r1 out where p: "window_pipeline z r k w (clk r) = (r1, out)" by fastforce
  note pl = pipeline [OF rep w p]
  have 1: "represents r1 k w adm (insert n nanos)" "clk r1 = clk r" using pl represents_stamps by blast+
  show ?thesis
  proof (cases "\<exists>cnt oldest. out = Inr (cnt, oldest) \<and> cnt < limit")
    case False
    then have "r' = r1 \<and> \<not> admitted res"
      using run by (cases out) (auto simp: CheckSlidingWindow_def p admitted_def not_less)
    with 1 show ?thesis by simp
  next
    case True
    then obtain cnt oldest where out: "out = Inr (cnt, oldest)" "cnt < limit" by blast
    obtain e where add: "z_Add z r1 k (clk r1) (window_member (clk r1) n) = (r', e)" and res: "admitted res \<longleftrightarrow> e = None"
      using run out 1(2) by (auto simp: CheckSlidingWindow_def p admitted_def split: prod.splits option.splits)
    have "represents r' k w (if e = None then adm @ [clk r1] else adm) (insert n nanos)"
      by (rule represents_add [OF _ fresh _ add]) (use pl out 1(2) in auto)
    moreover have "clk r' = clk r1" using add_law [OF add] by simp
    moreover have "int (length (filter (\<lambda>a. clk r - w < a) adm)) < limit"
      using representsD(1) [OF 1(1), of "clk r - w"] pl out 1(2) by auto
    ultimately show ?thesis using 1(2) res by (cases e) simp_all
  qed
qed

lemma run_bounded:
  assumes "represents r k w adm nanos" "0 \<le> w" "\<forall>(env, n)\<in>set calls. idle entries deadline clk k env"
    and "distinct (map snd calls)" "snd ` set calls \<inter> nanos = {}" "bounded limit w adm"
  shows "bounded limit w (adm @ map fst (filter snd (run_checks z clk k limit w r calls)))"
  using assms
proof (induction calls arbitrary: r adm nanos)
  case (Cons call calls)
  obtain env n where call: "call = (env, n)" by fastforce
  obtain r' res where run: "CheckSlidingWindow z (env r) k limit w (clk (env r)) n = (r', res)" by fastforce
  have rep: "represents (env r) k w adm nanos" using Cons.prems(1,3) represents_idle by (simp add: call)
  have fresh: "n \<notin> nanos" using Cons.prems(5) by (simp add: call)
  note step = check_step [OF rep Cons.prems(2) fresh run]
  let ?adm = "if admitted res then adm @ [clk (env r)] else adm"
  have "bounded limit w ?adm"
    using bounded_admit [OF Cons.prems(6) representsD(5) [OF rep]] Cons.prems(6) step by simp
  then have "bounded limit w (?adm @ map fst (filter snd (run_checks z clk k limit w r' calls)))"
    using Cons.prems(2-5) step by (intro Cons.IH [where nanos = "insert n nanos"]) (auto simp: call)
  then show ?case
    by (cases "admitted res") (simp_all add: call run admitted_def)
qed simp

lemma window_bound:
  assumes "entries r k = Map.empty" "0 \<le> w" "\<forall>(env, n)\<in>set calls. idle entries deadline clk k env" "distinct (map snd calls)"
  shows "int (length (filter (\<lambda>(t, ok). ok \<and> T - w < t \<and> t \<le> T) (run_checks z clk k limit w r calls))) \<le> max limit 0"
proof -
  have "represents r k w [] {}" using assms(1) by (simp add: represents_def)
  from run_bounded [OF this assms(2-4), of limit]
  have "bounded limit w (map fst (filter snd (run_checks z clk k limit w r calls)))" by (simp add: bounded_def)
  then show ?thesis
    unfolding bounded_def by (simp add: filter_map comp_def case_prod_unfold)
qed

text \<open>A pipeline that succeeds drops exactly what has left the window and counts what is left.\<close>

lemma pipeline_exact:
  assumes p: "window_pipeline z r k w now = (r1, Inr (cnt, oldest))" and pos: "\<forall>x sc. entries r k x = Some sc \<longrightarrow> 0 \<le> sc"
  shows "entries r1 k x = Some sc \<longleftrightarrow> entries r k x = Some sc \<and> now - w < sc"
    and "clk r1 = clk r" and "cnt = int (card (newer (entries r1 k) (now - w)))"
    and "oldest = (if entries r1 k = Map.empty then None else Some (Min (ran (entries r1 k))))"
proof -
  obtain r0 where r0: "z_RemRangeByScore z r k 0 (now - w) = (r0, None)" and cnt: "z_Count z r0 k (now - w) None = Inr cnt"
    and old: "z_Oldest z r0 k = Inr oldest" and ex: "z_Expire z r0 k (w + 60) = (r1, None)"
    using p by (auto simp: window_pipeline_def Let_def split: prod.splits option.splits sum.splits)
  have same: "entries r0 k = entries r1 k" using expire_law [OF ex] by simp
  have e: "entries r1 k x = Some sc \<longleftrightarrow> entries r k x = Some sc \<and> now - w < sc" for x sc
    using rem_law [OF r0] pos unfolding same by force
  then show "entries r1 k x = Some sc \<longleftrightarrow> entries r k x = Some sc \<and> now - w < sc" .
  have "in_scores (entries r0 k) (now - w) None = newer (entries r1 k) (now - w)"
    unfolding same newer_def using e by auto
  with count_law [OF cnt] show "cnt = int (card (newer (entries r1 k) (now - w)))" by simp
  show "clk r1 = clk r" using rem_law [OF r0] expire_law [OF ex] by simp
  show "oldest = (if entries r1 k = Map.empty then None else Some (Min (ran (entries r1 k))))"
    using oldest_law [OF old] by (simp add: same)
qed

text \<open>The oldest entry, when there is one.\<close>

lemma oldest_entry:
  assumes "entries r k \<noteq> Map.empty"
  obtains x where "entries r k x = Some (Min (ran (entries r k)))"
proof -
  have fin: "finite (ran (entries r k))" using finite_entries by (rule finite_ran)
  have "Min (ran (entries r k)) \<in> ran (entries r k)"
    using fin assms by (intro Min_in) (auto simp: ran_def fun_eq_iff)
  then show ?thesis using that unfolding ran_def by blast
qed

lemma retry:
  assumes deny: "CheckSlidingWindow z r k limit w (clk r) n = (r1, Inr (False, ra))"
    and full: "int (card (newer (entries r k) (clk r - w))) = limit" "0 < limit"
    and past: "\<forall>x sc. entries r k x = Some sc \<longrightarrow> 0 \<le> sc \<and> sc \<le> clk r"
    and wait: "entries r2 k = entries r1 k" "clk r2 = clk r + ra"
    and again: "CheckSlidingWindow z r2 k limit w (clk r2) n' = (r3, Inr (ok, ra'))"
  shows "1 \<le> ra \<and> ra \<le> w \<and> ok"
proof -
  obtain cnt oldest where p: "window_pipeline z r k w (clk r) = (r1, Inr (cnt, oldest))" and ra: "ra = retry_after w (clk r) oldest"
    using deny by (auto simp: CheckSlidingWindow_def split: prod.splits sum.splits if_splits option.splits)
  have pos: "\<forall>x sc. entries r k x = Some sc \<longrightarrow> 0 \<le> sc" using past by blast
  note x1 = pipeline_exact [OF p pos]
  have n1: "newer (entries r1 k) (clk r - w) = newer (entries r k) (clk r - w)" unfolding newer_def x1(1) by blast
  have "newer (entries r1 k) (clk r - w) \<noteq> {}" using full n1 by auto
  then have ne: "entries r1 k \<noteq> Map.empty" by (auto simp: newer_def)
  then obtain x where x: "entries r1 k x = Some (Min (ran (entries r1 k)))" by (rule oldest_entry)
  define m where "m = Min (ran (entries r1 k))"
  have range: "clk r - w < m" "m \<le> clk r" using x past unfolding x1(1) m_def by blast+
  have ra': "ra = m + w - clk r" using x1(4) ne range by (simp add: ra retry_after_def m_def)
  obtain cnt2 o2 r2' where p2: "window_pipeline z r2 k w (clk r2) = (r2', Inr (cnt2, o2))" and ok: "cnt2 < limit \<longrightarrow> ok"
    using again by (auto simp: CheckSlidingWindow_def split: prod.splits sum.splits if_splits option.splits)
  have "\<forall>x sc. entries r2 k x = Some sc \<longrightarrow> 0 \<le> sc" unfolding wait x1(1) using past by blast
  note x2 = pipeline_exact [OF p2 this]
  have c2: "clk r2 - w = m" using wait ra' by simp
  have "newer (entries r2' k) m \<subseteq> newer (entries r1 k) (clk r - w) - {x}"
    using x range x2(1) unfolding newer_def c2 wait(1) m_def by fastforce
  then have "card (newer (entries r2' k) m) \<le> card (newer (entries r1 k) (clk r - w) - {x})" by (intro card_mono) simp_all
  moreover have "x \<in> newer (entries r1 k) (clk r - w)" using x range by (simp add: newer_def m_def)
  then have "card (newer (entries r1 k) (clk r - w) - {x}) < card (newer (entries r1 k) (clk r - w))" by (intro card_Diff1_less) simp
  ultimately have "cnt2 < limit" using full n1 x2(3) by (simp add: c2)
  with ok ra' range show ?thesis by simp
qed

lemma no_expiry:
  assumes empty: "entries r k = Map.empty" and run: "CheckSlidingWindow z r k limit w now n = (r', Inr (True, 0))"
  shows "entries r' k \<noteq> Map.empty \<and> deadline r' k = None"
proof -
  obtain r1 cnt oldest where p: "window_pipeline z r k w now = (r1, Inr (cnt, oldest))"
    and add: "z_Add z r1 k now (window_member now n) = (r', None)"
    using run by (auto simp: CheckSlidingWindow_def split: prod.splits sum.splits if_splits option.splits)
  have "entries r1 k = Map.empty" using pipeline_exact(1) [OF p] empty by (metis not_None_eq)
  with add_law [OF add] no_key [of r1 k] show ?thesis by auto
qed

lemma race:
  assumes p1: "window_pipeline z r k w now = (r1, Inr (cnt1, o1))" and p2: "window_pipeline z r1 k w now = (r2, Inr (cnt2, o2))"
    and pos: "\<forall>x sc. entries r k x = Some sc \<longrightarrow> 0 \<le> sc" and last: "cnt1 = limit - 1" and w: "0 < w"
    and a1: "z_Add z r2 k now (window_member now n1) = (r3, None)" and a2: "z_Add z r3 k now (window_member now n2) = (r4, None)"
    and fresh: "n1 \<noteq> n2" "entries r k (window_member now n1) = None" "entries r k (window_member now n2) = None"
  shows "cnt2 < limit \<and> int (card (newer (entries r4 k) (now - w))) = limit + 1"
proof -
  let ?m1 = "window_member now n1" and ?m2 = "window_member now n2"
  note x1 = pipeline_exact [OF p1 pos]
  have "\<forall>x sc. entries r1 k x = Some sc \<longrightarrow> 0 \<le> sc" unfolding x1(1) using pos by blast
  note x2 = pipeline_exact [OF p2 this]
  have n2: "newer (entries r2 k) (now - w) = newer (entries r1 k) (now - w)" unfolding newer_def x2(1) by blast
  have new: "?m1 \<noteq> ?m2" "?m1 \<notin> newer (entries r1 k) (now - w)" "?m2 \<notin> newer (entries r1 k) (now - w)"
    using fresh by (simp_all add: window_member_inject newer_def x1(1))
  have "newer (entries r4 k) (now - w) = insert ?m2 (insert ?m1 (newer (entries r2 k) (now - w)))"
    using add_law [OF a1] add_law [OF a2] w by (auto simp: newer_def)
  with x1(3) x2(3) new last n2 show ?thesis by simp
qed

end

subsection \<open>An in-memory Redis\<close>

text \<open>
  A store that satisfies the contract: the clock, and for every key its entries and deadline. A key
  without entries does not exist. No command fails.
\<close>

type_synonym mem_redis = "int \<times> (string \<times> (string \<times> int) list \<times> int option) list"

definition mem_get :: "mem_redis \<Rightarrow> string \<Rightarrow> (string \<times> int) list \<times> int option" where
  "mem_get m k = (case map_of (snd m) k of Some v \<Rightarrow> v | None \<Rightarrow> ([], None))"

definition mem_entries :: "mem_redis \<Rightarrow> string \<Rightarrow> string \<rightharpoonup> int" where
  "mem_entries m k = map_of (fst (mem_get m k))"

definition mem_deadline :: "mem_redis \<Rightarrow> string \<Rightarrow> int option" where
  "mem_deadline m k = (if fst (mem_get m k) = [] then None else snd (mem_get m k))"

definition mem_put :: "mem_redis \<Rightarrow> string \<Rightarrow> (string \<times> int) list \<Rightarrow> int option \<Rightarrow> mem_redis" where
  "mem_put m k xs d = (fst m, AList.update k (xs, if xs = [] then None else d) (snd m))"

definition mem_zsets :: "mem_redis redis_zsets" where
  "mem_zsets = \<lparr>
     z_RemRangeByScore = (\<lambda>m k lo hi.
       (mem_put m k (filter (\<lambda>(x, sc). \<not> (lo \<le> sc \<and> sc \<le> hi)) (AList.clearjunk (fst (mem_get m k)))) (mem_deadline m k), None)),
     z_Count = (\<lambda>m k lo mx. Inr (int (length (filter (\<lambda>(x, sc). lo \<le> sc \<and> (case mx of None \<Rightarrow> True | Some h \<Rightarrow> sc \<le> h))
       (AList.clearjunk (fst (mem_get m k))))))),
     z_Oldest = (\<lambda>m k. Inr (case AList.clearjunk (fst (mem_get m k)) of [] \<Rightarrow> None | xs \<Rightarrow> Some (Min (set (map snd xs))))),
     z_Expire = (\<lambda>m k secs. (mem_put m k (fst (mem_get m k)) (Some (fst m + secs)), None)),
     z_Add = (\<lambda>m k sc x. (mem_put m k (AList.update x sc (fst (mem_get m k))) (mem_deadline m k), None)),
     z_Del = (\<lambda>m k. (mem_put m k [] None, None))\<rparr>"

lemma map_of_filter_distinct:
  "distinct (map fst xs) \<Longrightarrow> map_of (filter (\<lambda>(x, v). P v) xs) x = Some v \<longleftrightarrow> map_of xs x = Some v \<and> P v"
  by (auto simp: distinct_map_filter map_of_eq_Some_iff)

lemma card_in_scores:
  "distinct (map fst xs) \<Longrightarrow> card {x. \<exists>v. map_of xs x = Some v \<and> P v} = length (filter (\<lambda>(x, v). P v) xs)"
proof -
  assume d: "distinct (map fst xs)"
  have "{x. \<exists>v. map_of xs x = Some v \<and> P v} = fst ` set (filter (\<lambda>(x, v). P v) xs)"
    using d by (force simp: map_of_eq_Some_iff)
  also have "card \<dots> = length (map fst (filter (\<lambda>(x, v). P v) xs))"
    using d distinct_card [OF distinct_map_filter [OF d]] by (simp add: distinct_map_filter)
  finally show ?thesis by simp
qed

lemma clearjunk_Nil [simp]: "AList.clearjunk xs = [] \<longleftrightarrow> xs = []"
  by (cases xs) auto

lemma mem_get_put [simp]: "mem_get (mem_put m k xs d) k = (xs, if xs = [] then None else d)"
  by (simp add: mem_get_def mem_put_def update_conv')

lemma mem_put_sel [simp]:
  "mem_entries (mem_put m k xs d) k = map_of xs" "mem_deadline (mem_put m k xs d) k = (if xs = [] then None else d)"
  "fst (mem_put m k xs d) = fst m"
  by (simp_all add: mem_entries_def mem_deadline_def) (simp add: mem_put_def)

lemma mem_empty: "mem_entries m k = Map.empty \<longleftrightarrow> fst (mem_get m k) = []"
  by (simp add: mem_entries_def)

interpretation mem: sorted_sets mem_zsets mem_entries mem_deadline fst
proof unfold_locales
  fix m m' :: mem_redis and k lo hi mx n v secs sc x e
  show "finite (dom (mem_entries m k))" by (simp add: mem_entries_def finite_dom_map_of)
  show "mem_deadline m k = None" if "mem_entries m k = Map.empty" using that by (simp add: mem_deadline_def mem_empty)
  show "fst m' = fst m \<and> (mem_entries m' k = mem_entries m k \<and> e \<noteq> None \<or>
      (\<forall>x sc. mem_entries m' k x = Some sc \<longleftrightarrow> mem_entries m k x = Some sc \<and> \<not> (lo \<le> sc \<and> sc \<le> hi))) \<and>
      (mem_deadline m' k = mem_deadline m k \<or> mem_entries m' k = Map.empty \<and> mem_deadline m' k = None)"
    if "z_RemRangeByScore mem_zsets m k lo hi = (m', e)"
  proof -
    have "m' = mem_put m k (filter (\<lambda>(x, sc). \<not> (lo \<le> sc \<and> sc \<le> hi)) (AList.clearjunk (fst (mem_get m k)))) (mem_deadline m k)"
      using that by (simp add: mem_zsets_def)
    moreover have "map_of (filter (\<lambda>(x, sc). \<not> (lo \<le> sc \<and> sc \<le> hi)) (AList.clearjunk (fst (mem_get m k)))) x = Some sc \<longleftrightarrow>
        mem_entries m k x = Some sc \<and> \<not> (lo \<le> sc \<and> sc \<le> hi)" for x sc
      using map_of_filter_distinct [OF distinct_clearjunk, of "\<lambda>sc. \<not> (lo \<le> sc \<and> sc \<le> hi)"]
      by (simp add: mem_entries_def map_of_clearjunk)
    ultimately show ?thesis by simp
  qed
  show "n = int (card (in_scores (mem_entries m k) lo mx))" if "z_Count mem_zsets m k lo mx = Inr n"
    using that card_in_scores [OF distinct_clearjunk, of "fst (mem_get m k)" "\<lambda>sc. lo \<le> sc \<and> (case mx of None \<Rightarrow> True | Some h \<Rightarrow> sc \<le> h)"]
    by (simp add: mem_zsets_def mem_entries_def map_of_clearjunk)
  show "v = (if mem_entries m k = Map.empty then None else Some (Min (ran (mem_entries m k))))" if "z_Oldest mem_zsets m k = Inr v"
    using that by (auto simp: mem_zsets_def mem_entries_def ran_map_of split: list.splits)
  show "fst m' = fst m \<and> mem_entries m' k = mem_entries m k \<and>
      (mem_deadline m' k = mem_deadline m k \<and> (e \<noteq> None \<or> mem_entries m k = Map.empty) \<or>
       mem_deadline m' k = Some (fst m + secs) \<and> mem_entries m k \<noteq> Map.empty)"
    if "z_Expire mem_zsets m k secs = (m', e)"
    using that by (auto simp: mem_zsets_def mem_empty mem_entries_def [of m] mem_deadline_def [of m])
  show "fst m' = fst m \<and> mem_deadline m' k = mem_deadline m k \<and>
      (mem_entries m' k = mem_entries m k \<and> e \<noteq> None \<or> mem_entries m' k = (mem_entries m k)(x \<mapsto> sc))"
    if "z_Add mem_zsets m k sc x = (m', e)"
    using that by (auto simp: mem_zsets_def mem_entries_def [of m] update_conv' mem_deadline_def [of m] update_nonempty)
  show "fst m' = fst m \<and> (mem_entries m' k = mem_entries m k \<and> mem_deadline m' k = mem_deadline m k \<and> e \<noteq> None \<or>
      mem_entries m' k = Map.empty \<and> mem_deadline m' k = None)"
    if "z_Del mem_zsets m k = (m', e)"
    using that by (auto simp: mem_zsets_def)
qed

subsection \<open>The limit holds\<close>

text \<open>
  C28. The limit holds in every window: for checks of one key that do not overlap, whatever happens to
  other keys and however the key expires in between, at most \<open>limit\<close> requests are admitted in any
  \<open>w\<close> consecutive seconds. The nanosecond stamps of the checks are distinct.
\<close>

theorem sliding_window_bound:
  assumes "sorted_sets z entries deadline clk" "entries r key = Map.empty" "0 \<le> w"
    and "\<forall>(env, nano)\<in>set calls. idle entries deadline clk key env" "distinct (map snd calls)"
  shows "int (length (filter (\<lambda>(t, ok). ok \<and> T - w < t \<and> t \<le> T) (run_checks z clk key limit w r calls))) \<le> max limit 0"
  using assms by (rule sorted_sets.window_bound)

definition mem_wait :: "int \<Rightarrow> mem_redis \<Rightarrow> mem_redis" where
  "mem_wait secs m = (fst m + secs, snd m)"

definition mem_new :: mem_redis where
  "mem_new = (0, [])"

lemma mem_wait_idle: "0 \<le> secs \<Longrightarrow> idle mem_entries mem_deadline fst key (mem_wait secs)"
  by (simp add: idle_def mem_wait_def mem_entries_def mem_deadline_def mem_get_def)

theorem sliding_window_bound_witness:
  "let calls = [(mem_wait 100, 1), (mem_wait 1, 2), (mem_wait 1, 3), (mem_wait 58, 4)];
       out = run_checks mem_zsets fst ''k'' 2 60 mem_new calls
   in out = [(100, True), (101, True), (102, False), (160, True)] \<and>
      int (length (filter (\<lambda>(t, ok). ok \<and> 160 - 60 < t \<and> t \<le> 160) out)) \<le> max 2 0"
proof -
  let ?calls = "[(mem_wait 100, 1), (mem_wait 1, 2), (mem_wait 1, 3), (mem_wait 58, 4)]"
  have "run_checks mem_zsets fst ''k'' 2 60 mem_new ?calls = [(100, True), (101, True), (102, False), (160, True)]"
    by code_simp
  moreover have "int (length (filter (\<lambda>(t, ok). ok \<and> 160 - 60 < t \<and> t \<le> 160) (run_checks mem_zsets fst ''k'' 2 60 mem_new ?calls))) \<le> max 2 0"
    by (rule sliding_window_bound [OF mem.sorted_sets_axioms]) (simp_all add: mem_new_def mem_entries_def mem_get_def mem_wait_idle)
  ultimately show ?thesis by (simp only: Let_def simp_thms)
qed


text \<open>A key with two entries, five seconds apart.\<close>

definition mem_full :: mem_redis where
  "mem_full = (120, [(''k'', [(window_member 100 1, 100), (window_member 105 2, 105)], Some 225)])"

lemma mem_full_entries: "mem_entries mem_full ''k'' x = Some sc \<longleftrightarrow> x = window_member 100 1 \<and> sc = 100 \<or> x = window_member 105 2 \<and> sc = 105"
  by (auto simp: mem_entries_def mem_get_def mem_full_def window_member_inject)


text \<open>
  Two checks at once exceed the limit: the count is read in one round trip and the request recorded in
  another, so two checks that both read before either writes are both admitted with one place left,
  and the window then holds one entry more than the limit.
\<close>

theorem concurrent_checks_exceed_limit:
  assumes "sorted_sets z entries deadline clk"
    and "window_pipeline z r key w now = (r1, Inr (cnt1, o1))" "window_pipeline z r1 key w now = (r2, Inr (cnt2, o2))"
    and "\<forall>x sc. entries r key x = Some sc \<longrightarrow> 0 \<le> sc" "cnt1 = limit - 1" "0 < w"
    and "z_Add z r2 key now (window_member now n1) = (r3, None)" "z_Add z r3 key now (window_member now n2) = (r4, None)"
    and "n1 \<noteq> n2" "entries r key (window_member now n1) = None" "entries r key (window_member now n2) = None"
  shows "cnt2 < limit \<and> int (card (newer (entries r4 key) (now - w))) = limit + 1"
  using assms by (rule sorted_sets.race)

theorem concurrent_checks_exceed_limit_witness:
  "\<exists>r1 r2 r3 r4 o1 o2 cnt2. window_pipeline mem_zsets mem_new ''k'' 60 100 = (r1, Inr (0, o1)) \<and>
     window_pipeline mem_zsets r1 ''k'' 60 100 = (r2, Inr (cnt2, o2)) \<and> cnt2 < 1 \<and>
     z_Add mem_zsets r2 ''k'' 100 (window_member 100 1) = (r3, None) \<and> z_Add mem_zsets r3 ''k'' 100 (window_member 100 2) = (r4, None) \<and>
     card (newer (mem_entries r4 ''k'') 40) = 2"
proof -
  have p1: "window_pipeline mem_zsets mem_new ''k'' 60 100 = (mem_put mem_new ''k'' [] None, Inr (0, None))"
    by (simp add: window_pipeline_def mem_zsets_def mem_new_def mem_put_def mem_get_def)
  have p2: "window_pipeline mem_zsets (mem_put mem_new ''k'' [] None) ''k'' 60 100 = (mem_put mem_new ''k'' [] None, Inr (0, None))"
    by (simp add: window_pipeline_def mem_zsets_def mem_new_def mem_put_def mem_get_def)
  obtain r3 where a1: "z_Add mem_zsets (mem_put mem_new ''k'' [] None) ''k'' 100 (window_member 100 1) = (r3, None)"
    by (simp add: mem_zsets_def)
  obtain r4 where a2: "z_Add mem_zsets r3 ''k'' 100 (window_member 100 2) = (r4, None)" by (simp add: mem_zsets_def)
  have "(0 :: int) < 1 \<and> int (card (newer (mem_entries r4 ''k'') (100 - 60))) = 1 + 1"
    by (rule concurrent_checks_exceed_limit [OF mem.sorted_sets_axioms p1 p2 _ _ _ a1 a2]) (simp_all add: mem_new_def mem_entries_def mem_get_def)
  with p1 p2 a1 a2 show ?thesis by (intro exI conjI) (assumption | simp)+
qed

text \<open>
  The expiry of a new key is lost: \<open>EXPIRE\<close> runs before the first entry creates the key, so after a
  single request the key has no deadline and stays until it is used again.
\<close>

theorem first_request_never_expires:
  assumes "sorted_sets z entries deadline clk" "entries r key = Map.empty"
    and "CheckSlidingWindow z r key limit w now n = (r', Inr (True, 0))"
  shows "entries r' key \<noteq> Map.empty \<and> deadline r' key = None"
  using assms by (rule sorted_sets.no_expiry)

end
