(* ===== verification/Rate_Limits.thy ===== *)
theory Rate_Limits
  imports Sliding_Window Ip_Address
begin

text \<open>
  The rate limiters built on the sliding window and the middleware that enforces them:
  per user (\<open>api/api_rate_limiter.go\<close>, \<open>api/rate_limit_middleware.go\<close>) with the quota cache
  (\<open>api/quota_cache.go\<close>), per address and per authentication flow
  (\<open>api/ip_rate_limiter.go\<close>, \<open>api/auth_flow_rate_limiter.go\<close>, \<open>api/ip_and_auth_rate_limit_middleware.go\<close>),
  for webhooks and add-ons (\<open>api/webhook_rate_limiter.go\<close>, \<open>api/addon_rate_limiter.go\<close>), and the in-memory
  limiter of the assistant (\<open>api/timmy_rate_limiter.go\<close>).

  A clock reading is a pair: Unix seconds and the nanosecond stamp. The Redis client is an option: None
  when Redis is not available.
\<close>

type_synonym clock = "int \<times> int"

subsection \<open>Quotas\<close>

record UserAPIQuota =
  uq_MaxRequestsPerMinute :: int
  uq_MaxRequestsPerHour :: "int option"

record DBWebhookQuota =
  wq_MaxSubscriptions :: int
  wq_MaxEventsPerMinute :: int
  wq_MaxSubscriptionRequestsPerMinute :: int
  wq_MaxSubscriptionRequestsPerDay :: int

record QuotaCache =
  qc_userAPIQuotas :: "(string \<times> UserAPIQuota \<times> time) list"
  qc_webhookQuotas :: "(string \<times> DBWebhookQuota \<times> time) list"
  qc_ttl :: int

definition NewQuotaCache :: "int \<Rightarrow> QuotaCache" where
  "NewQuotaCache ttl = \<lparr>qc_userAPIQuotas = [], qc_webhookQuotas = [], qc_ttl = ttl\<rparr>"

text \<open>What both lookups do with their map; \<open>store\<close> is the store's \<open>GetOrDefault\<close>.\<close>

definition cached_quota :: "time \<Rightarrow> int \<Rightarrow> (string \<Rightarrow> 'q) \<Rightarrow> (string \<times> 'q \<times> time) list \<Rightarrow> string \<Rightarrow> 'q \<times> (string \<times> 'q \<times> time) list" where
  "cached_quota now ttl store m userID =
    (case map_of m userID of
       Some (quota, expiresAt) \<Rightarrow>
         if now < expiresAt then (quota, m) else (store userID, AList.update userID (store userID, now + ttl) m)
     | None \<Rightarrow> (store userID, AList.update userID (store userID, now + ttl) m))"

definition GetUserAPIQuota :: "time \<Rightarrow> (string \<Rightarrow> UserAPIQuota) \<Rightarrow> QuotaCache \<Rightarrow> string \<Rightarrow> UserAPIQuota \<times> QuotaCache" where
  "GetUserAPIQuota now store c userID =
    (let (q, m) = cached_quota now (qc_ttl c) store (qc_userAPIQuotas c) userID in (q, c\<lparr>qc_userAPIQuotas := m\<rparr>))"

definition GetWebhookQuota :: "time \<Rightarrow> (string \<Rightarrow> DBWebhookQuota) \<Rightarrow> QuotaCache \<Rightarrow> string \<Rightarrow> DBWebhookQuota \<times> QuotaCache" where
  "GetWebhookQuota now store c userID =
    (let (q, m) = cached_quota now (qc_ttl c) store (qc_webhookQuotas c) userID in (q, c\<lparr>qc_webhookQuotas := m\<rparr>))"

definition InvalidateUserAPIQuota :: "QuotaCache \<Rightarrow> string \<Rightarrow> QuotaCache" where
  "InvalidateUserAPIQuota c userID = c\<lparr>qc_userAPIQuotas := AList.delete userID (qc_userAPIQuotas c)\<rparr>"

definition InvalidateWebhookQuota :: "QuotaCache \<Rightarrow> string \<Rightarrow> QuotaCache" where
  "InvalidateWebhookQuota c userID = c\<lparr>qc_webhookQuotas := AList.delete userID (qc_webhookQuotas c)\<rparr>"

definition InvalidateAll :: "QuotaCache \<Rightarrow> QuotaCache" where
  "InvalidateAll c = c\<lparr>qc_userAPIQuotas := [], qc_webhookQuotas := []\<rparr>"

definition cleanupExpired :: "time \<Rightarrow> QuotaCache \<Rightarrow> QuotaCache" where
  "cleanupExpired now c = c\<lparr>qc_userAPIQuotas := filter (\<lambda>(u, q, e). \<not> e < now) (qc_userAPIQuotas c),
     qc_webhookQuotas := filter (\<lambda>(u, q, e). \<not> e < now) (qc_webhookQuotas c)\<rparr>"

definition ValidateQuotaValue :: "int \<Rightarrow> int \<Rightarrow> int \<Rightarrow> string \<Rightarrow> string option" where
  "ValidateQuotaValue v minVal maxVal fieldName =
    (if v < minVal then Some (fieldName @ '' must be at least '' @ string_of_int minVal @ '' (got '' @ string_of_int v @ '')'')
     else if v > maxVal then
       Some (fieldName @ '' exceeds maximum allowed value of '' @ string_of_int maxVal @ '' (got '' @ string_of_int v @ '')'')
     else None)"

subsection \<open>Per user\<close>

definition current_quota :: "time \<Rightarrow> (string \<Rightarrow> UserAPIQuota) \<Rightarrow> QuotaCache option \<Rightarrow> string \<Rightarrow> UserAPIQuota \<times> QuotaCache option" where
  "current_quota now store cache userID =
    (case cache of
       Some c \<Rightarrow> let (q, c') = GetUserAPIQuota now store c userID in (q, Some c')
     | None \<Rightarrow> (store userID, None))"

definition check_failed :: "go_error \<Rightarrow> go_error" where
  "check_failed e = errorf_wrap ''rate limit check failed: '' e"

definition api_CheckRateLimit ::
  "'r redis_zsets \<Rightarrow> 'r \<Rightarrow> UserAPIQuota \<Rightarrow> string \<Rightarrow> clock \<Rightarrow> clock \<Rightarrow> 'r \<times> (go_error + bool \<times> int)" where
  "api_CheckRateLimit z r quota userID t1 t2 =
    (case CheckSlidingWindow z r (''api:ratelimit:minute:'' @ userID) (uq_MaxRequestsPerMinute quota) 60 (fst t1) (snd t1) of
       (r1, Inl e) \<Rightarrow> (r1, Inl (check_failed e))
     | (r1, Inr (False, retryAfter)) \<Rightarrow> (r1, Inr (False, retryAfter))
     | (r1, Inr (True, _)) \<Rightarrow>
       (case uq_MaxRequestsPerHour quota of
          None \<Rightarrow> (r1, Inr (True, 0))
        | Some perHour \<Rightarrow>
          (case CheckSlidingWindow z r1 (''api:ratelimit:hour:'' @ userID) perHour 3600 (fst t2) (snd t2) of
             (r2, Inl e) \<Rightarrow> (r2, Inl (check_failed e))
           | (r2, Inr (False, retryAfter)) \<Rightarrow> (r2, Inr (False, retryAfter))
           | (r2, Inr (True, _)) \<Rightarrow> (r2, Inr (True, 0)))))"

definition api_GetRateLimitInfo :: "'r redis_zsets \<Rightarrow> 'r \<Rightarrow> UserAPIQuota \<Rightarrow> string \<Rightarrow> int \<Rightarrow> int \<times> int \<times> int" where
  "api_GetRateLimitInfo z r quota userID now =
    (case window_GetRateLimitInfo z r (''api:ratelimit:minute:'' @ userID) (uq_MaxRequestsPerMinute quota) 60 now of
       (remaining, resetAt, None) \<Rightarrow> (uq_MaxRequestsPerMinute quota, remaining, resetAt)
     | (_, _, Some e) \<Rightarrow> (uq_MaxRequestsPerMinute quota, uq_MaxRequestsPerMinute quota, now + 60))"

subsection \<open>Per address\<close>

definition ip_key :: "int \<Rightarrow> string \<Rightarrow> string" where
  "ip_key windowSeconds ipAddress = ''ip:ratelimit:'' @ string_of_int windowSeconds @ ''s:'' @ ipAddress"

definition ip_CheckRateLimit ::
  "'r redis_zsets \<Rightarrow> 'r \<Rightarrow> string \<Rightarrow> int \<Rightarrow> int \<Rightarrow> clock \<Rightarrow> 'r \<times> (go_error + bool \<times> int)" where
  "ip_CheckRateLimit z r ipAddress limit windowSeconds t =
    (case CheckSlidingWindow z r (ip_key windowSeconds ipAddress) limit windowSeconds (fst t) (snd t) of
       (r1, Inl e) \<Rightarrow> (r1, Inl (check_failed e))
     | (r1, Inr res) \<Rightarrow> (r1, Inr res))"

definition ip_GetRateLimitInfo :: "'r redis_zsets \<Rightarrow> 'r \<Rightarrow> string \<Rightarrow> int \<Rightarrow> int \<Rightarrow> int \<Rightarrow> int \<times> int" where
  "ip_GetRateLimitInfo z r ipAddress limit windowSeconds now =
    (case window_GetRateLimitInfo z r (ip_key windowSeconds ipAddress) limit windowSeconds now of
       (remaining, resetAt, None) \<Rightarrow> (remaining, resetAt)
     | (_, _, Some e) \<Rightarrow> (limit, now + windowSeconds))"

subsection \<open>Authentication flows\<close>

record RateLimitResult =
  rl_Allowed :: bool
  rl_BlockedByScope :: string
  rl_RetryAfter :: int
  rl_Limit :: int
  rl_Remaining :: int
  rl_ResetAt :: int

definition rl_pass :: RateLimitResult where
  "rl_pass = \<lparr>rl_Allowed = True, rl_BlockedByScope = [], rl_RetryAfter = 0, rl_Limit = 0, rl_Remaining = 0, rl_ResetAt = 0\<rparr>"

definition ResetUserRateLimit :: "'r redis_zsets \<Rightarrow> 'r option \<Rightarrow> string \<Rightarrow> 'r option" where
  "ResetUserRateLimit z redis userIdentifier =
    (if userIdentifier = [] then redis
     else map_option (\<lambda>r. fst (z_Del z r (''auth:ratelimit:user:60s:'' @ userIdentifier))) redis)"

text \<open>One scope: nothing to check when the identifier is empty; \<open>Inr None\<close> is to go on.\<close>

definition check_scope ::
  "'r redis_zsets \<Rightarrow> string \<Rightarrow> string \<Rightarrow> string \<Rightarrow> string \<Rightarrow> int \<Rightarrow> clock \<Rightarrow> 'r \<Rightarrow> 'r \<times> (go_error + RateLimitResult option)" where
  "check_scope z scope failed prefix ident limit t r =
    (if ident = [] then (r, Inr None)
     else case CheckSlidingWindow z r (prefix @ ident) limit 60 (fst t) (snd t) of
       (r1, Inl e) \<Rightarrow> (r1, Inl (errorf_wrap failed e))
     | (r1, Inr (True, _)) \<Rightarrow> (r1, Inr None)
     | (r1, Inr (False, retryAfter)) \<Rightarrow>
       (let (remaining, resetAt, _) = window_GetRateLimitInfo z r1 (prefix @ ident) limit 60 (fst t)
        in (r1, Inr (Some \<lparr>rl_Allowed = False, rl_BlockedByScope = scope, rl_RetryAfter = retryAfter, rl_Limit = limit,
                           rl_Remaining = remaining, rl_ResetAt = resetAt\<rparr>))))"

definition scope_then ::
  "'r \<times> (go_error + RateLimitResult option) \<Rightarrow> ('r \<Rightarrow> 'r \<times> (go_error + RateLimitResult)) \<Rightarrow> 'r \<times> (go_error + RateLimitResult)" where
  "scope_then res next =
    (case res of (r, Inl e) \<Rightarrow> (r, Inl e) | (r, Inr (Some blocked)) \<Rightarrow> (r, Inr blocked) | (r, Inr None) \<Rightarrow> next r)"

definition checkRateLimitWithIPLimit ::
  "'r redis_zsets \<Rightarrow> bool \<Rightarrow> 'r option \<Rightarrow> string \<Rightarrow> string \<Rightarrow> string \<Rightarrow> int \<Rightarrow> clock \<Rightarrow> 'r option \<times> (go_error + RateLimitResult)" where
  "checkRateLimitWithIPLimit z testMode redis sessionID ipAddress userIdentifier ipLimit t =
    (if testMode then (redis, Inr rl_pass)
     else case redis of
       None \<Rightarrow> (None, Inr rl_pass)
     | Some r \<Rightarrow>
       map_prod Some id
         (scope_then (check_scope z ''session'' ''session rate limit check failed: '' ''auth:ratelimit:session:60s:'' sessionID 100 t r) (\<lambda>r1.
          scope_then (check_scope z ''user'' ''user identifier rate limit check failed: '' ''auth:ratelimit:user:60s:'' userIdentifier 50 t r1) (\<lambda>r2.
          scope_then (check_scope z ''ip'' ''IP rate limit check failed: '' ''auth:ratelimit:ip:60s:'' ipAddress ipLimit t r2) (\<lambda>r3.
          (let (remaining, resetAt) =
             (if sessionID \<noteq> [] then
                (let (a, b, _) = window_GetRateLimitInfo z r3 (''auth:ratelimit:session:60s:'' @ sessionID) 100 60 (fst t) in (a, b))
              else (100, fst t + 60))
           in (r3, Inr (rl_pass\<lparr>rl_Limit := 100, rl_Remaining := remaining, rl_ResetAt := resetAt\<rparr>))))))))"

definition auth_CheckRateLimit ::
  "'r redis_zsets \<Rightarrow> bool \<Rightarrow> 'r option \<Rightarrow> string \<Rightarrow> string \<Rightarrow> string \<Rightarrow> clock \<Rightarrow> 'r option \<times> (go_error + RateLimitResult)" where
  "auth_CheckRateLimit z testMode redis sessionID ipAddress userIdentifier t =
     checkRateLimitWithIPLimit z testMode redis sessionID ipAddress userIdentifier 100 t"

subsection \<open>Webhooks and add-ons\<close>

text \<open>\<open>counted\<close> is the number of the owner's subscriptions, or why it could not be had.\<close>

definition CheckSubscriptionLimit :: "bool \<Rightarrow> DBWebhookQuota \<Rightarrow> go_error + int \<Rightarrow> go_error option" where
  "CheckSubscriptionLimit redisAvailable quota counted =
    (if \<not> redisAvailable then None
     else case counted of
       Inl e \<Rightarrow> Some (errorf_wrap ''failed to check subscription limit: '' e)
     | Inr n \<Rightarrow>
       if n \<ge> wq_MaxSubscriptions quota
       then Some (errors_New (''subscription limit exceeded: '' @ string_of_int n @ ''/'' @ string_of_int (wq_MaxSubscriptions quota)))
       else None)"

definition CheckSubscriptionRequestLimit ::
  "'r redis_zsets \<Rightarrow> 'r \<Rightarrow> DBWebhookQuota \<Rightarrow> string \<Rightarrow> clock \<Rightarrow> clock \<Rightarrow> 'r \<times> go_error option" where
  "CheckSubscriptionRequestLimit z r quota ownerID t1 t2 =
    (case CheckSlidingWindowSimple z r (''webhook:ratelimit:sub:minute:'' @ ownerID) (wq_MaxSubscriptionRequestsPerMinute quota) 60 (fst t1) (snd t1) of
       (r1, Inl e) \<Rightarrow> (r1, Some (check_failed e))
     | (r1, Inr False) \<Rightarrow> (r1, Some (errors_New (''subscription request rate limit exceeded: '' @
           string_of_int (wq_MaxSubscriptionRequestsPerMinute quota) @ '' requests per minute'')))
     | (r1, Inr True) \<Rightarrow>
       (case CheckSlidingWindowSimple z r1 (''webhook:ratelimit:sub:day:'' @ ownerID) (wq_MaxSubscriptionRequestsPerDay quota) 86400 (fst t2) (snd t2) of
          (r2, Inl e) \<Rightarrow> (r2, Some (check_failed e))
        | (r2, Inr False) \<Rightarrow> (r2, Some (errors_New (''subscription request rate limit exceeded: '' @
              string_of_int (wq_MaxSubscriptionRequestsPerDay quota) @ '' requests per day'')))
        | (r2, Inr True) \<Rightarrow> (r2, None)))"

definition CheckEventPublicationLimit ::
  "'r redis_zsets \<Rightarrow> 'r \<Rightarrow> DBWebhookQuota \<Rightarrow> string \<Rightarrow> clock \<Rightarrow> 'r \<times> go_error option" where
  "CheckEventPublicationLimit z r quota ownerID t =
    (case CheckSlidingWindowSimple z r (''webhook:ratelimit:events:minute:'' @ ownerID) (wq_MaxEventsPerMinute quota) 60 (fst t) (snd t) of
       (r1, Inl e) \<Rightarrow> (r1, Some (check_failed e))
     | (r1, Inr False) \<Rightarrow> (r1, Some (errors_New (''event publication rate limit exceeded: '' @ string_of_int (wq_MaxEventsPerMinute quota) @ '' events per minute'')))
     | (r1, Inr True) \<Rightarrow> (r1, None))"

definition RecordSubscriptionRequest :: "'r redis_zsets \<Rightarrow> 'r \<Rightarrow> string \<Rightarrow> int \<Rightarrow> int \<Rightarrow> int \<Rightarrow> 'r \<times> go_error option" where
  "RecordSubscriptionRequest z r ownerID now n1 n2 =
    (case RecordInWindow z r (''webhook:ratelimit:sub:minute:'' @ ownerID) now 120 n1 of
       (r1, Some e) \<Rightarrow> (r1, Some e)
     | (r1, None) \<Rightarrow> RecordInWindow z r1 (''webhook:ratelimit:sub:day:'' @ ownerID) now 86460 n2)"

definition RecordEventPublication :: "'r redis_zsets \<Rightarrow> 'r \<Rightarrow> string \<Rightarrow> int \<Rightarrow> int \<Rightarrow> 'r \<times> go_error option" where
  "RecordEventPublication z r ownerID now nano = RecordInWindow z r (''webhook:ratelimit:events:minute:'' @ ownerID) now 120 nano"

text \<open>The hourly limit of add-on invocations: the count at fault, and when to retry.\<close>

datatype hourly_check = HourlyOk | HourlyFailed go_error | HourlyExceeded int int

definition addon_key :: "string \<Rightarrow> string" where
  "addon_key userID = ''addon:ratelimit:hour:'' @ userID"

definition CheckHourlyRateLimit :: "'r redis_zsets \<Rightarrow> 'r \<Rightarrow> go_error + int \<Rightarrow> string \<Rightarrow> int \<Rightarrow> 'r \<times> hourly_check" where
  "CheckHourlyRateLimit z r quota userID now =
    (case quota of
       Inl e \<Rightarrow> (r, HourlyFailed (errorf_wrap ''failed to check quota: '' e))
     | Inr maxPerHour \<Rightarrow>
       (let windowStart = now - 3600; r1 = fst (z_RemRangeByScore z r (addon_key userID) 0 windowStart) in
        case z_Count z r1 (addon_key userID) windowStart (Some now) of
          Inl e \<Rightarrow> (r1, HourlyFailed (errorf_wrap ''failed to check rate limit: '' e))
        | Inr n \<Rightarrow>
          if n \<ge> maxPerHour then
            (r1, HourlyExceeded n (case z_Oldest z r1 (addon_key userID) of Inr (Some oldest) \<Rightarrow> max (oldest + 3600 - now) 0 | _ \<Rightarrow> 3600))
          else (r1, HourlyOk)))"

definition RecordInvocation :: "'r redis_zsets \<Rightarrow> 'r \<Rightarrow> string \<Rightarrow> clock \<Rightarrow> 'r \<times> go_error option" where
  "RecordInvocation z r userID t =
    (case z_Add z r (addon_key userID) (fst t) (window_member (fst t) (snd t)) of
       (r1, Some e) \<Rightarrow> (r1, Some (errorf_wrap ''failed to record invocation: '' e))
     | (r1, None) \<Rightarrow> (fst (z_Expire z r1 (addon_key userID) 3660), None))"

subsection \<open>The assistant\<close>

text \<open>
  The limiter of the assistant is in memory and guarded by a mutex: each call is one step. Times are in
  nanoseconds. Taking a slot is a compare-and-swap loop, one step when it succeeds.
\<close>

record TimmyRateLimiter =
  tl_userMessageCounts :: "(string \<times> int list) list"
  tl_concurrentLLM :: "32 word"

definition NewTimmyRateLimiter :: TimmyRateLimiter where
  "NewTimmyRateLimiter = \<lparr>tl_userMessageCounts = [], tl_concurrentLLM = 0\<rparr>"

definition hour :: int where
  "hour = 3600000000000"

definition sw_count :: "int \<Rightarrow> int \<Rightarrow> int list \<Rightarrow> int list" where
  "sw_count now window timestamps = filter (\<lambda>ts. now - window < ts) timestamps"

definition AllowMessage :: "int \<Rightarrow> int \<Rightarrow> TimmyRateLimiter \<Rightarrow> string \<Rightarrow> TimmyRateLimiter \<times> bool" where
  "AllowMessage maxMessages now rl userID =
    (let sw = (case map_of (tl_userMessageCounts rl) userID of Some ts \<Rightarrow> ts | None \<Rightarrow> []);
         valid = sw_count now hour sw
     in if int (length valid) \<ge> maxMessages
        then (rl\<lparr>tl_userMessageCounts := AList.update userID valid (tl_userMessageCounts rl)\<rparr>, False)
        else (rl\<lparr>tl_userMessageCounts := AList.update userID (valid @ [now]) (tl_userMessageCounts rl)\<rparr>, True))"

definition AcquireLLMSlot :: "int \<Rightarrow> TimmyRateLimiter \<Rightarrow> TimmyRateLimiter \<times> bool" where
  "AcquireLLMSlot maxConcurrent rl =
    (if sint (tl_concurrentLLM rl) \<ge> maxConcurrent then (rl, False)
     else (rl\<lparr>tl_concurrentLLM := tl_concurrentLLM rl + 1\<rparr>, True))"

definition ReleaseLLMSlot :: "TimmyRateLimiter \<Rightarrow> TimmyRateLimiter" where
  "ReleaseLLMSlot rl = rl\<lparr>tl_concurrentLLM := tl_concurrentLLM rl - 1\<rparr>"

subsection \<open>Requests\<close>

text \<open>What the middleware reads of a request; \<open>rq_ClientIP\<close> is what \<open>gin.Context.ClientIP\<close> gives.\<close>

record http_request =
  rq_Path :: string
  rq_Header :: "string \<Rightarrow> string"
  rq_Query :: "string \<Rightarrow> string"
  rq_PostForm :: "string \<Rightarrow> string"
  rq_ClientIP :: string
  rq_UserID :: "string option"

definition isPublicEndpoint :: "string \<Rightarrow> bool" where
  "isPublicEndpoint path \<longleftrightarrow> strings_HasPrefix path ''/.well-known/''"

definition isAuthFlowEndpoint :: "string \<Rightarrow> bool" where
  "isAuthFlowEndpoint path \<longleftrightarrow> path \<in> set [''/oauth2/authorize'', ''/oauth2/callback'', ''/oauth2/token'', ''/oauth2/refresh'',
     ''/oauth2/introspect'', ''/saml/login'', ''/saml/acs'', ''/saml/slo'']"

definition isTokenEndpoint :: "string \<Rightarrow> bool" where
  "isTokenEndpoint path \<longleftrightarrow> path = ''/oauth2/token''"

definition extractIPAddress :: "http_request \<Rightarrow> bool \<Rightarrow> string" where
  "extractIPAddress q trustedProxiesConfigured =
    (if trustedProxiesConfigured then rq_ClientIP q
     else if rq_Header q ''X-Forwarded-For'' \<noteq> [] then strings_TrimSpace (hd (strings_Split (rq_Header q ''X-Forwarded-For'') CHR '',''))
     else if rq_Header q ''X-Real-IP'' \<noteq> [] then rq_Header q ''X-Real-IP''
     else rq_ClientIP q)"

definition first_nonempty :: "string list \<Rightarrow> string" where
  "first_nonempty xs = (case find (\<lambda>x. x \<noteq> []) xs of Some x \<Rightarrow> x | None \<Rightarrow> [])"

definition extractSessionID :: "http_request \<Rightarrow> string" where
  "extractSessionID q = first_nonempty [rq_Query q ''state'', rq_Query q ''RelayState'', rq_Query q ''code'',
     rq_PostForm q ''code'', rq_PostForm q ''refresh_token'']"

definition extractUserIdentifier :: "http_request \<Rightarrow> string" where
  "extractUserIdentifier q = strings_ToLower (strings_TrimSpace (first_nonempty [rq_Query q ''login_hint'', rq_PostForm q ''client_id'']))"

definition isLoopbackAddress :: "string \<Rightarrow> bool" where
  "isLoopbackAddress ip \<longleftrightarrow> (case ParseIP ip of Some a \<Rightarrow> IsLoopback a | None \<Rightarrow> False)"

subsection \<open>Middleware\<close>

text \<open>
  A middleware passes the request on or answers 429 with the time to wait; both come with the rate limit
  headers it set: limit, remaining, reset.
\<close>

datatype rl_outcome = Next "(int \<times> int \<times> int) option" | TooManyRequests "int \<times> int \<times> int" int string

text \<open>None for the limiter is no limiter configured.\<close>

definition IPRateLimitMiddleware ::
  "'r redis_zsets \<Rightarrow> bool \<Rightarrow> (int \<times> int) option \<Rightarrow> bool \<Rightarrow> 'r option \<Rightarrow> http_request \<Rightarrow> clock \<Rightarrow> 'r option \<times> rl_outcome" where
  "IPRateLimitMiddleware z disabled limiter trusted redis q t =
    (if disabled then (redis, Next None)
     else case limiter of
       None \<Rightarrow> (redis, Next None)
     | Some (limit, window) \<Rightarrow>
       if \<not> isPublicEndpoint (rq_Path q) then (redis, Next None)
       else (let ipAddress = extractIPAddress q trusted in
         if ipAddress = [] \<or> isLoopbackAddress ipAddress then (redis, Next None)
         else case redis of
           None \<Rightarrow> (None, Next (Some (limit, limit, fst t + window)))
         | Some r \<Rightarrow>
           (case ip_CheckRateLimit z r ipAddress limit window t of
              (r1, Inl e) \<Rightarrow> (Some r1, Next None)
            | (r1, Inr (allowed, retryAfter)) \<Rightarrow>
              (let (remaining, resetAt) = ip_GetRateLimitInfo z r1 ipAddress limit window (fst t); headers = (limit, remaining, resetAt)
               in (Some r1, if allowed then Next (Some headers) else TooManyRequests headers retryAfter [])))))"

text \<open>\<open>status\<close> is the status the rest of the chain answers with.\<close>

definition AuthFlowRateLimitMiddleware ::
  "'r redis_zsets \<Rightarrow> bool \<Rightarrow> bool \<Rightarrow> bool \<Rightarrow> bool \<Rightarrow> 'r option \<Rightarrow> http_request \<Rightarrow> clock \<Rightarrow> nat \<Rightarrow> 'r option \<times> rl_outcome" where
  "AuthFlowRateLimitMiddleware z disabled configured testMode trusted redis q t status =
    (if disabled \<or> \<not> configured \<or> \<not> isAuthFlowEndpoint (rq_Path q) then (redis, Next None)
     else
       (let userIdentifier = extractUserIdentifier q; ip = extractIPAddress q trusted;
            ipAddress = (if isLoopbackAddress ip then [] else ip)
        in case auth_CheckRateLimit z testMode redis (extractSessionID q) ipAddress userIdentifier t of
             (redis1, Inl e) \<Rightarrow> (redis1, Next None)
           | (redis1, Inr res) \<Rightarrow>
             (let headers = (rl_Limit res, rl_Remaining res, rl_ResetAt res) in
              if \<not> rl_Allowed res then (redis1, TooManyRequests headers (rl_RetryAfter res) (rl_BlockedByScope res))
              else if isTokenEndpoint (rq_Path q) \<and> status = 200 \<and> userIdentifier \<noteq> []
                then (ResetUserRateLimit z redis1 userIdentifier, Next (Some headers))
              else (redis1, Next (Some headers)))))"

definition RateLimitMiddleware ::
  "'r redis_zsets \<Rightarrow> (string \<Rightarrow> UserAPIQuota) \<Rightarrow> bool \<Rightarrow> bool \<Rightarrow> 'r option \<times> QuotaCache option \<Rightarrow> http_request \<Rightarrow> clock \<Rightarrow> clock \<Rightarrow>
   ('r option \<times> QuotaCache option) \<times> rl_outcome" where
  "RateLimitMiddleware z store disabled configured w q t1 t2 =
    (case w of (redis, cache) \<Rightarrow>
     if disabled \<or> \<not> configured \<or> isPublicEndpoint (rq_Path q) \<or> isAuthFlowEndpoint (rq_Path q) then (w, Next None)
     else case rq_UserID q of
       None \<Rightarrow> (w, Next None)
     | Some userID \<Rightarrow>
       if userID = [] then (w, Next None)
       else case redis of
         None \<Rightarrow> (w, Next (Some (1000, 1000, fst t1 + 60)))
       | Some r \<Rightarrow>
         (let (quota, cache1) = current_quota (fst t1) store cache userID in
          case api_CheckRateLimit z r quota userID t1 t2 of
            (r1, Inl e) \<Rightarrow> ((Some r1, cache1), Next None)
          | (r1, Inr (allowed, retryAfter)) \<Rightarrow>
            (let (quota2, cache2) = current_quota (fst t2) store cache1 userID;
                 headers = api_GetRateLimitInfo z r1 quota2 userID (fst t2)
             in ((Some r1, cache2), if allowed then Next (Some headers) else TooManyRequests headers retryAfter []))))"

subsection \<open>Messages to the assistant\<close>

fun run_messages :: "int \<Rightarrow> TimmyRateLimiter \<Rightarrow> (int \<times> string) list \<Rightarrow> (int \<times> string \<times> bool) list" where
  "run_messages maxMessages rl [] = []"
| "run_messages maxMessages rl ((now, userID) # calls) =
    (let (rl', ok) = AllowMessage maxMessages now rl userID in (now, userID, ok) # run_messages maxMessages rl' calls)"

definition window_of :: "TimmyRateLimiter \<Rightarrow> string \<Rightarrow> int list" where
  "window_of rl u = (case map_of (tl_userMessageCounts rl) u of Some ts \<Rightarrow> ts | None \<Rightarrow> [])"

lemma window_of_AllowMessage:
  "AllowMessage maxMessages now rl u = (rl', ok) \<Longrightarrow>
   window_of rl' v = (if v = u then (if ok then sw_count now hour (window_of rl u) @ [now] else sw_count now hour (window_of rl u)) else window_of rl v) \<and>
   (ok \<longleftrightarrow> int (length (sw_count now hour (window_of rl u))) < maxMessages)"
  by (auto simp: AllowMessage_def window_of_def Let_def update_conv' split: if_splits)

text \<open>The window holds exactly the admissions that are less than an hour old.\<close>

lemma run_messages_bounded:
  assumes "\<And>t. now - hour \<le> t \<Longrightarrow> filter (\<lambda>a. t < a) (window_of rl u) = filter (\<lambda>a. t < a) adm"
    and "\<forall>a\<in>set adm. a \<le> now" "sorted (now # map fst calls)" "bounded maxMessages hour adm"
  shows "bounded maxMessages hour (adm @ map fst (filter (\<lambda>(t, v, ok). v = u \<and> ok) (run_messages maxMessages rl calls)))"
  using assms
proof (induction calls arbitrary: rl adm now)
  case (Cons call calls)
  obtain t v where call: "call = (t, v)" by fastforce
  obtain rl' ok where step: "AllowMessage maxMessages t rl v = (rl', ok)" by fastforce
  have t: "now \<le> t" "sorted (t # map fst calls)" using Cons.prems(3) by (simp_all add: call)
  note w = window_of_AllowMessage [OF step, of u]
  let ?adm = "if v = u \<and> ok then adm @ [t] else adm"
  have eq: "filter (\<lambda>a. x < a) (window_of rl u) = filter (\<lambda>a. x < a) adm" if "t - hour \<le> x" for x
    using Cons.prems(1) t(1) that by simp
  have "filter (\<lambda>a. x < a) (window_of rl' u) = filter (\<lambda>a. x < a) ?adm" if "t - hour \<le> x" for x
  proof -
    have "filter (\<lambda>a. x < a) (sw_count t hour (window_of rl u)) = filter (\<lambda>a. x < a) (window_of rl u)"
      using that by (auto simp: sw_count_def intro!: filter_cong)
    then show ?thesis using w eq [OF that] by auto
  qed
  moreover have "\<forall>a\<in>set ?adm. a \<le> t" using Cons.prems(2) t(1) by auto
  moreover have "bounded maxMessages hour ?adm"
  proof (cases "v = u \<and> ok")
    case True
    have "filter (\<lambda>a. t - hour < a) adm = sw_count t hour (window_of rl u)" using eq [of "t - hour"] by (simp add: sw_count_def)
    with True w Cons.prems(2) t(1) show ?thesis by (auto intro!: bounded_admit [OF Cons.prems(4)])
  qed (use Cons.prems(4) in auto)
  ultimately have "bounded maxMessages hour (?adm @ map fst (filter (\<lambda>(t, v, ok). v = u \<and> ok) (run_messages maxMessages rl' calls)))"
    using t(2) by (intro Cons.IH)
  then show ?case by (auto simp: call step split: if_splits)
qed simp

text \<open>
  The assistant's hourly limit holds: however the messages of users interleave, in no hour are more
  than \<open>maxMessages\<close> messages of one user admitted.
\<close>

theorem assistant_message_bound:
  assumes "sorted (map fst calls)"
  shows "int (length (filter (\<lambda>(t, v, ok). v = u \<and> ok \<and> T - hour < t \<and> t \<le> T) (run_messages maxMessages NewTimmyRateLimiter calls))) \<le> max maxMessages 0"
proof (cases calls)
  case (Cons call rest)
  have "bounded maxMessages hour ([] @ map fst (filter (\<lambda>(t, v, ok). v = u \<and> ok) (run_messages maxMessages NewTimmyRateLimiter calls)))"
    by (rule run_messages_bounded [where now = "fst call"])
      (use assms Cons in \<open>simp_all add: window_of_def NewTimmyRateLimiter_def bounded_def\<close>)
  then have "bounded maxMessages hour (map fst (filter (\<lambda>(t, v, ok). v = u \<and> ok) (run_messages maxMessages NewTimmyRateLimiter calls)))"
    by (simp only: append_Nil)
  then show ?thesis by (simp add: bounded_def filter_map comp_def case_prod_unfold conj_ac)
qed simp

theorem assistant_message_bound_witness:
  "run_messages 1 NewTimmyRateLimiter [(10, ''a''), (20, ''a''), (30, ''b'')] = [(10, ''a'', True), (20, ''a'', False), (30, ''b'', True)] \<and>
   int (length (filter (\<lambda>(t, v, ok). v = ''a'' \<and> ok \<and> 40 - hour < t \<and> t \<le> 40)
     (run_messages 1 NewTimmyRateLimiter [(10, ''a''), (20, ''a''), (30, ''b'')]))) \<le> max 1 0"
proof
  show "run_messages 1 NewTimmyRateLimiter [(10, ''a''), (20, ''a''), (30, ''b'')] = [(10, ''a'', True), (20, ''a'', False), (30, ''b'', True)]"
    by code_simp
qed (rule assistant_message_bound, simp)

subsection \<open>Spoofed addresses\<close>

text \<open>
  A forged header lifts the limits per address: without trusted proxies the client names its own
  address, and one that names a loopback address is never limited on the discovery endpoints, whatever
  the limit and the store, and never blocked by the address scope of an authentication flow.
\<close>

theorem forged_loopback_unlimited:
  assumes "isLoopbackAddress (strings_TrimSpace (hd (strings_Split (rq_Header q ''X-Forwarded-For'') CHR '','')))"
    and "rq_Header q ''X-Forwarded-For'' \<noteq> []"
  shows "IPRateLimitMiddleware z disabled limiter False redis q t = (redis, Next None) \<and>
    (snd (AuthFlowRateLimitMiddleware z disabled configured testMode False redis q t status) = TooManyRequests h ra scope \<longrightarrow> scope \<noteq> ''ip'')"
proof -
  have ip: "isLoopbackAddress (extractIPAddress q False)" using assms by (simp add: extractIPAddress_def)
  then have 1: "IPRateLimitMiddleware z disabled limiter False redis q t = (redis, Next None)"
    by (simp add: IPRateLimitMiddleware_def Let_def split: option.split)
  have blocked: "rl_BlockedByScope res \<noteq> ''ip''" if "auth_CheckRateLimit z testMode redis sid [] uid t = (redis1, Inr res)" for sid uid redis1 res
    using that
    by (auto simp: auth_CheckRateLimit_def checkRateLimitWithIPLimit_def check_scope_def scope_then_def rl_pass_def Let_def map_prod_def
        split: if_splits option.splits prod.splits sum.splits bool.splits)
  have "scope \<noteq> ''ip''" if "snd (AuthFlowRateLimitMiddleware z disabled configured testMode False redis q t status) = TooManyRequests h ra scope"
    using that ip blocked
    by (auto simp: AuthFlowRateLimitMiddleware_def Let_def split: if_splits prod.splits sum.splits)
  with 1 show ?thesis by blast
qed

theorem forged_loopback_unlimited_witness:
  "let q = \<lparr>rq_Path = ''/.well-known/openid-configuration'', rq_Header = (\<lambda>h. if h = ''X-Forwarded-For'' then ''127.0.0.1, 203.0.113.9'' else []),
     rq_Query = (\<lambda>_. []), rq_PostForm = (\<lambda>_. []), rq_ClientIP = ''203.0.113.9'', rq_UserID = None\<rparr>
   in IPRateLimitMiddleware mem_zsets False (Some (0, 60)) False (Some mem_new) q (100, 1) = (Some mem_new, Next None) \<and>
      extractIPAddress q True = ''203.0.113.9''"
proof -
  let ?q = "\<lparr>rq_Path = ''/.well-known/openid-configuration'', rq_Header = (\<lambda>h. if h = ''X-Forwarded-For'' then ''127.0.0.1, 203.0.113.9'' else []),
     rq_Query = (\<lambda>_. []), rq_PostForm = (\<lambda>_. []), rq_ClientIP = ''203.0.113.9'', rq_UserID = None\<rparr>"
  have "isLoopbackAddress (strings_TrimSpace (hd (strings_Split (rq_Header ?q ''X-Forwarded-For'') CHR '','')))" by code_simp
  moreover have "rq_Header ?q ''X-Forwarded-For'' \<noteq> []" by simp
  ultimately have "IPRateLimitMiddleware mem_zsets False (Some (0, 60)) False (Some mem_new) ?q (100, 1) = (Some mem_new, Next None)"
    using forged_loopback_unlimited [of ?q] by blast
  then show ?thesis by (simp add: Let_def extractIPAddress_def)
qed

subsection \<open>Cached quotas\<close>

text \<open>
  How old a cached quota can be: while the store's answers change over time as \<open>S\<close> says, a lookup gives
  the answer of some moment within the cache's lifetime, and keeps every entry what the store said when
  it was cached.
\<close>

definition quotas_recorded :: "(time \<Rightarrow> string \<Rightarrow> 'q) \<Rightarrow> int \<Rightarrow> time \<Rightarrow> (string \<times> 'q \<times> time) list \<Rightarrow> bool" where
  "quotas_recorded S ttl now m \<longleftrightarrow> (\<forall>u q e. map_of m u = Some (q, e) \<longrightarrow> q = S (e - ttl) u \<and> e - ttl \<le> now)"

lemma cached_quota_recent:
  assumes "quotas_recorded S ttl now m" "0 < ttl" "cached_quota now ttl (S now) m u = (q, m')"
  shows "(\<exists>t. now - ttl < t \<and> t \<le> now \<and> q = S t u) \<and> quotas_recorded S ttl now m'"
proof (cases "\<exists>q' e. map_of m u = Some (q', e) \<and> now < e")
  case True
  then obtain e where e: "map_of m u = Some (q, e)" "now < e" "m' = m" using assms(3) by (auto simp: cached_quota_def)
  then have "now - ttl < e - ttl \<and> e - ttl \<le> now \<and> q = S (e - ttl) u" using assms(1) by (auto simp: quotas_recorded_def)
  with assms(1) e(3) show ?thesis by blast
next
  case False
  then have "q = S now u" "m' = AList.update u (S now u, now + ttl) m"
    using assms(3) by (auto simp: cached_quota_def split: option.splits if_splits)
  then have "quotas_recorded S ttl now m'" "now - ttl < now \<and> now \<le> now \<and> q = S now u"
    using assms(1,2) by (auto simp: quotas_recorded_def update_conv')
  then show ?thesis by blast
qed

end
