(* ===== verification/Webhook_Store.thy ===== *)
theory Webhook_Store
  imports Db_Errors
begin

text \<open>
  What the webhook workers keep: delivery records in Redis (\<open>api/webhook_delivery_redis_store.go\<close>),
  subscriptions in the database (\<open>api/webhook_store.go\<close>, \<open>api/webhook_store_gorm.go\<close>) and the
  per-host circuit breaker (\<open>api/webhook_circuit_breaker.go\<close>). Times are nanoseconds. A Redis key is
  named by the identifier in it and carries the moment it expires; what \<open>SCAN\<close> returns, which may repeat
  a key, is an argument, and so is the order an unstable sort gives records with equal times.
\<close>

definition uuid_Nil :: string where
  "uuid_Nil = ''00000000-0000-0000-0000-000000000000''"

definition time_Truncate :: "time \<Rightarrow> time" where
  "time_Truncate t = t - t mod 1000"

subsection \<open>Delivery records\<close>

record WebhookDeliveryRecord =
  wd_ID :: string
  wd_SubscriptionID :: string
  wd_EventType :: string
  wd_Payload :: string
  wd_Status :: string
  wd_StatusPercent :: int
  wd_StatusMessage :: string
  wd_Attempts :: int
  wd_NextRetryAt :: "time option"
  wd_LastError :: string
  wd_CreatedAt :: time
  wd_DeliveredAt :: "time option"
  wd_LastActivityAt :: time
  wd_AddonID :: "string option"
  wd_InvokedByUUID :: "string option"
  wd_InvokedByEmail :: string
  wd_InvokedByName :: string

definition DeliveryStatusPending :: string where "DeliveryStatusPending = ''pending''"
definition DeliveryStatusInProgress :: string where "DeliveryStatusInProgress = ''in_progress''"
definition DeliveryStatusDelivered :: string where "DeliveryStatusDelivered = ''delivered''"
definition DeliveryStatusFailed :: string where "DeliveryStatusFailed = ''failed''"

definition DeliveryStaleTimeout :: int where
  "DeliveryStaleTimeout = 15 * go_Minute"

definition ttlForStatus :: "string \<Rightarrow> int" where
  "ttlForStatus status =
    (if status \<in> set [DeliveryStatusDelivered, DeliveryStatusFailed, ''completed''] then 7 * go_Day else 240 * go_Minute)"

definition truncateDeliveryTimestamps :: "WebhookDeliveryRecord \<Rightarrow> WebhookDeliveryRecord" where
  "truncateDeliveryTimestamps r =
    r\<lparr>wd_CreatedAt := time_Truncate (wd_CreatedAt r), wd_LastActivityAt := time_Truncate (wd_LastActivityAt r),
      wd_DeliveredAt := map_option time_Truncate (wd_DeliveredAt r),
      wd_NextRetryAt := map_option time_Truncate (wd_NextRetryAt r)\<rparr>"

record delivery_redis =
  dr_keys :: "(string \<times> WebhookDeliveryRecord \<times> time) list"
  dr_error :: "go_error option"

definition redis_Set :: "time \<Rightarrow> delivery_redis \<Rightarrow> WebhookDeliveryRecord \<Rightarrow> delivery_redis \<times> go_error option" where
  "redis_Set now s record =
    (case dr_error s of
       Some e \<Rightarrow> (s, Some e)
     | None \<Rightarrow> (s\<lparr>dr_keys := AList.update (wd_ID record) (record, now + ttlForStatus (wd_Status record)) (dr_keys s)\<rparr>, None))"

definition live_record :: "time \<Rightarrow> delivery_redis \<Rightarrow> string \<Rightarrow> WebhookDeliveryRecord option" where
  "live_record now s i = (case map_of (dr_keys s) i of Some (r, deadline) \<Rightarrow> if now < deadline then Some r else None | None \<Rightarrow> None)"

text \<open>\<open>newID\<close> is what \<open>uuid.NewV7\<close> gives.\<close>

definition delivery_Create ::
  "time \<Rightarrow> go_error + string \<Rightarrow> delivery_redis \<Rightarrow> WebhookDeliveryRecord \<Rightarrow> delivery_redis \<times> (go_error + WebhookDeliveryRecord)" where
  "delivery_Create now newID s record =
    (case (if wd_ID record = uuid_Nil then newID else Inr (wd_ID record)) of
       Inl e \<Rightarrow> (s, Inl (errorf_wrap ''failed to generate delivery ID: '' e))
     | Inr i \<Rightarrow>
       (let r = truncateDeliveryTimestamps (record\<lparr>wd_ID := i,
              wd_CreatedAt := (if wd_CreatedAt record = time_Zero then now else wd_CreatedAt record),
              wd_LastActivityAt := (if wd_LastActivityAt record = time_Zero then now else wd_LastActivityAt record),
              wd_Status := (if wd_Status record = [] then DeliveryStatusPending else wd_Status record)\<rparr>)
        in case redis_Set now s r of
             (s', Some e) \<Rightarrow> (s', Inl (errorf_wrap ''failed to store delivery record: '' e))
           | (s', None) \<Rightarrow> (s', Inr r)))"

definition delivery_Get :: "time \<Rightarrow> delivery_redis \<Rightarrow> string \<Rightarrow> go_error + WebhookDeliveryRecord" where
  "delivery_Get now s i =
    (case dr_error s of
       Some e \<Rightarrow> Inl (errorf_wrap ''failed to get delivery record: '' e)
     | None \<Rightarrow>
       (case live_record now s i of
          Some r \<Rightarrow> Inr r
        | None \<Rightarrow> Inl (errors_New (''delivery record not found or expired: '' @ i))))"

definition delivery_Update :: "time \<Rightarrow> delivery_redis \<Rightarrow> WebhookDeliveryRecord \<Rightarrow> delivery_redis \<times> go_error option" where
  "delivery_Update now s record =
    (case redis_Set now s (truncateDeliveryTimestamps (record\<lparr>wd_LastActivityAt := now\<rparr>)) of
       (s', Some e) \<Rightarrow> (s', Some (errorf_wrap ''failed to update delivery record: '' e))
     | (s', None) \<Rightarrow> (s', None))"

definition delivery_UpdateStatus ::
  "time \<Rightarrow> delivery_redis \<Rightarrow> string \<Rightarrow> string \<Rightarrow> time option \<Rightarrow> delivery_redis \<times> go_error option" where
  "delivery_UpdateStatus now s i status deliveredAt =
    (case delivery_Get now s i of
       Inl e \<Rightarrow> (s, Some (errorf_wrap ''failed to get delivery record for status update: '' e))
     | Inr record \<Rightarrow>
       (case delivery_Update now s (record\<lparr>wd_Status := status,
               wd_DeliveredAt := (if deliveredAt \<noteq> None then deliveredAt else wd_DeliveredAt record)\<rparr>) of
          (s', Some e) \<Rightarrow> (s', Some (errorf_wrap ''failed to update delivery status: '' e))
        | (s', None) \<Rightarrow> (s', None)))"

definition delivery_UpdateRetry ::
  "time \<Rightarrow> delivery_redis \<Rightarrow> string \<Rightarrow> int \<Rightarrow> time option \<Rightarrow> string \<Rightarrow> delivery_redis \<times> go_error option" where
  "delivery_UpdateRetry now s i attempts nextRetryAt lastError =
    (case delivery_Get now s i of
       Inl e \<Rightarrow> (s, Some (errorf_wrap ''failed to get delivery record for retry update: '' e))
     | Inr record \<Rightarrow>
       (case delivery_Update now s (record\<lparr>wd_Attempts := attempts, wd_NextRetryAt := nextRetryAt, wd_LastError := lastError\<rparr>) of
          (s', Some e) \<Rightarrow> (s', Some (errorf_wrap ''failed to update delivery retry info: '' e))
        | (s', None) \<Rightarrow> (s', None)))"

definition delivery_Delete :: "delivery_redis \<Rightarrow> string \<Rightarrow> delivery_redis \<times> go_error option" where
  "delivery_Delete s i =
    (case dr_error s of
       Some e \<Rightarrow> (s, Some (errorf_wrap ''failed to delete delivery record: '' e))
     | None \<Rightarrow> (s\<lparr>dr_keys := AList.delete i (dr_keys s)\<rparr>, None))"

subsection \<open>Listing deliveries\<close>

text \<open>A key that cannot be read, because it has expired or Redis fails, is skipped.\<close>

definition scanAllRecords :: "time \<Rightarrow> delivery_redis \<Rightarrow> go_error + string list \<Rightarrow> go_error + WebhookDeliveryRecord list" where
  "scanAllRecords now s scan =
    (case scan of
       Inl e \<Rightarrow> Inl (errorf_wrap ''failed to scan delivery records: '' e)
     | Inr keys \<Rightarrow> Inr (List.map_filter (\<lambda>i. case delivery_Get now s i of Inr r \<Rightarrow> Some r | Inl _ \<Rightarrow> None) keys))"

type_synonym record_order = "WebhookDeliveryRecord list \<Rightarrow> WebhookDeliveryRecord list"

text \<open>What \<open>sort.Slice\<close> by creation time does.\<close>

definition sorts_by_creation :: "record_order \<Rightarrow> bool" where
  "sorts_by_creation order \<longleftrightarrow> (\<forall>rs. mset (order rs) = mset rs \<and> sorted (map wd_CreatedAt (order rs)))"

definition ListPending ::
  "record_order \<Rightarrow> time \<Rightarrow> delivery_redis \<Rightarrow> go_error + string list \<Rightarrow> int \<Rightarrow> go_error + WebhookDeliveryRecord list" where
  "ListPending order now s scan limit =
    (case scanAllRecords now s scan of
       Inl e \<Rightarrow> Inl e
     | Inr allRecords \<Rightarrow>
       (let pending = order (filter (\<lambda>r. wd_Status r = DeliveryStatusPending \<and>
              (case wd_NextRetryAt r of None \<Rightarrow> True | Some t \<Rightarrow> t \<le> now)) allRecords)
        in Inr (if int (length pending) > limit then take (nat limit) pending else pending)))"

definition ListReadyForRetry :: "time \<Rightarrow> delivery_redis \<Rightarrow> go_error + string list \<Rightarrow> go_error + WebhookDeliveryRecord list" where
  "ListReadyForRetry now s scan =
    (case scanAllRecords now s scan of
       Inl e \<Rightarrow> Inl e
     | Inr allRecords \<Rightarrow>
       Inr (filter (\<lambda>r. wd_Status r = DeliveryStatusPending \<and> \<not> wd_Attempts r \<le> 0 \<and>
              (case wd_NextRetryAt r of None \<Rightarrow> False | Some t \<Rightarrow> t \<le> now)) allRecords))"

definition ListStale :: "time \<Rightarrow> delivery_redis \<Rightarrow> go_error + string list \<Rightarrow> int \<Rightarrow> go_error + WebhookDeliveryRecord list" where
  "ListStale now s scan timeout =
    (case scanAllRecords now s scan of
       Inl e \<Rightarrow> Inl e
     | Inr allRecords \<Rightarrow>
       Inr (filter (\<lambda>r. wd_Status r = DeliveryStatusInProgress \<and> wd_LastActivityAt r < now - timeout) allRecords))"

text \<open>Limits and offsets are not negative.\<close>

definition page :: "'a list \<Rightarrow> int \<Rightarrow> int \<Rightarrow> 'a list" where
  "page xs limit offset =
    (let total = int (length xs); start = min offset total; stop = min (start + limit) total
     in if start < total then take (nat (stop - start)) (drop (nat start) xs) else [])"

definition delivery_ListBySubscription ::
  "record_order \<Rightarrow> time \<Rightarrow> delivery_redis \<Rightarrow> go_error + string list \<Rightarrow> string \<Rightarrow> int \<Rightarrow> int \<Rightarrow> go_error + WebhookDeliveryRecord list \<times> int" where
  "delivery_ListBySubscription order now s scan subscriptionID limit offset =
    (case scanAllRecords now s scan of
       Inl e \<Rightarrow> Inl e
     | Inr allRecords \<Rightarrow>
       (let filtered = order (filter (\<lambda>r. wd_SubscriptionID r = subscriptionID) allRecords)
        in Inr (page filtered limit offset, int (length filtered))))"

definition delivery_ListAll ::
  "record_order \<Rightarrow> time \<Rightarrow> delivery_redis \<Rightarrow> go_error + string list \<Rightarrow> int \<Rightarrow> int \<Rightarrow> go_error + WebhookDeliveryRecord list \<times> int" where
  "delivery_ListAll order now s scan limit offset =
    (case scanAllRecords now s scan of
       Inl e \<Rightarrow> Inl e
     | Inr allRecords \<Rightarrow> Inr (page (order allRecords) limit offset, int (length (order allRecords))))"

definition active_status :: "WebhookDeliveryRecord \<Rightarrow> bool" where
  "active_status r \<longleftrightarrow> wd_Status r = DeliveryStatusPending \<or> wd_Status r = DeliveryStatusInProgress"

definition CountActiveByAddon :: "time \<Rightarrow> delivery_redis \<Rightarrow> go_error + string list \<Rightarrow> string \<Rightarrow> go_error + int" where
  "CountActiveByAddon now s scan addonID =
    (case scanAllRecords now s scan of
       Inl e \<Rightarrow> Inl e
     | Inr allRecords \<Rightarrow> Inr (int (length (filter (\<lambda>r. wd_AddonID r = Some addonID \<and> active_status r) allRecords))))"

subsection \<open>Subscriptions\<close>

text \<open>
  A row of \<open>webhook_subscriptions\<close>, read through \<open>toDBModel\<close>: a NULL secret or challenge is the empty
  string. Errors of the database are those of this moment; a write error is the one the retrying
  transaction finally returns. \<open>order\<close> is the database's \<open>ORDER BY\<close>.
\<close>

record DBWebhookSubscription =
  ws_Id :: string
  ws_OwnerId :: string
  ws_ThreatModelId :: "string option"
  ws_Name :: string
  ws_Url :: string
  ws_Events :: "string list"
  ws_Secret :: string
  ws_Status :: string
  ws_Challenge :: string
  ws_ChallengesSent :: int
  ws_CreatedAt :: time
  ws_ModifiedAt :: time
  ws_LastSuccessfulUse :: "time option"
  ws_PublicationFailures :: int
  ws_TimeoutCount :: int
  ws_OperatorPinned :: bool

record subscription_db =
  sdb_rows :: "DBWebhookSubscription list"
  sdb_now :: time
  sdb_read_error :: "go_error option"
  sdb_write_error :: "go_error option"

type_synonym row_order = "DBWebhookSubscription list \<Rightarrow> DBWebhookSubscription list"

definition sub_Get :: "bool \<Rightarrow> subscription_db \<Rightarrow> string \<Rightarrow> go_error + DBWebhookSubscription" where
  "sub_Get oracle d i =
    (case sdb_read_error d of
       Some e \<Rightarrow> Inl (if errors_Is e GormErrRecordNotFound then sentinel_error ErrWebhookNotFound else Classify oracle e)
     | None \<Rightarrow>
       (case find (\<lambda>w. ws_Id w = i) (sdb_rows d) of
          None \<Rightarrow> Inl (sentinel_error ErrWebhookNotFound)
        | Some w \<Rightarrow> Inr w))"

text \<open>A query of the rows that satisfy a condition; \<open>window\<close> is its \<open>OFFSET\<close> and \<open>LIMIT\<close>.\<close>

definition sub_find ::
  "bool \<Rightarrow> row_order \<Rightarrow> subscription_db \<Rightarrow> (DBWebhookSubscription \<Rightarrow> bool) \<Rightarrow> go_error + DBWebhookSubscription list" where
  "sub_find oracle order d P =
    (case sdb_read_error d of Some e \<Rightarrow> Inl (Classify oracle e) | None \<Rightarrow> Inr (order (filter P (sdb_rows d))))"

definition sub_window :: "int \<Rightarrow> int \<Rightarrow> 'a list \<Rightarrow> 'a list" where
  "sub_window offset limit xs =
    (let ys = (if offset > 0 then drop (nat offset) xs else xs) in if limit > 0 then take (nat limit) ys else ys)"

definition sub_List ::
  "row_order \<Rightarrow> subscription_db \<Rightarrow> int \<Rightarrow> int \<Rightarrow> (DBWebhookSubscription \<Rightarrow> bool) \<Rightarrow> DBWebhookSubscription list" where
  "sub_List order d offset limit keep =
    (case sdb_read_error d of
       Some _ \<Rightarrow> []
     | None \<Rightarrow> filter keep (sub_window offset limit (order (sdb_rows d))))"

definition sub_ListByOwner ::
  "bool \<Rightarrow> row_order \<Rightarrow> subscription_db \<Rightarrow> string \<Rightarrow> int \<Rightarrow> int \<Rightarrow> go_error + DBWebhookSubscription list" where
  "sub_ListByOwner oracle order d ownerID offset limit =
    map_sum id (sub_window offset limit) (sub_find oracle order d (\<lambda>w. ws_OwnerId w = ownerID))"

definition sub_ListByThreatModel ::
  "bool \<Rightarrow> row_order \<Rightarrow> subscription_db \<Rightarrow> string \<Rightarrow> int \<Rightarrow> int \<Rightarrow> go_error + DBWebhookSubscription list" where
  "sub_ListByThreatModel oracle order d threatModelID offset limit =
    map_sum id (sub_window offset limit) (sub_find oracle order d (\<lambda>w. ws_ThreatModelId w = Some threatModelID))"

definition ListActiveByOwner :: "bool \<Rightarrow> row_order \<Rightarrow> subscription_db \<Rightarrow> string \<Rightarrow> go_error + DBWebhookSubscription list" where
  "ListActiveByOwner oracle order d ownerID =
    sub_find oracle order d (\<lambda>w. ws_OwnerId w = ownerID \<and> ws_Status w = ''active'')"

definition declares_event :: "string \<Rightarrow> DBWebhookSubscription \<Rightarrow> bool" where
  "declares_event eventType w \<longleftrightarrow> list_ex (\<lambda>e. e = eventType \<or> e = ''*'') (ws_Events w)"

definition ListActiveByEventType :: "bool \<Rightarrow> row_order \<Rightarrow> subscription_db \<Rightarrow> string \<Rightarrow> go_error + DBWebhookSubscription list" where
  "ListActiveByEventType oracle order d eventType =
    map_sum id (filter (declares_event eventType)) (sub_find oracle order d (\<lambda>w. ws_Status w = ''active''))"

definition ListPendingVerification :: "bool \<Rightarrow> row_order \<Rightarrow> subscription_db \<Rightarrow> go_error + DBWebhookSubscription list" where
  "ListPendingVerification oracle order d = sub_find oracle order d (\<lambda>w. ws_Status w = ''pending_verification'')"

definition ListPendingDelete :: "bool \<Rightarrow> row_order \<Rightarrow> subscription_db \<Rightarrow> go_error + DBWebhookSubscription list" where
  "ListPendingDelete oracle order d = sub_find oracle order d (\<lambda>w. ws_Status w = ''pending_delete'')"

text \<open>The two cleanup queries return the database's error as it came.\<close>

definition ListIdle :: "row_order \<Rightarrow> subscription_db \<Rightarrow> int \<Rightarrow> go_error + DBWebhookSubscription list" where
  "ListIdle order d daysIdle =
    (let cutoff = sdb_now d - daysIdle * go_Day in
     case sdb_read_error d of
       Some e \<Rightarrow> Inl e
     | None \<Rightarrow> Inr (order (filter (\<lambda>w. ws_Status w = ''active'' \<and> \<not> ws_OperatorPinned w \<and>
         (case ws_LastSuccessfulUse w of Some t \<Rightarrow> t < cutoff | None \<Rightarrow> ws_CreatedAt w < cutoff)) (sdb_rows d))))"

definition ListBroken :: "row_order \<Rightarrow> subscription_db \<Rightarrow> int \<Rightarrow> int \<Rightarrow> go_error + DBWebhookSubscription list" where
  "ListBroken order d minFailures daysSinceSuccess =
    (let cutoff = sdb_now d - daysSinceSuccess * go_Day in
     case sdb_read_error d of
       Some e \<Rightarrow> Inl e
     | None \<Rightarrow> Inr (order (filter (\<lambda>w. ws_Status w = ''active'' \<and> \<not> ws_OperatorPinned w \<and> ws_PublicationFailures w \<ge> minFailures \<and>
         (case ws_LastSuccessfulUse w of Some t \<Rightarrow> t < cutoff | None \<Rightarrow> True)) (sdb_rows d))))"

text \<open>\<open>idSetter\<close> puts the new identifier in place.\<close>

definition sub_Create :: "bool \<Rightarrow> subscription_db \<Rightarrow> string \<Rightarrow> DBWebhookSubscription \<Rightarrow> subscription_db \<times> (go_error + DBWebhookSubscription)" where
  "sub_Create oracle d newID item =
    (let t = time_Truncate (sdb_now d);
         w = item\<lparr>ws_CreatedAt := t, ws_ModifiedAt := t, ws_Id := (if ws_Id item = uuid_Nil then newID else ws_Id item)\<rparr>
     in case sdb_write_error d of
          Some e \<Rightarrow> (d, Inl (Classify oracle e))
        | None \<Rightarrow> (d\<lparr>sdb_rows := sdb_rows d @ [w]\<rparr>, Inr w))"

text \<open>An update of the columns of one row, with GORM's own \<open>modified_at\<close>.\<close>

definition sub_updates ::
  "bool \<Rightarrow> subscription_db \<Rightarrow> string \<Rightarrow> (DBWebhookSubscription \<Rightarrow> DBWebhookSubscription) \<Rightarrow> subscription_db \<times> go_error option" where
  "sub_updates oracle d i f =
    (case sdb_write_error d of
       Some e \<Rightarrow> (d, Some (Classify oracle e))
     | None \<Rightarrow>
       if list_ex (\<lambda>w. ws_Id w = i) (sdb_rows d)
       then (d\<lparr>sdb_rows := map (\<lambda>w. if ws_Id w = i then (f w)\<lparr>ws_ModifiedAt := sdb_now d\<rparr> else w) (sdb_rows d)\<rparr>, None)
       else (d, Some (sentinel_error ErrWebhookNotFound)))"

text \<open>\<open>Updates\<close> with a struct writes the fields that are not the zero value.\<close>

definition nonzero_fields :: "DBWebhookSubscription \<Rightarrow> DBWebhookSubscription \<Rightarrow> DBWebhookSubscription" where
  "nonzero_fields item w =
    w\<lparr>ws_Id := (if ws_Id item = [] then ws_Id w else ws_Id item),
      ws_OwnerId := (if ws_OwnerId item = [] then ws_OwnerId w else ws_OwnerId item),
      ws_ThreatModelId := (if ws_ThreatModelId item = None then ws_ThreatModelId w else ws_ThreatModelId item),
      ws_Name := (if ws_Name item = [] then ws_Name w else ws_Name item),
      ws_Url := (if ws_Url item = [] then ws_Url w else ws_Url item),
      ws_Events := (if ws_Events item = [] then ws_Events w else ws_Events item),
      ws_Secret := (if ws_Secret item = [] then ws_Secret w else ws_Secret item),
      ws_Status := (if ws_Status item = [] then ws_Status w else ws_Status item),
      ws_Challenge := (if ws_Challenge item = [] then ws_Challenge w else ws_Challenge item),
      ws_ChallengesSent := (if ws_ChallengesSent item = 0 then ws_ChallengesSent w else ws_ChallengesSent item),
      ws_CreatedAt := (if ws_CreatedAt item = time_Zero then ws_CreatedAt w else ws_CreatedAt item),
      ws_LastSuccessfulUse := (if ws_LastSuccessfulUse item = None then ws_LastSuccessfulUse w else ws_LastSuccessfulUse item),
      ws_PublicationFailures := (if ws_PublicationFailures item = 0 then ws_PublicationFailures w else ws_PublicationFailures item),
      ws_TimeoutCount := (if ws_TimeoutCount item = 0 then ws_TimeoutCount w else ws_TimeoutCount item),
      ws_OperatorPinned := (ws_OperatorPinned item \<or> ws_OperatorPinned w)\<rparr>"

definition sub_Update :: "bool \<Rightarrow> subscription_db \<Rightarrow> string \<Rightarrow> DBWebhookSubscription \<Rightarrow> subscription_db \<times> go_error option" where
  "sub_Update oracle d i item = sub_updates oracle d i (nonzero_fields item)"

definition sub_UpdateStatus :: "bool \<Rightarrow> subscription_db \<Rightarrow> string \<Rightarrow> string \<Rightarrow> subscription_db \<times> go_error option" where
  "sub_UpdateStatus oracle d i status = sub_updates oracle d i (\<lambda>w. w\<lparr>ws_Status := status\<rparr>)"

definition UpdateChallenge :: "bool \<Rightarrow> subscription_db \<Rightarrow> string \<Rightarrow> string \<Rightarrow> int \<Rightarrow> subscription_db \<times> go_error option" where
  "UpdateChallenge oracle d i challenge challengesSent =
    sub_updates oracle d i (\<lambda>w. w\<lparr>ws_Challenge := challenge, ws_ChallengesSent := challengesSent\<rparr>)"

definition UpdatePublicationStats :: "bool \<Rightarrow> subscription_db \<Rightarrow> string \<Rightarrow> bool \<Rightarrow> subscription_db \<times> go_error option" where
  "UpdatePublicationStats oracle d i success =
    sub_updates oracle d i (\<lambda>w. if success then w\<lparr>ws_LastSuccessfulUse := Some (sdb_now d), ws_PublicationFailures := 0\<rparr>
       else w\<lparr>ws_PublicationFailures := ws_PublicationFailures w + 1\<rparr>)"

definition IncrementTimeouts :: "bool \<Rightarrow> subscription_db \<Rightarrow> string \<Rightarrow> subscription_db \<times> go_error option" where
  "IncrementTimeouts oracle d i = sub_updates oracle d i (\<lambda>w. w\<lparr>ws_TimeoutCount := ws_TimeoutCount w + 1\<rparr>)"

definition ResetTimeouts :: "bool \<Rightarrow> subscription_db \<Rightarrow> string \<Rightarrow> subscription_db \<times> go_error option" where
  "ResetTimeouts oracle d i = sub_updates oracle d i (\<lambda>w. w\<lparr>ws_TimeoutCount := 0\<rparr>)"

definition sub_Delete :: "bool \<Rightarrow> subscription_db \<Rightarrow> string \<Rightarrow> subscription_db \<times> go_error option" where
  "sub_Delete oracle d i =
    (case sdb_write_error d of
       Some e \<Rightarrow> (d, Some (Classify oracle e))
     | None \<Rightarrow>
       if list_ex (\<lambda>w. ws_Id w = i) (sdb_rows d)
       then (d\<lparr>sdb_rows := filter (\<lambda>w. ws_Id w \<noteq> i) (sdb_rows d)\<rparr>, None)
       else (d, Some (sentinel_error ErrWebhookNotFound)))"

definition sub_Count :: "subscription_db \<Rightarrow> int" where
  "sub_Count d = (case sdb_read_error d of Some _ \<Rightarrow> 0 | None \<Rightarrow> int (length (sdb_rows d)))"

definition CountByOwner :: "bool \<Rightarrow> subscription_db \<Rightarrow> string \<Rightarrow> go_error + int" where
  "CountByOwner oracle d ownerID =
    (case sdb_read_error d of
       Some e \<Rightarrow> Inl (Classify oracle e)
     | None \<Rightarrow> Inr (int (length (filter (\<lambda>w. ws_OwnerId w = ownerID) (sdb_rows d)))))"

end
