(* ===== verification/Circuit_Breaker.thy ===== *)
theory Circuit_Breaker
  imports Webhook_Store
begin

text \<open>
  The circuit breaker in front of webhook targets (\<open>api/webhook_circuit_breaker.go\<close>). The theorem gives
  the breaker's state for a target in closed form from the times of the failures since the last success,
  whatever happened to other targets in between.
\<close>

record webhookTargetState =
  ts_consecutiveFailures :: int
  ts_openWindowIdx :: int
  ts_openUntil :: time

record webhookCircuitBreaker =
  cb_threshold :: int
  cb_backoffs :: "int list"
  cb_state :: "(string, webhookTargetState) gomap"

definition newWebhookCircuitBreaker :: "int \<Rightarrow> int list \<Rightarrow> webhookCircuitBreaker" where
  "newWebhookCircuitBreaker threshold backoffs =
    \<lparr>cb_threshold = (if threshold \<le> 0 then 5 else threshold),
     cb_backoffs = (if backoffs = [] then [1 * go_Minute, 5 * go_Minute, 15 * go_Minute, 30 * go_Minute] else backoffs),
     cb_state = []\<rparr>"

text \<open>\<open>parsed\<close> is what \<open>url.Parse\<close> makes of the URL: its host part and its host name.\<close>

definition targetKey :: "(string \<Rightarrow> go_error + string \<times> string) \<Rightarrow> string \<Rightarrow> string" where
  "targetKey parse rawURL =
    (case parse rawURL of Inl _ \<Rightarrow> rawURL | Inr (host, hostname) \<Rightarrow> if host = [] then rawURL else hostname)"

text \<open>Whether a delivery may proceed, and otherwise until when the circuit is open.\<close>

definition cb_allow :: "time \<Rightarrow> webhookCircuitBreaker \<Rightarrow> string \<Rightarrow> bool \<times> time" where
  "cb_allow now b target =
    (case map_of (cb_state b) target of
       None \<Rightarrow> (True, time_Zero)
     | Some st \<Rightarrow>
       if ts_openUntil st = time_Zero then (True, time_Zero)
       else if \<not> now < ts_openUntil st then (True, time_Zero)
       else (False, ts_openUntil st))"

definition recordSuccess :: "webhookCircuitBreaker \<Rightarrow> string \<Rightarrow> webhookCircuitBreaker" where
  "recordSuccess b target = b\<lparr>cb_state := AList.delete target (cb_state b)\<rparr>"

definition recordFailure :: "time \<Rightarrow> webhookCircuitBreaker \<Rightarrow> string \<Rightarrow> webhookCircuitBreaker" where
  "recordFailure now b target =
    (let st = (case map_of (cb_state b) target of Some st \<Rightarrow> st
               | None \<Rightarrow> \<lparr>ts_consecutiveFailures = 0, ts_openWindowIdx = 0, ts_openUntil = time_Zero\<rparr>);
         st1 = st\<lparr>ts_consecutiveFailures := ts_consecutiveFailures st + 1\<rparr>
     in if ts_consecutiveFailures st1 < cb_threshold b then b\<lparr>cb_state := AList.update target st1 (cb_state b)\<rparr>
        else let idx = (if ts_openWindowIdx st1 \<ge> int (length (cb_backoffs b)) then int (length (cb_backoffs b)) - 1 else ts_openWindowIdx st1)
             in b\<lparr>cb_state := AList.update target
                  (st1\<lparr>ts_openUntil := now + cb_backoffs b ! nat idx, ts_openWindowIdx := ts_openWindowIdx st1 + 1,
                       ts_consecutiveFailures := 0\<rparr>) (cb_state b)\<rparr>)"

lemma breaker_config [simp]:
  "cb_threshold (recordSuccess b t) = cb_threshold b" "cb_backoffs (recordSuccess b t) = cb_backoffs b"
  "cb_threshold (recordFailure now b t) = cb_threshold b" "cb_backoffs (recordFailure now b t) = cb_backoffs b"
  by (simp_all add: recordSuccess_def recordFailure_def Let_def)

lemma recordSuccess_state: "map_of (cb_state (recordSuccess b t)) = (map_of (cb_state b))(t := None)"
  by (simp add: recordSuccess_def delete_conv')

lemma recordFailure_other: "u \<noteq> t \<Longrightarrow> map_of (cb_state (recordFailure now b t)) u = map_of (cb_state b) u"
  by (simp add: recordFailure_def Let_def update_conv')

subsection \<open>Closed form\<close>

datatype breaker_event = Failure time string | Success string

fun breaker_run :: "webhookCircuitBreaker \<Rightarrow> breaker_event list \<Rightarrow> webhookCircuitBreaker" where
  "breaker_run b [] = b"
| "breaker_run b (Failure now t # es) = breaker_run (recordFailure now b t) es"
| "breaker_run b (Success t # es) = breaker_run (recordSuccess b t) es"

text \<open>The times of a target's failures since its last success.\<close>

fun failures_since :: "string \<Rightarrow> time list \<Rightarrow> breaker_event list \<Rightarrow> time list" where
  "failures_since t ts [] = ts"
| "failures_since t ts (Failure now u # es) = failures_since t (if u = t then ts @ [now] else ts) es"
| "failures_since t ts (Success u # es) = failures_since t (if u = t then [] else ts) es"

text \<open>
  The state the failures amount to: every \<open>threshold\<close>-th one opens the circuit anew, for the next
  entry of the schedule and then for the last one again and again.
\<close>

definition opened_at :: "nat \<Rightarrow> int list \<Rightarrow> time list \<Rightarrow> time" where
  "opened_at threshold backoffs ts =
    (let k = length ts div threshold in
     if k = 0 then time_Zero else ts ! (threshold * k - 1) + backoffs ! min (k - 1) (length backoffs - 1))"

definition closed_form :: "nat \<Rightarrow> int list \<Rightarrow> time list \<Rightarrow> webhookTargetState option" where
  "closed_form threshold backoffs ts =
    (if ts = [] then None
     else Some \<lparr>ts_consecutiveFailures = int (length ts mod threshold), ts_openWindowIdx = int (length ts div threshold),
                ts_openUntil = opened_at threshold backoffs ts\<rparr>)"

lemma Suc_div_mod_less:
  "Suc (n mod m) < m \<Longrightarrow> Suc n div m = n div m" "Suc (n mod m) < m \<Longrightarrow> Suc n mod m = Suc (n mod m)"
  by (simp_all add: div_Suc mod_Suc)

lemma Suc_mod_full: "0 < m \<Longrightarrow> \<not> Suc (n mod m) < m \<Longrightarrow> Suc (n mod m) = (m :: nat)"
  using mod_less_divisor [of m n] by linarith

lemma Suc_div_mod_full: "Suc (n mod m) = m \<Longrightarrow> Suc n div m = Suc (n div m)" "Suc (n mod m) = m \<Longrightarrow> Suc n mod m = 0"
  by (simp_all add: div_Suc mod_Suc)

lemma opened_at_snoc:
  assumes "0 < m"
  shows "opened_at m bo (ts @ [now]) =
    (if Suc (length ts mod m) < m then opened_at m bo ts
     else now + bo ! min (length ts div m) (length bo - 1))"
proof (cases "Suc (length ts mod m) < m")
  case True
  then have "Suc (length ts) div m = length ts div m" by (rule Suc_div_mod_less)
  moreover have "m * (length ts div m) - Suc 0 < length ts" if "0 < length ts div m"
  proof -
    have "m * (length ts div m) \<le> length ts" by simp
    moreover have "0 < m * (length ts div m)" using that assms by simp
    ultimately show ?thesis by linarith
  qed
  ultimately show ?thesis using True assms by (auto simp: opened_at_def Let_def nth_append)
next
  case False
  then have eq: "Suc (length ts mod m) = m" using assms by (simp add: Suc_mod_full)
  then have "Suc (length ts) div m = Suc (length ts div m)" by (rule Suc_div_mod_full)
  moreover have "m * Suc (length ts div m) = Suc (length ts)"
    using eq by (metis Suc_inject add_Suc_right mult_Suc_right add.commute mult_div_mod_eq)
  ultimately show ?thesis using False eq by (simp add: opened_at_def Let_def nth_append)
qed

lemma recordFailure_closed_form:
  assumes b: "map_of (cb_state b) t = closed_form (nat (cb_threshold b)) (cb_backoffs b) ts"
    and pos: "0 < cb_threshold b" "cb_backoffs b \<noteq> []"
  shows "map_of (cb_state (recordFailure now b t)) t =
    closed_form (nat (cb_threshold b)) (cb_backoffs b) (ts @ [now])"
proof -
  define m where "m = nat (cb_threshold b)"
  have m: "0 < m" "cb_threshold b = int m" using pos by (auto simp: m_def)
  define st where "st = \<lparr>ts_consecutiveFailures = int (length ts mod m), ts_openWindowIdx = int (length ts div m),
                ts_openUntil = opened_at m (cb_backoffs b) ts\<rparr>"
  have st: "(case map_of (cb_state b) t of Some st \<Rightarrow> st
      | None \<Rightarrow> \<lparr>ts_consecutiveFailures = 0, ts_openWindowIdx = 0, ts_openUntil = time_Zero\<rparr>) = st"
    using b by (simp add: closed_form_def st_def m_def opened_at_def)
  show ?thesis
  proof (cases "Suc (length ts mod m) < m")
    case True
    then have "Suc (length ts) div m = length ts div m" "Suc (length ts) mod m = Suc (length ts mod m)"
      by (rule Suc_div_mod_less)+
    then show ?thesis using True m
      by (simp add: recordFailure_def Let_def st update_conv' closed_form_def opened_at_snoc st_def)
  next
    case False
    then have eq: "Suc (length ts mod m) = m" using m by (simp add: Suc_mod_full)
    then have "Suc (length ts) div m = Suc (length ts div m)" "Suc (length ts) mod m = 0"
      by (rule Suc_div_mod_full)+
    moreover have "nat (int (length (cb_backoffs b)) - 1) = length (cb_backoffs b) - Suc 0" by simp
    moreover have "length (cb_backoffs b) \<le> k \<Longrightarrow> \<not> k \<le> length (cb_backoffs b) - Suc 0" for k
      using pos by (cases "cb_backoffs b") auto
    moreover have "\<not> int (length ts mod m) + 1 < int m" using eq by linarith
    ultimately show ?thesis using False m
      by (simp add: recordFailure_def Let_def st update_conv' closed_form_def opened_at_snoc st_def min_def)
  qed
qed

lemma breaker_run_closed_form:
  assumes "map_of (cb_state b) t = closed_form (nat (cb_threshold b)) (cb_backoffs b) ts"
    and "0 < cb_threshold b" "cb_backoffs b \<noteq> []"
  shows "map_of (cb_state (breaker_run b es)) t =
    closed_form (nat (cb_threshold b)) (cb_backoffs b) (failures_since t ts es)"
  using assms
proof (induction es arbitrary: b ts)
  case (Cons e es)
  show ?case
  proof (cases e)
    case (Failure now u)
    then show ?thesis
      using Cons.IH [of "recordFailure now b u" "if u = t then ts @ [now] else ts"] Cons.prems
      by (simp add: recordFailure_closed_form recordFailure_other split: if_splits)
  next
    case (Success u)
    then show ?thesis
      using Cons.IH [of "recordSuccess b u" "if u = t then [] else ts"] Cons.prems
      by (simp add: recordSuccess_state closed_form_def split: if_splits)
  qed
qed simp

lemma breaker_allow:
  "cb_allow now (breaker_run (newWebhookCircuitBreaker 5 []) es) target =
    (let ts = failures_since target [] es; k = length ts div 5;
         openUntil = ts ! (5 * k - 1) + go_Minute * [1, 5, 15, 30] ! min (k - 1) 3
     in if k \<noteq> 0 \<and> openUntil \<noteq> time_Zero \<and> now < openUntil then (False, openUntil) else (True, time_Zero))"
proof -
  define ts where "ts = failures_since target [] es"
  define sched where "sched = [1 * go_Minute, 5 * go_Minute, 15 * go_Minute, 30 * go_Minute]"
  have "sched ! j = go_Minute * [1, 5, 15, 30] ! j" if "j \<le> 3" for j
    using that by (auto simp: sched_def le_Suc_eq numeral_eq_Suc)
  then have bo: "sched ! min j 3 = go_Minute * [1, 5, 15, 30] ! min j 3" for j by simp
  have "map_of (cb_state (breaker_run (newWebhookCircuitBreaker 5 []) es)) target = closed_form 5 sched ts"
    using breaker_run_closed_form [of "newWebhookCircuitBreaker 5 []" target "[]" es]
    by (simp add: newWebhookCircuitBreaker_def closed_form_def ts_def sched_def)
  moreover have "length sched - 1 = 3" by (simp add: sched_def)
  ultimately show ?thesis
    by (auto simp: cb_allow_def closed_form_def opened_at_def Let_def bo ts_def [symmetric] split: if_splits)
qed

text \<open>Under the worker's settings a circuit is closed again after half an hour without failures.\<close>

lemma breaker_recovers:
  assumes "time_Zero \<le> now" "list_all (\<lambda>t. t + 30 * go_Minute \<le> now) (failures_since target [] es)"
  shows "fst (cb_allow now (breaker_run (newWebhookCircuitBreaker 5 []) es) target)"
proof -
  define ts where "ts = failures_since target [] es"
  have le: "go_Minute * [1, 5, 15, 30] ! min j 3 \<le> 30 * go_Minute" for j
  proof -
    have "min j 3 \<in> {0, 1, 2, 3}" by auto
    then show ?thesis by (auto simp: go_Minute_def)
  qed
  have "ts ! (5 * k - 1) + go_Minute * [1, 5, 15, 30] ! min (k - 1) 3 \<le> now" if "k = length ts div 5" "k \<noteq> 0" for k
  proof -
    have "5 * k - 1 < length ts" using that by auto
    then have "ts ! (5 * k - 1) + 30 * go_Minute \<le> now" using assms(2) by (simp add: ts_def list_all_length)
    then show ?thesis using le [of "k - 1"] by linarith
  qed
  then show ?thesis by (auto simp: breaker_allow Let_def ts_def [symmetric])
qed

text \<open>
  C19. What the delivery worker's breaker decides, in closed form: a target is refused exactly while the
  circuit that its failures since its last success opened is open. The circuit opens at every fifth of
  them, for 1, 5, 15 and then always 30 minutes; failures and successes of other targets do not matter.
\<close>

theorem breaker_decision:
  "cb_allow now (breaker_run (newWebhookCircuitBreaker 5 []) es) target =
    (let ts = failures_since target [] es; k = length ts div 5;
         openUntil = ts ! (5 * k - 1) + go_Minute * [1, 5, 15, 30] ! min (k - 1) 3
     in if k \<noteq> 0 \<and> openUntil \<noteq> time_Zero \<and> now < openUntil then (False, openUntil) else (True, time_Zero))"
  by (rule breaker_allow)

end
