(* ===== verification/Webhook_Delivery.thy ===== *)
theory Webhook_Delivery
  imports Circuit_Breaker
begin

text \<open>
  Delivering webhooks: the event consumer that creates delivery records
  (\<open>api/webhook_event_consumer.go\<close>), the delivery worker (\<open>api/webhook_delivery_worker.go\<close>), the
  challenge worker (\<open>api/webhook_challenge_worker.go\<close>), the cleanup worker
  (\<open>api/webhook_cleanup_worker.go\<close>), the receiver's status callback
  (\<open>api/webhook_delivery_handlers.go\<close>), the operator's pinned subscription
  (\<open>api/webhook_pinned_bootstrap.go\<close>) and the limit on concurrent add-on invocations
  (\<open>api/addon_rate_limiter.go\<close>). The stores are configured. What comes from outside is an argument:
  the answers of the endpoints with the times around them, random numbers, parsed URLs and JSON, the
  HMAC and the issuer of delegation tokens.
\<close>

record webhook_env =
  we_oracle :: bool
  we_parse :: "string \<Rightarrow> go_error + string \<times> string"
  we_hmac :: "string \<Rightarrow> string \<Rightarrow> string"
  we_uuid :: "string \<Rightarrow> go_error + string"
  we_envelope_tm :: "string \<Rightarrow> go_error + string"
  we_payload_tm :: "string \<Rightarrow> go_error + string"
  we_issuer :: "(string \<Rightarrow> string \<Rightarrow> string \<Rightarrow> string \<Rightarrow> go_error + string) option"

record webhooks =
  wk_deliveries :: delivery_redis
  wk_subs :: subscription_db
  wk_breaker :: webhookCircuitBreaker

subsection \<open>Signatures and headers\<close>

definition GenerateHMACSignature :: "(string \<Rightarrow> string \<Rightarrow> string) \<Rightarrow> string \<Rightarrow> string \<Rightarrow> string" where
  "GenerateHMACSignature hmac payload secret = ''sha256='' @ hmac payload secret"

definition VerifySignature :: "(string \<Rightarrow> string \<Rightarrow> string) \<Rightarrow> string \<Rightarrow> string \<Rightarrow> string \<Rightarrow> bool" where
  "VerifySignature hmac payload signature secret \<longleftrightarrow> signature = GenerateHMACSignature hmac payload secret"

definition extractThreatModelIDFromEnvelope :: "webhook_env \<Rightarrow> string \<Rightarrow> string" where
  "extractThreatModelIDFromEnvelope env payload =
    (if payload = [] then uuid_Nil else case we_envelope_tm env payload of Inl _ \<Rightarrow> uuid_Nil | Inr tm \<Rightarrow> tm)"

definition attachAddonDelegationToken :: "webhook_env \<Rightarrow> WebhookDeliveryRecord \<Rightarrow> (string \<times> string) list \<Rightarrow> (string \<times> string) list" where
  "attachAddonDelegationToken env delivery headers =
    (if wd_EventType delivery \<noteq> ''addon.invoked'' then headers
     else case (wd_AddonID delivery, wd_InvokedByUUID delivery, we_issuer env) of
       (Some addonID, Some invoker, Some issue) \<Rightarrow>
         (let tmID = extractThreatModelIDFromEnvelope env (wd_Payload delivery) in
          if tmID = uuid_Nil then headers
          else case issue invoker addonID (wd_ID delivery) tmID of
            Inl _ \<Rightarrow> headers
          | Inr token \<Rightarrow> AList.update ''X-TMI-Delegation-Token'' token headers)
     | _ \<Rightarrow> headers)"

record webhook_post =
  po_url :: string
  po_headers :: "(string \<times> string) list"
  po_body :: string

definition delivery_post :: "webhook_env \<Rightarrow> WebhookDeliveryRecord \<Rightarrow> DBWebhookSubscription \<Rightarrow> webhook_post" where
  "delivery_post env delivery subscription =
    (let headers = [(''Content-Type'', ''application/json''), (''X-Webhook-Event'', wd_EventType delivery),
           (''X-Webhook-Delivery-Id'', wd_ID delivery), (''X-Webhook-Subscription-Id'', ws_Id subscription)];
         signed = (if ws_Secret subscription \<noteq> []
           then AList.update ''X-Webhook-Signature'' (GenerateHMACSignature (we_hmac env) (wd_Payload delivery) (ws_Secret subscription)) headers
           else headers)
     in \<lparr>po_url = ws_Url subscription, po_headers = attachAddonDelegationToken env delivery signed, po_body = wd_Payload delivery\<rparr>)"

subsection \<open>The delivery worker\<close>

record SafeFetchResult =
  fr_StatusCode :: int
  fr_Callback :: string
  fr_Body :: string

definition truncateForLog :: "string \<Rightarrow> nat \<Rightarrow> string" where
  "truncateForLog body n = (if length body \<le> n then body else take n body @ ''...[truncated]'')"

definition logBodyCap :: nat where
  "logBodyCap = 10 * 1024"

definition set_status :: "time \<Rightarrow> webhooks \<Rightarrow> string \<Rightarrow> string \<Rightarrow> time option \<Rightarrow> webhooks" where
  "set_status now w i status deliveredAt =
    w\<lparr>wk_deliveries := fst (delivery_UpdateStatus now (wk_deliveries w) i status deliveredAt)\<rparr>"

definition set_retry :: "time \<Rightarrow> webhooks \<Rightarrow> string \<Rightarrow> int \<Rightarrow> time \<Rightarrow> string \<Rightarrow> webhooks" where
  "set_retry now w i attempts t lastError =
    w\<lparr>wk_deliveries := fst (delivery_UpdateRetry now (wk_deliveries w) i attempts (Some t) lastError)\<rparr>"

definition count_publication :: "webhook_env \<Rightarrow> webhooks \<Rightarrow> string \<Rightarrow> bool \<Rightarrow> webhooks" where
  "count_publication env w i success = w\<lparr>wk_subs := fst (UpdatePublicationStats (we_oracle env) (wk_subs w) i success)\<rparr>"

definition backoffMinutes :: "int list" where
  "backoffMinutes = [1, 5, 15, 30]"

definition handleDeliveryFailure :: "webhook_env \<Rightarrow> time \<Rightarrow> webhooks \<Rightarrow> WebhookDeliveryRecord \<Rightarrow> string \<Rightarrow> webhooks \<times> go_error" where
  "handleDeliveryFailure env now w delivery errorMsg =
    (let newAttempts = wd_Attempts delivery + 1 in
     if newAttempts \<ge> 5 then
       (count_publication env (set_status now w (wd_ID delivery) DeliveryStatusFailed (Some now)) (wd_SubscriptionID delivery) False,
        errors_New (''max attempts reached: '' @ errorMsg))
     else
       (let backoffIndex = (if newAttempts - 1 \<ge> int (length backoffMinutes) then int (length backoffMinutes) - 1 else newAttempts - 1);
            nextRetry = now + backoffMinutes ! nat backoffIndex * go_Minute
        in (set_retry now w (wd_ID delivery) newAttempts nextRetry errorMsg,
            errors_New (''delivery failed, will retry: '' @ errorMsg))))"

text \<open>What is done with the endpoint's answer, at the time it came.\<close>

definition finish_delivery ::
  "webhook_env \<Rightarrow> time \<Rightarrow> go_error + SafeFetchResult \<Rightarrow> webhooks \<Rightarrow> WebhookDeliveryRecord \<Rightarrow> DBWebhookSubscription \<Rightarrow> string \<Rightarrow>
   webhooks \<times> go_error option" where
  "finish_delivery env now answer w delivery subscription target =
    (case answer of
       Inl e \<Rightarrow>
         map_prod id Some (handleDeliveryFailure env now (w\<lparr>wk_breaker := recordFailure now (wk_breaker w) target\<rparr>) delivery
           (''request failed: '' @ err_Error e))
     | Inr result \<Rightarrow>
       if fr_StatusCode result \<ge> 200 \<and> fr_StatusCode result < 300 then
         (let w1 = w\<lparr>wk_breaker := recordSuccess (wk_breaker w) target\<rparr>;
              w2 = (if fr_Callback result = ''async''
                    then set_status now w1 (wd_ID delivery) DeliveryStatusInProgress None
                    else set_status now w1 (wd_ID delivery) DeliveryStatusDelivered (Some now))
          in (count_publication env w2 (ws_Id subscription) True, None))
       else
         map_prod id Some (handleDeliveryFailure env now (w\<lparr>wk_breaker := recordFailure now (wk_breaker w) target\<rparr>) delivery
           (''HTTP '' @ string_of_int (fr_StatusCode result) @ '': '' @ truncateForLog (fr_Body result) logBodyCap)))"

text \<open>\<open>net\<close> is when the attempt starts, when the answer is there, and the answer; the requests sent are a result.\<close>

type_synonym exchange = "time \<times> time \<times> (go_error + SafeFetchResult)"

definition deliverWebhook ::
  "webhook_env \<Rightarrow> exchange \<Rightarrow> webhooks \<Rightarrow> WebhookDeliveryRecord \<Rightarrow> webhooks \<times> go_error option \<times> webhook_post list" where
  "deliverWebhook env net w delivery =
    (case net of (start, stop, answer) \<Rightarrow>
     case sub_Get (we_oracle env) (wk_subs w) (wd_SubscriptionID delivery) of
       Inl e \<Rightarrow> (set_status start w (wd_ID delivery) DeliveryStatusFailed (Some start), Some e, [])
     | Inr subscription \<Rightarrow>
       if ws_Status subscription \<noteq> ''active'' then (set_status start w (wd_ID delivery) DeliveryStatusFailed (Some start), None, [])
       else
         (let target = targetKey (we_parse env) (ws_Url subscription) in
          case cb_allow start (wk_breaker w) target of
            (False, openUntil) \<Rightarrow> (set_retry start w (wd_ID delivery) (wd_Attempts delivery) openUntil ''circuit open'', None, [])
          | (True, _) \<Rightarrow>
            (case finish_delivery env stop answer w delivery subscription target of
               (w', err) \<Rightarrow> (w', err, [delivery_post env delivery subscription]))))"

fun deliver_batch ::
  "webhook_env \<Rightarrow> (nat \<Rightarrow> exchange) \<Rightarrow> nat \<Rightarrow> webhooks \<Rightarrow> WebhookDeliveryRecord list \<Rightarrow> webhooks \<times> webhook_post list" where
  "deliver_batch env net i w [] = (w, [])"
| "deliver_batch env net i w (d # ds) =
    (case deliverWebhook env (net i) w d of
       (w1, _, posts) \<Rightarrow> map_prod id ((@) posts) (deliver_batch env net (Suc i) w1 ds))"

text \<open>The two scans of the store happen at the start of a round.\<close>

definition processPendingDeliveries ::
  "webhook_env \<Rightarrow> record_order \<Rightarrow> time \<Rightarrow> go_error + string list \<Rightarrow> go_error + string list \<Rightarrow> (nat \<Rightarrow> exchange) \<Rightarrow> webhooks \<Rightarrow>
   webhooks \<times> go_error option \<times> webhook_post list" where
  "processPendingDeliveries env order now scan1 scan2 net w =
    (case ListPending order now (wk_deliveries w) scan1 100 of
       Inl e \<Rightarrow> (w, Some (errorf_wrap ''failed to list pending deliveries: '' e), [])
     | Inr pending \<Rightarrow>
       (let deliveries = pending @ (case ListReadyForRetry now (wk_deliveries w) scan2 of Inl _ \<Rightarrow> [] | Inr retries \<Rightarrow> retries)
        in case deliver_batch env net 0 w deliveries of (w', posts) \<Rightarrow> (w', None, posts)))"

subsection \<open>The event consumer\<close>

definition filterSubscriptions :: "DBWebhookSubscription list \<Rightarrow> string \<Rightarrow> string \<Rightarrow> DBWebhookSubscription list" where
  "filterSubscriptions subscriptions eventType threatModelID =
    filter (\<lambda>s. declares_event eventType s \<and>
      (case ws_ThreatModelId s of None \<Rightarrow> True | Some tm \<Rightarrow> \<not> (threatModelID = [] \<or> tm \<noteq> threatModelID))) subscriptions"

definition new_delivery :: "DBWebhookSubscription \<Rightarrow> string \<Rightarrow> string \<Rightarrow> WebhookDeliveryRecord" where
  "new_delivery subscription eventType payload =
    \<lparr>wd_ID = uuid_Nil, wd_SubscriptionID = ws_Id subscription, wd_EventType = eventType, wd_Payload = payload,
     wd_Status = DeliveryStatusPending, wd_StatusPercent = 0, wd_StatusMessage = [], wd_Attempts = 0, wd_NextRetryAt = None,
     wd_LastError = [], wd_CreatedAt = time_Zero, wd_DeliveredAt = None, wd_LastActivityAt = time_Zero, wd_AddonID = None,
     wd_InvokedByUUID = None, wd_InvokedByEmail = [], wd_InvokedByName = []\<rparr>"

definition createDelivery ::
  "time \<Rightarrow> go_error + string \<Rightarrow> delivery_redis \<Rightarrow> DBWebhookSubscription \<Rightarrow> string \<Rightarrow> string \<Rightarrow> delivery_redis \<times> go_error option" where
  "createDelivery now newID s subscription eventType payload =
    (case delivery_Create now newID s (new_delivery subscription eventType payload) of
       (s', Inl e) \<Rightarrow> (s', Some (errorf_wrap ''failed to create delivery record: '' e))
     | (s', Inr _) \<Rightarrow> (s', None))"

fun create_deliveries ::
  "time \<Rightarrow> (nat \<Rightarrow> go_error + string) \<Rightarrow> nat \<Rightarrow> delivery_redis \<Rightarrow> string \<Rightarrow> string \<Rightarrow> DBWebhookSubscription list \<Rightarrow> delivery_redis" where
  "create_deliveries now newIDs i s eventType payload [] = s"
| "create_deliveries now newIDs i s eventType payload (sub # subs) =
    create_deliveries now newIDs (Suc i) (fst (createDelivery now (newIDs i) s sub eventType payload)) eventType payload subs"

definition processSystemAuditEvent ::
  "webhook_env \<Rightarrow> row_order \<Rightarrow> time \<Rightarrow> (nat \<Rightarrow> go_error + string) \<Rightarrow> webhooks \<Rightarrow> string \<Rightarrow> (string \<times> string) list \<Rightarrow> webhooks \<times> go_error option" where
  "processSystemAuditEvent env order now newIDs w eventType vals =
    (case map_of vals ''payload'' of
       None \<Rightarrow> (w, Some (errors_New ''invalid payload in system_audit message''))
     | Some payloadStr \<Rightarrow>
       (case ListActiveByEventType (we_oracle env) order (wk_subs w) eventType of
          Inl e \<Rightarrow> (w, Some (errorf_wrap ''failed to list subscriptions for system_audit event: '' e))
        | Inr subscriptions \<Rightarrow>
          (w\<lparr>wk_deliveries := create_deliveries now newIDs 0 (wk_deliveries w) eventType payloadStr subscriptions\<rparr>, None)))"

text \<open>The fields of a message that are strings.\<close>

definition processMessage ::
  "webhook_env \<Rightarrow> row_order \<Rightarrow> time \<Rightarrow> (nat \<Rightarrow> go_error + string) \<Rightarrow> webhooks \<Rightarrow> (string \<times> string) list \<Rightarrow> webhooks \<times> go_error option" where
  "processMessage env order now newIDs w vals =
    (case map_of vals ''event_type'' of
       None \<Rightarrow> (w, Some (errors_New ''invalid event_type in message''))
     | Some eventType \<Rightarrow>
       if eventType = ''addon.invoked'' then (w, None)
       else if strings_HasPrefix eventType ''system_audit.'' then processSystemAuditEvent env order now newIDs w eventType vals
       else case map_of vals ''object_id'' of
         None \<Rightarrow> (w, Some (errors_New ''invalid object_id in message''))
       | Some _ \<Rightarrow>
       (case map_of vals ''owner_id'' of
         None \<Rightarrow> (w, Some (errors_New ''invalid owner_id in message''))
       | Some ownerID \<Rightarrow>
       (case map_of vals ''payload'' of
         None \<Rightarrow> (w, Some (errors_New ''invalid payload in message''))
       | Some payloadStr \<Rightarrow>
       (case we_uuid env ownerID of
         Inl e \<Rightarrow> (w, Some (errorf_wrap ''invalid owner UUID: '' e))
       | Inr ownerUUID \<Rightarrow>
       (case ListActiveByOwner (we_oracle env) order (wk_subs w) ownerUUID of
         Inl e \<Rightarrow> (w, Some (errorf_wrap ''failed to list subscriptions: '' e))
       | Inr subscriptions \<Rightarrow>
       (case we_payload_tm env payloadStr of
         Inl e \<Rightarrow> (w, Some (errorf_wrap ''failed to unmarshal payload: '' e))
       | Inr threatModelID \<Rightarrow>
         (w\<lparr>wk_deliveries := create_deliveries now newIDs 0 (wk_deliveries w) eventType payloadStr
              (filterSubscriptions subscriptions eventType threatModelID)\<rparr>, None)))))))"

subsection \<open>The challenge worker\<close>

text \<open>
  The endpoint's answer: its status and the body as a JSON object of strings, None for a body that is
  not one. \<open>random\<close> is what \<open>generateRandomHex\<close> gives.
\<close>

definition verifySubscription ::
  "webhook_env \<Rightarrow> string \<Rightarrow> go_error + int \<times> (go_error + (string \<times> string) list) \<Rightarrow> subscription_db \<Rightarrow> DBWebhookSubscription \<Rightarrow>
   subscription_db \<times> go_error option" where
  "verifySubscription env random answer d sub =
    (if ws_ChallengesSent sub \<ge> 3 then (fst (sub_UpdateStatus (we_oracle env) d (ws_Id sub) ''pending_delete''), None)
     else
       (let challenge = (if ws_Challenge sub = [] then random else ws_Challenge sub);
            again = fst (UpdateChallenge (we_oracle env) d (ws_Id sub) challenge (ws_ChallengesSent sub + 1))
        in case answer of
             Inl e \<Rightarrow> (again, Some e)
           | Inr (status, Inl e) \<Rightarrow> (again, Some (errorf_wrap ''invalid JSON response: '' e))
           | Inr (status, Inr response) \<Rightarrow>
             if status = 200 \<and> (case map_of response ''challenge'' of Some c \<Rightarrow> c | None \<Rightarrow> []) = challenge then
               (case sub_UpdateStatus (we_oracle env) d (ws_Id sub) ''active'' of
                  (d', Some e) \<Rightarrow> (d', Some (errorf_wrap ''failed to activate subscription: '' e))
                | (d', None) \<Rightarrow> (d', None))
             else (again, Some (errors_New (''challenge verification failed: status='' @ string_of_int status)))))"

fun verify_all ::
  "webhook_env \<Rightarrow> (nat \<Rightarrow> string \<times> (go_error + int \<times> (go_error + (string \<times> string) list))) \<Rightarrow> nat \<Rightarrow> subscription_db \<Rightarrow>
   DBWebhookSubscription list \<Rightarrow> subscription_db" where
  "verify_all env net i d [] = d"
| "verify_all env net i d (sub # subs) =
    verify_all env net (Suc i) (fst (verifySubscription env (fst (net i)) (snd (net i)) d sub)) subs"

definition processPendingVerifications ::
  "webhook_env \<Rightarrow> row_order \<Rightarrow> (nat \<Rightarrow> string \<times> (go_error + int \<times> (go_error + (string \<times> string) list))) \<Rightarrow> subscription_db \<Rightarrow>
   subscription_db \<times> go_error option" where
  "processPendingVerifications env order net d =
    (case ListPendingVerification (we_oracle env) order d of
       Inl e \<Rightarrow> (d, Some (errorf_wrap ''failed to list pending verifications: '' e))
     | Inr subscriptions \<Rightarrow> (verify_all env net 0 d subscriptions, None))"

subsection \<open>The cleanup worker\<close>

text \<open>What the worker uses of add-ons: their webhook.\<close>

record Addon =
  ad_ID :: string
  ad_WebhookID :: string

record addon_db =
  adb_rows :: "Addon list"
  adb_read_error :: "go_error option"
  adb_write_error :: "go_error option"

definition addon_Get :: "bool \<Rightarrow> addon_db \<Rightarrow> string \<Rightarrow> go_error + Addon" where
  "addon_Get oracle a i =
    (case adb_read_error a of
       Some e \<Rightarrow> Inl (if errors_Is e GormErrRecordNotFound then errorf_wrap ''addon: '' (sentinel_error ErrNotFound) else Classify oracle e)
     | None \<Rightarrow> (case find (\<lambda>x. ad_ID x = i) (adb_rows a) of
         None \<Rightarrow> Inl (errorf_wrap ''addon: '' (sentinel_error ErrNotFound))
       | Some x \<Rightarrow> Inr x))"

definition DeleteByWebhookID :: "bool \<Rightarrow> addon_db \<Rightarrow> string \<Rightarrow> addon_db \<times> (go_error + int)" where
  "DeleteByWebhookID oracle a webhookID =
    (case adb_write_error a of
       Some e \<Rightarrow> (a, Inl (Classify oracle e))
     | None \<Rightarrow> (a\<lparr>adb_rows := filter (\<lambda>x. ad_WebhookID x \<noteq> webhookID) (adb_rows a)\<rparr>,
         Inr (int (length (filter (\<lambda>x. ad_WebhookID x = webhookID) (adb_rows a))))))"

text \<open>Marking is the same loop for both queries; the count is of the rows marked.\<close>

fun mark_all :: "webhook_env \<Rightarrow> subscription_db \<Rightarrow> DBWebhookSubscription list \<Rightarrow> subscription_db \<times> int" where
  "mark_all env d [] = (d, 0)"
| "mark_all env d (sub # subs) =
    (if ws_Status sub = ''active'' then
       (case sub_UpdateStatus (we_oracle env) d (ws_Id sub) ''pending_delete'' of
          (d', Some _) \<Rightarrow> mark_all env d' subs
        | (d', None) \<Rightarrow> map_prod id ((+) 1) (mark_all env d' subs))
     else mark_all env d subs)"

definition markIdleSubscriptions :: "webhook_env \<Rightarrow> row_order \<Rightarrow> subscription_db \<Rightarrow> int \<Rightarrow> subscription_db \<times> (go_error + int)" where
  "markIdleSubscriptions env order d daysIdle =
    (case ListIdle order d daysIdle of
       Inl e \<Rightarrow> (d, Inl (errorf_wrap ''failed to list idle subscriptions: '' e))
     | Inr subs \<Rightarrow> map_prod id Inr (mark_all env d subs))"

definition markBrokenSubscriptions :: "webhook_env \<Rightarrow> row_order \<Rightarrow> subscription_db \<Rightarrow> int \<Rightarrow> int \<Rightarrow> subscription_db \<times> (go_error + int)" where
  "markBrokenSubscriptions env order d minFailures daysSinceSuccess =
    (case ListBroken order d minFailures daysSinceSuccess of
       Inl e \<Rightarrow> (d, Inl (errorf_wrap ''failed to list broken subscriptions: '' e))
     | Inr subs \<Rightarrow> map_prod id Inr (mark_all env d subs))"

fun fail_stale :: "webhook_env \<Rightarrow> time \<Rightarrow> addon_db option \<Rightarrow> webhooks \<Rightarrow> WebhookDeliveryRecord list \<Rightarrow> webhooks" where
  "fail_stale env now addons w [] = w"
| "fail_stale env now addons w (r # rs) =
    (case delivery_UpdateStatus now (wk_deliveries w) (wd_ID r) DeliveryStatusFailed (Some now) of
       (s, Some _) \<Rightarrow> fail_stale env now addons (w\<lparr>wk_deliveries := s\<rparr>) rs
     | (s, None) \<Rightarrow>
       (let w1 = w\<lparr>wk_deliveries := s\<rparr> in
        case (wd_AddonID r, addons) of
          (Some addonID, Some a) \<Rightarrow>
            (case addon_Get (we_oracle env) a addonID of
               Inl _ \<Rightarrow> fail_stale env now addons w1 rs
             | Inr addon \<Rightarrow> fail_stale env now addons (count_publication env w1 (ad_WebhookID addon) False) rs)
        | _ \<Rightarrow> fail_stale env now addons w1 rs))"

definition cleanupStaleDeliveries ::
  "webhook_env \<Rightarrow> time \<Rightarrow> go_error + string list \<Rightarrow> addon_db option \<Rightarrow> webhooks \<Rightarrow> webhooks \<times> go_error option" where
  "cleanupStaleDeliveries env now scan addons w =
    (case ListStale now (wk_deliveries w) scan DeliveryStaleTimeout of
       Inl e \<Rightarrow> (w, Some (errorf_wrap ''failed to list stale deliveries: '' e))
     | Inr stale \<Rightarrow> (fail_stale env now addons w stale, None))"

fun delete_all ::
  "webhook_env \<Rightarrow> addon_db option \<Rightarrow> subscription_db \<Rightarrow> DBWebhookSubscription list \<Rightarrow> (addon_db option \<times> subscription_db) \<times> int" where
  "delete_all env addons d [] = ((addons, d), 0)"
| "delete_all env addons d (sub # subs) =
    (if ws_OperatorPinned sub then delete_all env addons d subs
     else case (case addons of None \<Rightarrow> (None, False)
                | Some a \<Rightarrow> (case DeleteByWebhookID (we_oracle env) a (ws_Id sub) of
                    (a', Inl _) \<Rightarrow> (Some a', True) | (a', Inr _) \<Rightarrow> (Some a', False))) of
       (addons', True) \<Rightarrow> delete_all env addons' d subs
     | (addons', False) \<Rightarrow>
       (case sub_Delete (we_oracle env) d (ws_Id sub) of
          (d', Some _) \<Rightarrow> delete_all env addons' d' subs
        | (d', None) \<Rightarrow> map_prod id ((+) 1) (delete_all env addons' d' subs)))"

definition deletePendingSubscriptions ::
  "webhook_env \<Rightarrow> row_order \<Rightarrow> addon_db option \<Rightarrow> subscription_db \<Rightarrow> (addon_db option \<times> subscription_db) \<times> (go_error + int)" where
  "deletePendingSubscriptions env order addons d =
    (case ListPendingDelete (we_oracle env) order d of
       Inl e \<Rightarrow> ((addons, d), Inl (errorf_wrap ''failed to list pending delete subscriptions: '' e))
     | Inr subs \<Rightarrow> map_prod id Inr (delete_all env addons d subs))"

definition performCleanup ::
  "webhook_env \<Rightarrow> row_order \<Rightarrow> time \<Rightarrow> go_error + string list \<Rightarrow> addon_db option \<Rightarrow> webhooks \<Rightarrow> addon_db option \<times> webhooks" where
  "performCleanup env order now scan addons w =
    (let w1 = fst (cleanupStaleDeliveries env now scan addons w);
         d1 = fst (markIdleSubscriptions env order (wk_subs w1) 90);
         d2 = fst (markBrokenSubscriptions env order d1 10 7);
         (addons', d3) = fst (deletePendingSubscriptions env order addons d2)
     in (addons', w1\<lparr>wk_subs := d3\<rparr>))"

subsection \<open>Callbacks of the receiver\<close>

datatype 'a http_reply = Reply 'a | HttpError int string string

record UpdateWebhookDeliveryStatusRequest =
  us_Status :: string
  us_StatusMessage :: "string option"
  us_StatusPercent :: "int option"

record UpdateWebhookDeliveryStatusResponse =
  ur_Id :: string
  ur_Status :: string
  ur_StatusPercent :: int
  ur_StatusUpdatedAt :: time

definition mapCallbackStatus :: "string \<Rightarrow> string" where
  "mapCallbackStatus st =
    (if st = ''completed'' then DeliveryStatusDelivered else if st = ''failed'' then DeliveryStatusFailed
     else if st = ''in_progress'' then DeliveryStatusInProgress else st)"

text \<open>The checks on the request itself; \<open>decode\<close> is the JSON decoder.\<close>

definition check_status_request :: "(string \<Rightarrow> go_error + UpdateWebhookDeliveryStatusRequest) \<Rightarrow> go_error + string \<Rightarrow> (string \<times> UpdateWebhookDeliveryStatusRequest) http_reply" where
  "check_status_request decode body =
    (case body of
       Inl _ \<Rightarrow> HttpError 400 ''invalid_request'' ''Failed to read request body''
     | Inr bodyBytes \<Rightarrow>
       (case decode bodyBytes of
          Inl _ \<Rightarrow> HttpError 400 ''invalid_request'' ''Invalid request body''
        | Inr req \<Rightarrow>
          if us_Status req \<notin> set [''in_progress'', ''completed'', ''failed''] then
            HttpError 400 ''invalid_input'' ''Invalid status. Must be: in_progress, completed, or failed''
          else if (case us_StatusPercent req of Some p \<Rightarrow> p < 0 \<or> p > 100 | None \<Rightarrow> False) then
            HttpError 400 ''invalid_input'' ''Status percent must be between 0 and 100''
          else if (case us_StatusMessage req of Some m \<Rightarrow> length m > 1024 | None \<Rightarrow> False) then
            HttpError 400 ''invalid_input'' ''Status message exceeds maximum length of 1024 characters''
          else Reply (bodyBytes, req)))"

definition callback_record :: "time \<Rightarrow> UpdateWebhookDeliveryStatusRequest \<Rightarrow> WebhookDeliveryRecord \<Rightarrow> WebhookDeliveryRecord" where
  "callback_record now req record =
    (let newStatus = mapCallbackStatus (us_Status req);
         r1 = record\<lparr>wd_Status := newStatus, wd_LastActivityAt := now,
           wd_StatusPercent := (case us_StatusPercent req of Some p \<Rightarrow> p | None \<Rightarrow> wd_StatusPercent record),
           wd_StatusMessage := (case us_StatusMessage req of Some m \<Rightarrow> m | None \<Rightarrow> wd_StatusMessage record)\<rparr>
     in if newStatus = DeliveryStatusDelivered then r1\<lparr>wd_DeliveredAt := Some now, wd_StatusPercent := 100\<rparr> else r1)"

definition UpdateWebhookDeliveryStatus ::
  "webhook_env \<Rightarrow> (string \<Rightarrow> go_error + UpdateWebhookDeliveryStatusRequest) \<Rightarrow> time \<Rightarrow> webhooks \<Rightarrow> string \<Rightarrow> go_error + string \<Rightarrow> string \<Rightarrow>
   webhooks \<times> UpdateWebhookDeliveryStatusResponse http_reply" where
  "UpdateWebhookDeliveryStatus env decode now w deliveryIDStr body signature =
    (case we_uuid env deliveryIDStr of
       Inl _ \<Rightarrow> (w, HttpError 400 ''invalid_input'' ''Invalid delivery ID format'')
     | Inr deliveryID \<Rightarrow>
     (case check_status_request decode body of
       HttpError st code msg \<Rightarrow> (w, HttpError st code msg)
     | Reply (bodyBytes, req) \<Rightarrow>
     (case delivery_Get now (wk_deliveries w) deliveryID of
       Inl _ \<Rightarrow> (w, HttpError 404 ''not_found'' ''Delivery record not found or expired'')
     | Inr record \<Rightarrow>
     (case sub_Get (we_oracle env) (wk_subs w) (wd_SubscriptionID record) of
       Inl _ \<Rightarrow> (w, HttpError 500 ''server_error'' ''Failed to verify delivery'')
     | Inr webhook \<Rightarrow>
       if ws_Secret webhook \<noteq> [] \<and> signature = [] then (w, HttpError 401 ''unauthorized'' ''Missing webhook signature'')
       else if ws_Secret webhook \<noteq> [] \<and> \<not> VerifySignature (we_hmac env) bodyBytes signature (ws_Secret webhook) then
         (w, HttpError 401 ''unauthorized'' ''Invalid webhook signature'')
       else if wd_Status record = DeliveryStatusDelivered \<or> wd_Status record = DeliveryStatusFailed then
         (w, HttpError 409 ''conflict'' ''Cannot update delivery that is already delivered or failed'')
       else
         (let record' = callback_record now req record; newStatus = mapCallbackStatus (us_Status req) in
          case delivery_Update now (wk_deliveries w) record' of
            (s, Some _) \<Rightarrow> (w\<lparr>wk_deliveries := s\<rparr>, HttpError 500 ''server_error'' ''Failed to update delivery status'')
          | (s, None) \<Rightarrow>
            (let w1 = w\<lparr>wk_deliveries := s\<rparr>;
                 w2 = (if newStatus = DeliveryStatusDelivered
                       then w1\<lparr>wk_subs := fst (ResetTimeouts (we_oracle env) (wk_subs w1) (ws_Id webhook))\<rparr> else w1)
             in (w2, Reply \<lparr>ur_Id = wd_ID record, ur_Status = newStatus, ur_StatusPercent = wd_StatusPercent record',
                            ur_StatusUpdatedAt = now\<rparr>)))))))"

subsection \<open>Reading a delivery\<close>

definition verifyDeliveryHMAC :: "webhook_env \<Rightarrow> webhooks \<Rightarrow> WebhookDeliveryRecord \<Rightarrow> string \<Rightarrow> string \<Rightarrow> unit http_reply" where
  "verifyDeliveryHMAC env w record signature deliveryIDStr =
    (case sub_Get (we_oracle env) (wk_subs w) (wd_SubscriptionID record) of
       Inl _ \<Rightarrow> HttpError 500 ''server_error'' ''Failed to verify delivery''
     | Inr s \<Rightarrow>
       if ws_Secret s = [] then HttpError 401 ''unauthorized'' ''Webhook secret not configured''
       else if \<not> VerifySignature (we_hmac env) deliveryIDStr signature (ws_Secret s) then
         HttpError 401 ''unauthorized'' ''Invalid webhook signature''
       else Reply ())"

text \<open>What the request's context says of the user: the error of authentication if any, administrator or not, the identifier.\<close>

record delivery_caller =
  dc_auth_error :: "unit http_reply"
  dc_admin :: bool
  dc_userUUID :: string

definition verifyDeliveryJWTAccess :: "webhook_env \<Rightarrow> webhooks \<Rightarrow> delivery_caller \<Rightarrow> WebhookDeliveryRecord \<Rightarrow> unit http_reply" where
  "verifyDeliveryJWTAccess env w caller record =
    (case dc_auth_error caller of
       HttpError st code msg \<Rightarrow> HttpError st code msg
     | Reply _ \<Rightarrow>
       if dc_admin caller then Reply ()
       else if wd_InvokedByUUID record = Some (dc_userUUID caller) then Reply ()
       else if (case sub_Get (we_oracle env) (wk_subs w) (wd_SubscriptionID record) of
                  Inr webhook \<Rightarrow> ws_OwnerId webhook = dc_userUUID caller | Inl _ \<Rightarrow> False) then Reply ()
       else HttpError 403 ''forbidden'' ''Access denied'')"

text \<open>The record with the subscription it is shown with; the rendering itself is not part of the model.\<close>

definition GetWebhookDeliveryStatus ::
  "webhook_env \<Rightarrow> time \<Rightarrow> webhooks \<Rightarrow> delivery_caller \<Rightarrow> string \<Rightarrow> string \<Rightarrow> (WebhookDeliveryRecord \<times> DBWebhookSubscription option) http_reply" where
  "GetWebhookDeliveryStatus env now w caller deliveryIDStr signature =
    (case we_uuid env deliveryIDStr of
       Inl _ \<Rightarrow> HttpError 400 ''invalid_input'' ''Invalid delivery ID format''
     | Inr deliveryID \<Rightarrow>
     (case delivery_Get now (wk_deliveries w) deliveryID of
       Inl _ \<Rightarrow> HttpError 404 ''not_found'' ''Delivery record not found or expired''
     | Inr record \<Rightarrow>
     (case (if signature \<noteq> [] then verifyDeliveryHMAC env w record signature deliveryIDStr
            else verifyDeliveryJWTAccess env w caller record) of
       HttpError st code msg \<Rightarrow> HttpError st code msg
     | Reply _ \<Rightarrow> Reply (record,
         case sub_Get (we_oracle env) (wk_subs w) (wd_SubscriptionID record) of Inr s \<Rightarrow> Some s | Inl _ \<Rightarrow> None))))"

subsection \<open>Concurrent add-on invocations\<close>

text \<open>The loop stops once it has seen more than the limit.\<close>

fun collect_active :: "int \<Rightarrow> (WebhookDeliveryRecord \<Rightarrow> bool) \<Rightarrow> WebhookDeliveryRecord list \<Rightarrow> WebhookDeliveryRecord list \<Rightarrow> WebhookDeliveryRecord list" where
  "collect_active limit P found [] = found"
| "collect_active limit P found (r # rs) =
    (if P r then (if int (length (found @ [r])) > limit then found @ [r] else collect_active limit P (found @ [r]) rs)
     else collect_active limit P found rs)"

definition blocks_invocation :: "string \<Rightarrow> WebhookDeliveryRecord \<Rightarrow> bool" where
  "blocks_invocation userID r \<longleftrightarrow> wd_InvokedByUUID r = Some userID \<and> wd_EventType r = ''addon.invoked'' \<and> active_status r"

datatype invocation_check = InvocationOk | InvocationFailed go_error
  | InvocationLimit int int int "(string \<times> string \<times> time) list"

text \<open>\<open>seconds\<close> is \<open>int(time.Until(...).Seconds())\<close>: whole seconds, towards zero.\<close>

definition seconds_until :: "time \<Rightarrow> time \<Rightarrow> int" where
  "seconds_until now t = (if t \<ge> now then (t - now) div 1000000000 else - ((now - t) div 1000000000))"

definition CheckActiveInvocationLimit ::
  "record_order \<Rightarrow> time \<Rightarrow> delivery_redis \<Rightarrow> go_error + string list \<Rightarrow> go_error + int \<Rightarrow> string \<Rightarrow> invocation_check" where
  "CheckActiveInvocationLimit order now s scan quota userID =
    (case quota of
       Inl e \<Rightarrow> InvocationFailed (errorf_wrap ''failed to check quota: '' e)
     | Inr MaxActiveInvocations \<Rightarrow>
       (case delivery_ListAll order now s scan 1000 0 of
          Inl e \<Rightarrow> InvocationFailed (errorf_wrap ''failed to check active invocations: '' e)
        | Inr (allRecords, _) \<Rightarrow>
          (let active = collect_active MaxActiveInvocations (blocks_invocation userID) [] allRecords in
           if int (length active) \<ge> MaxActiveInvocations then
             (let timeouts = map (\<lambda>r. wd_LastActivityAt r + DeliveryStaleTimeout) active;
                  earliest = foldl (\<lambda>a t. if a = time_Zero \<or> t < a then t else a) time_Zero timeouts
              in InvocationLimit MaxActiveInvocations (int (length active)) (max (seconds_until now earliest) 0)
                   (map (\<lambda>r. (wd_ID r, wd_Status r, wd_LastActivityAt r + DeliveryStaleTimeout)) active))
           else InvocationOk)))"

subsection \<open>The operator's pinned subscription\<close>

record AlertingBootstrap =
  al_Enabled :: bool
  al_URL :: string
  al_Secret :: string

text \<open>\<open>validate\<close> is the webhook URL validator over the deny list, None without one.\<close>

definition EnsurePinnedAlertSubscription ::
  "bool \<Rightarrow> row_order \<Rightarrow> (string \<Rightarrow> go_error option) option \<Rightarrow> string \<Rightarrow> AlertingBootstrap \<Rightarrow> subscription_db \<Rightarrow>
   subscription_db \<times> (go_error + DBWebhookSubscription option)" where
  "EnsurePinnedAlertSubscription oracle order validate newID cfg d =
    (let existing = sub_List order d 0 0 ws_OperatorPinned in
     if \<not> al_Enabled cfg then
       (case existing of
          [] \<Rightarrow> (d, Inr None)
        | s # _ \<Rightarrow>
          if ws_Status s \<noteq> ''inactive'' then
            (case sub_UpdateStatus oracle d (ws_Id s) ''inactive'' of
               (d', Some e) \<Rightarrow> (d', Inl (errorf_wrap ''deactivating pinned alert subscription: '' e))
             | (d', None) \<Rightarrow> (d', Inr (Some (s\<lparr>ws_Status := ''inactive''\<rparr>))))
          else (d, Inr (Some s)))
     else if al_URL cfg = [] then (d, Inl (errors_New ''alerting.enabled is true but alerting.webhook_url is empty''))
     else case (case validate of None \<Rightarrow> None | Some f \<Rightarrow> f (al_URL cfg)) of
       Some e \<Rightarrow> (d, Inl (errorf_wrap ''alerting.webhook_url failed validation: '' e))
     | None \<Rightarrow>
       (case existing of
          s # _ \<Rightarrow>
            (let s' = s\<lparr>ws_Url := al_URL cfg, ws_Secret := al_Secret cfg, ws_Status := ''active'',
                   ws_Events := [''system_audit.admin_write''], ws_ModifiedAt := sdb_now d\<rparr>
             in case sub_Update oracle d (ws_Id s) s' of
                  (d', Some e) \<Rightarrow> (d', Inl (errorf_wrap ''updating pinned alert subscription: '' e))
                | (d', None) \<Rightarrow> (d', Inr (Some s')))
        | [] \<Rightarrow>
            (let s' = \<lparr>ws_Id = uuid_Nil, ws_OwnerId = ''00000000-0000-0000-0000-000000000001'', ws_ThreatModelId = None,
                   ws_Name = ''Operator Audit Alert Sink'', ws_Url = al_URL cfg, ws_Events = [''system_audit.admin_write''],
                   ws_Secret = al_Secret cfg, ws_Status = ''active'', ws_Challenge = [], ws_ChallengesSent = 0,
                   ws_CreatedAt = sdb_now d, ws_ModifiedAt = sdb_now d, ws_LastSuccessfulUse = None,
                   ws_PublicationFailures = 0, ws_TimeoutCount = 0, ws_OperatorPinned = True\<rparr>
             in case sub_Create oracle d newID s' of
                  (d', Inl e) \<Rightarrow> (d', Inl (errorf_wrap ''creating pinned alert subscription: '' e))
                | (d', Inr created) \<Rightarrow> (d', Inr (Some created)))))"

end
