(* ===== verification/Webhook_Machine.thy ===== *)
theory Webhook_Machine
  imports Webhook_Delivery
begin

text \<open>
  What delivering webhooks guarantees. The workers, the receivers' callbacks and the event consumer run
  as the transition system \<open>webhook_step\<close>, in which a callback may arrive while a request is on its way;
  its invariant is an instance of the locale \<open>invariant_system\<close>. The other theorems are about callbacks
  and about retrying.
\<close>

subsection \<open>What the delivery store keeps\<close>

lemmas delivery_statuses = DeliveryStatusPending_def DeliveryStatusInProgress_def DeliveryStatusDelivered_def DeliveryStatusFailed_def

definition record_ok :: "WebhookDeliveryRecord \<Rightarrow> bool" where
  "record_ok r \<longleftrightarrow>
    wd_Status r \<in> {DeliveryStatusPending, DeliveryStatusInProgress, DeliveryStatusDelivered, DeliveryStatusFailed} \<and>
    0 \<le> wd_StatusPercent r \<and> wd_StatusPercent r \<le> 100 \<and> length (wd_StatusMessage r) \<le> 1024 \<and>
    0 \<le> wd_Attempts r \<and> wd_Attempts r < 5 \<and> (wd_Status r = DeliveryStatusDelivered \<longrightarrow> wd_DeliveredAt r \<noteq> None)"

definition store_ok :: "delivery_redis \<Rightarrow> bool" where
  "store_ok s \<longleftrightarrow> (\<forall>i r deadline. map_of (dr_keys s) i = Some (r, deadline) \<longrightarrow> wd_ID r = i \<and> record_ok r)"

lemma truncate_simps [simp]:
  "wd_ID (truncateDeliveryTimestamps r) = wd_ID r" "wd_Status (truncateDeliveryTimestamps r) = wd_Status r"
  "wd_Attempts (truncateDeliveryTimestamps r) = wd_Attempts r"
  "wd_StatusPercent (truncateDeliveryTimestamps r) = wd_StatusPercent r"
  "wd_StatusMessage (truncateDeliveryTimestamps r) = wd_StatusMessage r"
  "wd_SubscriptionID (truncateDeliveryTimestamps r) = wd_SubscriptionID r"
  "wd_DeliveredAt (truncateDeliveryTimestamps r) = map_option time_Truncate (wd_DeliveredAt r)"
  "record_ok (truncateDeliveryTimestamps r) = record_ok r"
  by (simp_all add: truncateDeliveryTimestamps_def record_ok_def)

lemma record_ok_activity [simp]: "record_ok (r\<lparr>wd_LastActivityAt := t\<rparr>) = record_ok r"
  by (simp add: record_ok_def)

lemma delivery_Get_Inr: "delivery_Get now s i = Inr r \<longleftrightarrow>
    dr_error s = None \<and> (\<exists>deadline. map_of (dr_keys s) i = Some (r, deadline) \<and> now < deadline)"
  by (auto simp: delivery_Get_def live_record_def split: option.splits prod.splits)

lemma store_ok_Get: "store_ok s \<Longrightarrow> delivery_Get now s i = Inr r \<Longrightarrow> wd_ID r = i \<and> record_ok r"
  by (auto simp: delivery_Get_Inr store_ok_def)

lemma redis_Set_store_ok: "store_ok s \<Longrightarrow> record_ok r \<Longrightarrow> store_ok (fst (redis_Set now s r))"
  by (auto simp: redis_Set_def store_ok_def update_conv' split: option.split)

lemma redis_Set_error: "dr_error (fst (redis_Set now s r)) = dr_error s"
  by (simp add: redis_Set_def split: option.split)

lemma delivery_Update_set: "fst (delivery_Update now s r) = fst (redis_Set now s (truncateDeliveryTimestamps (r\<lparr>wd_LastActivityAt := now\<rparr>)))"
  by (auto simp: delivery_Update_def split: prod.splits option.splits)

lemma delivery_Update_store_ok: "store_ok s \<Longrightarrow> record_ok r \<Longrightarrow> store_ok (fst (delivery_Update now s r))"
  by (simp add: delivery_Update_set redis_Set_store_ok)

lemma delivery_UpdateStatus_fst:
  "fst (delivery_UpdateStatus now s i status d) =
    (case delivery_Get now s i of Inl _ \<Rightarrow> s
     | Inr r \<Rightarrow> fst (delivery_Update now s (r\<lparr>wd_Status := status, wd_DeliveredAt := (if d \<noteq> None then d else wd_DeliveredAt r)\<rparr>)))"
  by (auto simp: delivery_UpdateStatus_def split: sum.splits prod.splits option.splits)

lemma delivery_UpdateRetry_fst:
  "fst (delivery_UpdateRetry now s i a t e) =
    (case delivery_Get now s i of Inl _ \<Rightarrow> s
     | Inr r \<Rightarrow> fst (delivery_Update now s (r\<lparr>wd_Attempts := a, wd_NextRetryAt := t, wd_LastError := e\<rparr>)))"
  by (auto simp: delivery_UpdateRetry_def split: sum.splits prod.splits option.splits)

lemma delivery_UpdateStatus_store_ok:
  assumes "store_ok s" "status \<in> {DeliveryStatusInProgress, DeliveryStatusFailed} \<or> status = DeliveryStatusDelivered \<and> d \<noteq> None"
  shows "store_ok (fst (delivery_UpdateStatus now s i status d))"
proof (cases "delivery_Get now s i")
  case (Inr r)
  then have "record_ok (r\<lparr>wd_Status := status, wd_DeliveredAt := (if d \<noteq> None then d else wd_DeliveredAt r)\<rparr>)"
    using store_ok_Get [OF assms(1)] assms(2) by (auto simp: record_ok_def delivery_statuses)
  then show ?thesis using Inr assms(1) by (simp add: delivery_UpdateStatus_fst delivery_Update_store_ok)
qed (use assms in \<open>simp add: delivery_UpdateStatus_fst\<close>)

lemma delivery_UpdateRetry_store_ok:
  assumes "store_ok s" "0 \<le> a" "a < 5"
  shows "store_ok (fst (delivery_UpdateRetry now s i a t e))"
proof (cases "delivery_Get now s i")
  case (Inr r)
  then have "record_ok (r\<lparr>wd_Attempts := a, wd_NextRetryAt := t, wd_LastError := e\<rparr>)"
    using store_ok_Get [OF assms(1)] assms(2,3) by (auto simp: record_ok_def)
  then show ?thesis using Inr assms(1) by (simp add: delivery_UpdateRetry_fst delivery_Update_store_ok)
qed (use assms in \<open>simp add: delivery_UpdateRetry_fst\<close>)

lemma delivery_Create_store_ok:
  assumes "store_ok s" "record_ok (r\<lparr>wd_Status := (if wd_Status r = [] then DeliveryStatusPending else wd_Status r)\<rparr>)"
  shows "store_ok (fst (delivery_Create now newID s r))"
proof -
  have "record_ok (truncateDeliveryTimestamps (r\<lparr>wd_ID := i, wd_CreatedAt := c, wd_LastActivityAt := l,
      wd_Status := (if wd_Status r = [] then DeliveryStatusPending else wd_Status r)\<rparr>))" for i c l
    using assms(2) by (simp add: record_ok_def)
  then have ok: "store_ok (fst (redis_Set now s (truncateDeliveryTimestamps (r\<lparr>wd_ID := i, wd_CreatedAt := c, wd_LastActivityAt := l,
      wd_Status := (if wd_Status r = [] then DeliveryStatusPending else wd_Status r)\<rparr>))))" for i c l
    using assms(1) by (blast intro: redis_Set_store_ok)
  have fst_case: "fst (case x of (s', Some e) \<Rightarrow> (s', f e) | (s', None) \<Rightarrow> (s', g)) = fst x"
    for x :: "delivery_redis \<times> go_error option" and f g by (cases x) (simp split: option.split)
  show ?thesis
    by (cases "if wd_ID r = uuid_Nil then newID else Inr (wd_ID r)") (use assms(1) ok in \<open>simp_all add: delivery_Create_def Let_def fst_case\<close>)
qed

lemma scanAllRecords_ok: "store_ok s \<Longrightarrow> scanAllRecords now s scan = Inr rs \<Longrightarrow> list_all record_ok rs"
  by (auto simp: scanAllRecords_def list_all_iff List.map_filter_def split: sum.splits)
    (blast dest: store_ok_Get)

subsection \<open>The operations keep the store well formed\<close>

abbreviation deliveries_ok :: "webhooks \<Rightarrow> bool" where
  "deliveries_ok w \<equiv> store_ok (wk_deliveries w)"

lemma set_status_ok:
  "deliveries_ok w \<Longrightarrow> status \<in> {DeliveryStatusInProgress, DeliveryStatusFailed} \<or> status = DeliveryStatusDelivered \<and> d \<noteq> None \<Longrightarrow>
    deliveries_ok (set_status now w i status d)"
  by (simp add: set_status_def delivery_UpdateStatus_store_ok)

lemma set_retry_ok: "deliveries_ok w \<Longrightarrow> 0 \<le> a \<Longrightarrow> a < 5 \<Longrightarrow> deliveries_ok (set_retry now w i a t e)"
  by (simp add: set_retry_def delivery_UpdateRetry_store_ok)

lemma count_publication_deliveries [simp]: "wk_deliveries (count_publication env w i b) = wk_deliveries w"
  by (simp add: count_publication_def)

lemma handleDeliveryFailure_ok:
  "deliveries_ok w \<Longrightarrow> record_ok d \<Longrightarrow> deliveries_ok (fst (handleDeliveryFailure env now w d msg))"
  by (simp add: handleDeliveryFailure_def Let_def set_status_ok set_retry_ok record_ok_def)

lemma finish_delivery_ok:
  assumes "deliveries_ok w" "record_ok d"
  shows "deliveries_ok (fst (finish_delivery env now answer w d sub target))"
proof (cases answer)
  case (Inl e)
  then show ?thesis using assms by (simp add: finish_delivery_def handleDeliveryFailure_ok)
next
  case (Inr res)
  then show ?thesis using assms
    by (simp add: finish_delivery_def handleDeliveryFailure_ok set_status_ok Let_def)
qed

lemma deliverWebhook_ok:
  assumes "deliveries_ok w" "record_ok d"
  shows "deliveries_ok (fst (deliverWebhook env net w d))"
proof -
  obtain start stop answer where net: "net = (start, stop, answer)" by (cases net)
  have "0 \<le> wd_Attempts d \<and> wd_Attempts d < 5" using assms(2) by (simp add: record_ok_def)
  then show ?thesis
    using assms finish_delivery_ok [OF assms]
    by (auto simp: deliverWebhook_def net Let_def set_status_ok set_retry_ok split: sum.split prod.split bool.split)
       (metis fst_conv finish_delivery_ok assms)
qed

lemma create_deliveries_ok: "store_ok s \<Longrightarrow> store_ok (create_deliveries now newIDs i s eventType payload subs)"
proof (induction subs arbitrary: i s)
  case (Cons sub subs)
  have "store_ok (fst (delivery_Create now (newIDs i) s (new_delivery sub eventType payload)))"
    by (rule delivery_Create_store_ok [OF Cons.prems]) (simp add: new_delivery_def record_ok_def delivery_statuses)
  then have "store_ok (fst (createDelivery now (newIDs i) s sub eventType payload))"
    by (auto simp: createDelivery_def split: prod.splits sum.splits)
  then show ?case using Cons.IH by simp
qed simp

lemma processMessage_ok: "deliveries_ok w \<Longrightarrow> deliveries_ok (fst (processMessage env order now newIDs w vals))"
  by (simp add: processMessage_def processSystemAuditEvent_def create_deliveries_ok split: option.split sum.split)

lemma fail_stale_ok: "deliveries_ok w \<Longrightarrow> deliveries_ok (fail_stale env now addons w rs)"
proof (induction rs arbitrary: w)
  case (Cons r rs)
  have "store_ok (fst (delivery_UpdateStatus now (wk_deliveries w) (wd_ID r) DeliveryStatusFailed (Some now)))"
    using Cons.prems by (simp add: delivery_UpdateStatus_store_ok)
  then show ?case using Cons.IH
    by (cases "delivery_UpdateStatus now (wk_deliveries w) (wd_ID r) DeliveryStatusFailed (Some now)")
       (auto simp: Let_def split: option.split sum.split)
qed simp

lemma performCleanup_ok: "deliveries_ok w \<Longrightarrow> deliveries_ok (snd (performCleanup env order now scan addons w))"
  by (simp add: performCleanup_def Let_def cleanupStaleDeliveries_def fail_stale_ok split: prod.split sum.split)

lemma check_status_request_Reply:
  "check_status_request decode body = Reply (b, req) \<Longrightarrow>
    body = Inr b \<and> us_Status req \<in> {''in_progress'', ''completed'', ''failed''} \<and>
    (\<forall>p. us_StatusPercent req = Some p \<longrightarrow> 0 \<le> p \<and> p \<le> 100) \<and> (\<forall>m. us_StatusMessage req = Some m \<longrightarrow> length m \<le> 1024)"
  by (auto simp: check_status_request_def split: sum.splits if_splits option.splits)

lemma callback_record_ok:
  assumes "record_ok r" "check_status_request decode body = Reply (b, req)"
  shows "record_ok (callback_record now req r)"
  using assms(1) check_status_request_Reply [OF assms(2)]
  by (auto simp: callback_record_def record_ok_def mapCallbackStatus_def delivery_statuses Let_def split: option.splits)

text \<open>What an accepted callback went through.\<close>

lemma callback_cases:
  assumes run: "UpdateWebhookDeliveryStatus env decode now w idStr body sig = (w', reply)"
  obtains (refused) "w' = w" "\<And>x. reply \<noteq> Reply x"
  | (stored) i b req r webhook where
      "we_uuid env idStr = Inr i" "check_status_request decode body = Reply (b, req)"
      "delivery_Get now (wk_deliveries w) i = Inr r" "sub_Get (we_oracle env) (wk_subs w) (wd_SubscriptionID r) = Inr webhook"
      "ws_Secret webhook \<noteq> [] \<Longrightarrow> VerifySignature (we_hmac env) b sig (ws_Secret webhook)"
      "wd_Status r \<notin> {DeliveryStatusDelivered, DeliveryStatusFailed}"
      "wk_deliveries w' = fst (delivery_Update now (wk_deliveries w) (callback_record now req r))"
proof (cases "we_uuid env idStr")
  case (Inl e)
  then show ?thesis using run refused by (auto simp: UpdateWebhookDeliveryStatus_def)
next
  case i: (Inr i)
  show ?thesis
  proof (cases "check_status_request decode body")
    case (HttpError x y z)
    then show ?thesis using run refused i by (auto simp: UpdateWebhookDeliveryStatus_def)
  next
    case (Reply x)
    then obtain b req where req: "check_status_request decode body = Reply (b, req)" by (cases x) auto
    show ?thesis
    proof (cases "delivery_Get now (wk_deliveries w) i")
      case (Inl e)
      then show ?thesis using run refused i req by (auto simp: UpdateWebhookDeliveryStatus_def)
    next
      case r: (Inr r)
      show ?thesis
      proof (cases "sub_Get (we_oracle env) (wk_subs w) (wd_SubscriptionID r)")
        case (Inl e)
        then show ?thesis using run refused i req r by (auto simp: UpdateWebhookDeliveryStatus_def)
      next
        case webhook: (Inr webhook)
        note here = run i req r webhook
        show ?thesis
        proof (cases "(ws_Secret webhook \<noteq> [] \<and> (sig = [] \<or> \<not> VerifySignature (we_hmac env) b sig (ws_Secret webhook))) \<or>
              wd_Status r = DeliveryStatusDelivered \<or> wd_Status r = DeliveryStatusFailed")
          case True
          then show ?thesis using here refused by (auto simp: UpdateWebhookDeliveryStatus_def split: if_splits)
        next
          case False
          then have "wk_deliveries w' = fst (delivery_Update now (wk_deliveries w) (callback_record now req r))"
            using here by (auto simp: UpdateWebhookDeliveryStatus_def Let_def split: prod.splits option.splits if_splits)
          then show ?thesis using stored i req r webhook False by blast
        qed
      qed
    qed
  qed
qed

lemma callback_ok:
  assumes "deliveries_ok w"
  shows "deliveries_ok (fst (UpdateWebhookDeliveryStatus env decode now w idStr body sig))"
proof -
  obtain w' reply where run: "UpdateWebhookDeliveryStatus env decode now w idStr body sig = (w', reply)" by fastforce
  then show ?thesis
  proof (cases rule: callback_cases)
    case (stored i b req r webhook)
    then show ?thesis using assms run callback_record_ok store_ok_Get by (simp add: delivery_Update_store_ok)
  qed (use assms run in simp)
qed

subsection \<open>Interleavings\<close>

text \<open>
  The service with the delivery worker's loop laid open: the rest of its batch, and the request it has
  sent and not yet heard of. Callbacks, events and the other workers come in between. The stores, the
  clock and the endpoints are free in every step: any scan, any answer, any failure.
\<close>

record machine =
  mc_webhooks :: webhooks
  mc_batch :: "WebhookDeliveryRecord list"
  mc_sent :: "(WebhookDeliveryRecord \<times> DBWebhookSubscription \<times> string) option"

definition fresh_delivery :: "WebhookDeliveryRecord \<Rightarrow> bool" where
  "fresh_delivery r \<longleftrightarrow> wd_Status r = DeliveryStatusPending \<and> wd_Attempts r = 0 \<and> wd_StatusPercent r = 0 \<and>
     wd_StatusMessage r = [] \<and> wd_DeliveredAt r = None"

inductive webhook_step :: "webhook_env \<Rightarrow> machine \<Rightarrow> machine \<Rightarrow> bool" for env where
  poll: "sorts_by_creation order \<Longrightarrow> mc_batch m = [] \<Longrightarrow> mc_sent m = None \<Longrightarrow>
    ListPending order now (wk_deliveries (mc_webhooks m)) scan1 100 = Inr pending \<Longrightarrow>
    retries = (case ListReadyForRetry now (wk_deliveries (mc_webhooks m)) scan2 of Inl _ \<Rightarrow> [] | Inr rs \<Rightarrow> rs) \<Longrightarrow>
    webhook_step env m (m\<lparr>mc_batch := pending @ retries\<rparr>)"
| settle: "mc_batch m = d # ds \<Longrightarrow> mc_sent m = None \<Longrightarrow>
    deliverWebhook env (now, now', answer) (mc_webhooks m) d = (w, err, []) \<Longrightarrow>
    webhook_step env m (m\<lparr>mc_webhooks := w, mc_batch := ds\<rparr>)"
| post: "mc_batch m = d # ds \<Longrightarrow> mc_sent m = None \<Longrightarrow>
    sub_Get (we_oracle env) (wk_subs (mc_webhooks m)) (wd_SubscriptionID d) = Inr sub \<Longrightarrow> ws_Status sub = ''active'' \<Longrightarrow>
    target = targetKey (we_parse env) (ws_Url sub) \<Longrightarrow> fst (cb_allow now (wk_breaker (mc_webhooks m)) target) \<Longrightarrow>
    webhook_step env m (m\<lparr>mc_batch := ds, mc_sent := Some (d, sub, target)\<rparr>)"
| answer: "mc_sent m = Some (d, sub, target) \<Longrightarrow>
    finish_delivery env now answer (mc_webhooks m) d sub target = (w, err) \<Longrightarrow>
    webhook_step env m (m\<lparr>mc_webhooks := w, mc_sent := None\<rparr>)"
| callback: "UpdateWebhookDeliveryStatus env decode now (mc_webhooks m) idStr body signature = (w, reply) \<Longrightarrow>
    webhook_step env m (m\<lparr>mc_webhooks := w\<rparr>)"
| event: "processMessage env sub_order now newIDs (mc_webhooks m) vals = (w, err) \<Longrightarrow>
    webhook_step env m (m\<lparr>mc_webhooks := w\<rparr>)"
| invoke: "fresh_delivery r \<Longrightarrow> delivery_Create now newID (wk_deliveries (mc_webhooks m)) r = (s, created) \<Longrightarrow>
    webhook_step env m (m\<lparr>mc_webhooks := mc_webhooks m\<lparr>wk_deliveries := s\<rparr>\<rparr>)"
| verify: "processPendingVerifications env sub_order challenges (wk_subs (mc_webhooks m)) = (d, err) \<Longrightarrow>
    webhook_step env m (m\<lparr>mc_webhooks := mc_webhooks m\<lparr>wk_subs := d\<rparr>\<rparr>)"
| cleanup: "performCleanup env sub_order now scan addons (mc_webhooks m) = (addons', w) \<Longrightarrow>
    webhook_step env m (m\<lparr>mc_webhooks := w\<rparr>)"
| weather: "webhook_step env m (m\<lparr>mc_webhooks := mc_webhooks m\<lparr>
    wk_deliveries := wk_deliveries (mc_webhooks m)\<lparr>dr_error := e\<rparr>,
    wk_subs := wk_subs (mc_webhooks m)\<lparr>sdb_now := t, sdb_read_error := e', sdb_write_error := e''\<rparr>\<rparr>\<rparr>)"

definition machine_ok :: "machine \<Rightarrow> bool" where
  "machine_ok m \<longleftrightarrow> deliveries_ok (mc_webhooks m) \<and> list_all record_ok (mc_batch m) \<and>
     (case mc_sent m of Some (d, _) \<Rightarrow> record_ok d | None \<Rightarrow> True)"

lemma ListPending_ok:
  assumes "sorts_by_creation order" "store_ok s" "ListPending order now s scan limit = Inr rs"
  shows "list_all record_ok rs"
proof -
  have "set (order xs) = set xs" for xs using assms(1) unfolding sorts_by_creation_def by (metis set_mset_mset)
  then show ?thesis using assms(2,3) scanAllRecords_ok
    by (fastforce simp: ListPending_def Let_def list_all_iff split: sum.splits if_splits dest: in_set_takeD)
qed

lemma ListReadyForRetry_ok: "store_ok s \<Longrightarrow> ListReadyForRetry now s scan = Inr rs \<Longrightarrow> list_all record_ok rs"
  using scanAllRecords_ok by (fastforce simp: ListReadyForRetry_def list_all_iff split: sum.splits)

lemma store_ok_error [simp]: "store_ok (s\<lparr>dr_error := e\<rparr>) = store_ok s"
  by (simp add: store_ok_def)

lemma webhook_step_ok:
  assumes "webhook_step env m m'" "machine_ok m"
  shows "machine_ok m'"
  using assms
proof (cases rule: webhook_step.cases)
  case (poll order now scan1 pending retries scan2)
  then have "list_all record_ok pending" "list_all record_ok retries"
    using assms(2) by (auto simp: machine_ok_def dest: ListPending_ok ListReadyForRetry_ok split: sum.splits)
  then show ?thesis using poll assms(2) by (simp add: machine_ok_def)
next
  case (settle d ds now now' answer w err)
  then show ?thesis using assms(2) deliverWebhook_ok [of "mc_webhooks m" d env "(now, now', answer)"]
    by (simp add: machine_ok_def)
next
  case (answer d sub target now answer w err)
  then show ?thesis using assms(2) finish_delivery_ok [of "mc_webhooks m" d env now answer sub target]
    by (simp add: machine_ok_def)
next
  case (callback decode now idStr body signature w reply)
  then show ?thesis using assms(2) callback_ok [of "mc_webhooks m" env decode now idStr body signature]
    by (simp add: machine_ok_def)
next
  case (event sub_order now newIDs vals w err)
  then show ?thesis using assms(2) processMessage_ok [of "mc_webhooks m" env sub_order now newIDs vals]
    by (simp add: machine_ok_def)
next
  case (invoke r now newID s created)
  then show ?thesis using assms(2) delivery_Create_store_ok [of "wk_deliveries (mc_webhooks m)" r now newID]
    by (simp add: machine_ok_def fresh_delivery_def record_ok_def delivery_statuses)
next
  case (cleanup sub_order now scan addons addons' w)
  then show ?thesis using assms(2) performCleanup_ok [of "mc_webhooks m" env sub_order now scan addons]
    by (simp add: machine_ok_def)
qed (simp_all add: machine_ok_def)

definition machine_init :: "machine \<Rightarrow> bool" where
  "machine_init m \<longleftrightarrow> dr_keys (wk_deliveries (mc_webhooks m)) = [] \<and> mc_batch m = [] \<and> mc_sent m = None"

interpretation webhook_system: invariant_system machine_init "webhook_step env" machine_ok for env
proof unfold_locales
  show "machine_ok m" if "machine_init m" for m
    using that by (simp add: machine_init_def machine_ok_def store_ok_def)
qed (rule webhook_step_ok)

text \<open>
  C15. Delivery records stay well formed, whatever the workers, events and callbacks do in whatever order
  and however the stores fail: every record a read can return has one of the four statuses, a progress
  between 0 and 100, a message of at most 1024 bytes, fewer than five recorded attempts, and a delivery
  time when it is delivered; and it is stored under its own identifier.
\<close>

theorem delivery_records_well_formed:
  assumes "reachable machine_init (webhook_step env) m" "delivery_Get now (wk_deliveries (mc_webhooks m)) i = Inr r"
  shows "wd_ID r = i \<and> record_ok r"
  using webhook_system.reachable_inv [OF assms(1)] assms(2) by (auto simp: machine_ok_def dest: store_ok_Get)

definition demo_sub :: DBWebhookSubscription where
  "demo_sub = \<lparr>ws_Id = ''s'', ws_OwnerId = ''o'', ws_ThreatModelId = None, ws_Name = ''hook'', ws_Url = ''https://h/x'',
     ws_Events = [''*''], ws_Secret = ''k'', ws_Status = ''active'', ws_Challenge = [], ws_ChallengesSent = 0, ws_CreatedAt = 0,
     ws_ModifiedAt = 0, ws_LastSuccessfulUse = None, ws_PublicationFailures = 0, ws_TimeoutCount = 0, ws_OperatorPinned = False\<rparr>"

definition demo_subs :: "DBWebhookSubscription list \<Rightarrow> subscription_db" where
  "demo_subs rows = \<lparr>sdb_rows = rows, sdb_now = 0, sdb_read_error = None, sdb_write_error = None\<rparr>"

definition demo_whenv :: webhook_env where
  "demo_whenv = \<lparr>we_oracle = False, we_parse = (\<lambda>_. Inr (''h'', ''h'')), we_hmac = (\<lambda>p k. k @ p), we_uuid = Inr,
     we_envelope_tm = (\<lambda>_. Inl (errors_New ''no threat model'')), we_payload_tm = (\<lambda>_. Inr []), we_issuer = None\<rparr>"

definition demo_webhooks :: "(string \<times> WebhookDeliveryRecord \<times> time) list \<Rightarrow> webhooks" where
  "demo_webhooks keys = \<lparr>wk_deliveries = \<lparr>dr_keys = keys, dr_error = None\<rparr>, wk_subs = demo_subs [demo_sub],
     wk_breaker = newWebhookCircuitBreaker 5 []\<rparr>"

definition demo_delivery :: WebhookDeliveryRecord where
  "demo_delivery = (new_delivery demo_sub ''e'' ''p'')\<lparr>wd_ID := ''d''\<rparr>"

lemmas demo_webhook_defs = demo_sub_def demo_subs_def demo_whenv_def demo_webhooks_def demo_delivery_def new_delivery_def

theorem delivery_records_well_formed_witness:
  "wd_ID (truncateDeliveryTimestamps (demo_delivery\<lparr>wd_CreatedAt := 7000, wd_LastActivityAt := 7000\<rparr>)) = ''d'' \<and>
   record_ok (truncateDeliveryTimestamps (demo_delivery\<lparr>wd_CreatedAt := 7000, wd_LastActivityAt := 7000\<rparr>))"
proof -
  let ?r = "truncateDeliveryTimestamps (demo_delivery\<lparr>wd_CreatedAt := 7000, wd_LastActivityAt := 7000\<rparr>)"
  let ?m = "\<lparr>mc_webhooks = demo_webhooks [], mc_batch = [], mc_sent = None\<rparr>"
  have create: "delivery_Create 7000 (Inr ''d'') (wk_deliveries (demo_webhooks [])) demo_delivery =
      (\<lparr>dr_keys = [(''d'', ?r, 7000 + ttlForStatus DeliveryStatusPending)], dr_error = None\<rparr>, Inr ?r)"
    by (simp add: delivery_Create_def Let_def redis_Set_def demo_webhook_defs uuid_Nil_def delivery_statuses truncateDeliveryTimestamps_def)
  have "reachable machine_init (webhook_step demo_whenv) ?m"
    by (rule reach_init) (simp add: machine_init_def demo_webhooks_def)
  moreover have "webhook_step demo_whenv ?m (?m\<lparr>mc_webhooks := mc_webhooks ?m\<lparr>wk_deliveries :=
      \<lparr>dr_keys = [(''d'', ?r, 7000 + ttlForStatus DeliveryStatusPending)], dr_error = None\<rparr>\<rparr>\<rparr>)"
    using webhook_step.invoke [of demo_delivery 7000 "Inr ''d''" ?m _ _ demo_whenv] create
    by (simp add: fresh_delivery_def demo_delivery_def new_delivery_def)
  ultimately have reach: "reachable machine_init (webhook_step demo_whenv) (?m\<lparr>mc_webhooks := mc_webhooks ?m\<lparr>wk_deliveries :=
      \<lparr>dr_keys = [(''d'', ?r, 7000 + ttlForStatus DeliveryStatusPending)], dr_error = None\<rparr>\<rparr>\<rparr>)"
    by (rule reach_step)
  show ?thesis
    by (rule delivery_records_well_formed [OF reach, of 8000 "''d''"])
       (simp add: delivery_Get_Inr ttlForStatus_def delivery_statuses go_Minute_def)
qed

subsection \<open>Callbacks\<close>


definition demo_decode :: "string \<Rightarrow> go_error + UpdateWebhookDeliveryStatusRequest" where
  "demo_decode b = Inr \<lparr>us_Status = b, us_StatusMessage = None, us_StatusPercent = None\<rparr>"


subsection \<open>Retrying ends\<close>

text \<open>One delivery in successive rounds of the worker: it is attempted while it is pending.\<close>

fun attempt_rounds :: "webhook_env \<Rightarrow> string \<Rightarrow> webhooks \<Rightarrow> exchange list \<Rightarrow> webhooks" where
  "attempt_rounds env i w [] = w"
| "attempt_rounds env i w (net # nets) =
    attempt_rounds env i (case delivery_Get (fst net) (wk_deliveries w) i of
        Inr r \<Rightarrow> if wd_Status r = DeliveryStatusPending then fst (deliverWebhook env net w r) else w
      | Inl _ \<Rightarrow> w) nets"

text \<open>Rounds that start at least half an hour after the previous one ended, the first not before \<open>T\<close>.\<close>

fun spaced :: "time \<Rightarrow> exchange list \<Rightarrow> bool" where
  "spaced T [] = True"
| "spaced T ((start, stop, _) # nets) \<longleftrightarrow> T \<le> start \<and> start \<le> stop \<and> spaced (stop + 30 * go_Minute) nets"

fun last_end :: "time \<Rightarrow> exchange list \<Rightarrow> time" where
  "last_end T [] = T"
| "last_end T ((_, stop, _) # nets) = last_end stop nets"

definition quiet :: "time \<Rightarrow> webhookCircuitBreaker \<Rightarrow> bool" where
  "quiet T b \<longleftrightarrow> cb_backoffs b \<noteq> [] \<and> list_all (\<lambda>x. x \<le> 30 * go_Minute) (cb_backoffs b) \<and>
     (\<forall>t st. map_of (cb_state b) t = Some st \<longrightarrow> 0 \<le> ts_openWindowIdx st \<and> ts_openUntil st \<le> T)"

lemma quiet_allow: "quiet T b \<Longrightarrow> T \<le> now \<Longrightarrow> cb_allow now b target = (True, time_Zero)"
  by (fastforce simp: quiet_def cb_allow_def split: option.split)

lemma quiet_later: "quiet T b \<Longrightarrow> T \<le> T' \<Longrightarrow> quiet T' b"
  by (fastforce simp: quiet_def)

lemma quiet_success: "quiet T b \<Longrightarrow> quiet T (recordSuccess b target)"
  by (auto simp: quiet_def recordSuccess_state split: if_splits)

lemma quiet_failure:
  assumes q: "quiet T b" and le: "T \<le> now + 30 * go_Minute" "time_Zero \<le> now + 30 * go_Minute"
  shows "quiet (now + 30 * go_Minute) (recordFailure now b target)"
proof -
  let ?T = "now + 30 * go_Minute"
  have "0 \<le> ts_openWindowIdx st \<and> ts_openUntil st \<le> ?T" if st: "map_of (cb_state (recordFailure now b target)) t = Some st" for t st
  proof (cases "t = target")
    case False
    then show ?thesis using st q le by (force simp: recordFailure_other quiet_def)
  next
    case True
    define st0 where "st0 = (case map_of (cb_state b) target of Some st \<Rightarrow> st
        | None \<Rightarrow> \<lparr>ts_consecutiveFailures = 0, ts_openWindowIdx = 0, ts_openUntil = time_Zero\<rparr>)"
    have st0: "0 \<le> ts_openWindowIdx st0" "ts_openUntil st0 \<le> ?T"
      using q le by (fastforce simp: st0_def quiet_def split: option.split)+
    have "cb_backoffs b ! nat k \<le> 30 * go_Minute" if "0 \<le> k" "k < int (length (cb_backoffs b))" for k
      using q that by (auto simp: quiet_def list_all_length)
    moreover have "cb_backoffs b \<noteq> []" using q by (simp add: quiet_def)
    ultimately show ?thesis using st True st0
      by (simp add: recordFailure_def Let_def update_conv' st0_def [symmetric] split: if_splits) (force simp: Suc_le_eq)+
  qed
  then show ?thesis using q by (auto simp: quiet_def)
qed

lemma Get_earlier: "delivery_Get t s i = Inr r \<Longrightarrow> now \<le> t \<Longrightarrow> delivery_Get now s i = Inr r"
  by (auto simp: delivery_Get_Inr)

lemma Get_Update:
  assumes "delivery_Get t (fst (delivery_Update now s r0)) (wd_ID r0) = Inr r" "dr_error s = None"
  shows "r = truncateDeliveryTimestamps (r0\<lparr>wd_LastActivityAt := now\<rparr>)"
  using assms by (auto simp: delivery_Get_Inr delivery_Update_set redis_Set_def update_conv')

lemma Get_UpdateStatus:
  assumes "delivery_Get t (fst (delivery_UpdateStatus now s i status d)) i = Inr r" "now \<le> t" "store_ok s" "dr_error s = None"
  shows "wd_Status r = status"
proof (cases "delivery_Get now s i")
  case (Inl e')
  then have "delivery_Get t s i = Inr r" using assms(1) by (simp add: delivery_UpdateStatus_fst)
  then show ?thesis using Get_earlier [OF _ assms(2)] Inl by simp
next
  case (Inr r0)
  then have "wd_ID r0 = i" using assms(3) store_ok_Get by blast
  then show ?thesis
    using Inr assms(1,4) Get_Update [of t now s "r0\<lparr>wd_Status := status, wd_DeliveredAt := (if d \<noteq> None then d else wd_DeliveredAt r0)\<rparr>" r]
    by (simp add: delivery_UpdateStatus_fst)
qed

lemma Get_UpdateRetry:
  assumes "delivery_Get t (fst (delivery_UpdateRetry now s i a nr e)) i = Inr r" "now \<le> t" "store_ok s" "dr_error s = None"
  shows "wd_Attempts r = a"
proof (cases "delivery_Get now s i")
  case (Inl e')
  then have "delivery_Get t s i = Inr r" using assms(1) by (simp add: delivery_UpdateRetry_fst)
  then show ?thesis using Get_earlier [OF _ assms(2)] Inl by simp
next
  case (Inr r0)
  then have "wd_ID r0 = i" using assms(3) store_ok_Get by blast
  then show ?thesis
    using Inr assms(1,4) Get_Update [of t now s "r0\<lparr>wd_Attempts := a, wd_NextRetryAt := nr, wd_LastError := e\<rparr>" r]
    by (simp add: delivery_UpdateRetry_fst)
qed

lemma delivery_updates_error [simp]:
  "dr_error (fst (delivery_UpdateStatus now s i status d)) = dr_error s"
  "dr_error (fst (delivery_UpdateRetry now s i a nr e)) = dr_error s"
  by (simp_all add: delivery_UpdateStatus_fst delivery_UpdateRetry_fst delivery_Update_set redis_Set_error split: sum.split)

text \<open>What is known of a delivery from \<open>T\<close> on: while it is pending it has at least \<open>a\<close> attempts behind it.\<close>

definition progressed :: "webhooks \<Rightarrow> string \<Rightarrow> time \<Rightarrow> int \<Rightarrow> bool" where
  "progressed w i T a \<longleftrightarrow> (\<forall>t r. T \<le> t \<longrightarrow> delivery_Get t (wk_deliveries w) i = Inr r \<longrightarrow>
     wd_Status r = DeliveryStatusPending \<longrightarrow> a \<le> wd_Attempts r)"

lemma progressed_set_status:
  assumes "deliveries_ok w" "dr_error (wk_deliveries w) = None" "status \<noteq> DeliveryStatusPending"
  shows "progressed (set_status now w i status d) i now a"
  using assms Get_UpdateStatus by (fastforce simp: progressed_def set_status_def)

lemma progressed_set_retry:
  assumes "deliveries_ok w" "dr_error (wk_deliveries w) = None" "a \<le> b"
  shows "progressed (set_retry now w i b nr e) i now a"
  using assms Get_UpdateRetry by (fastforce simp: progressed_def set_retry_def)

lemma progressed_deliveries: "wk_deliveries w' = wk_deliveries w \<Longrightarrow> progressed w' i T a = progressed w i T a"
  by (simp add: progressed_def)

lemma handleDeliveryFailure_progress:
  assumes "deliveries_ok w" "dr_error (wk_deliveries w) = None"
  shows "progressed (fst (handleDeliveryFailure env now w d msg)) (wd_ID d) now (wd_Attempts d + 1)"
  using progressed_set_status [OF assms] progressed_set_retry [OF assms]
  by (simp add: handleDeliveryFailure_def Let_def progressed_deliveries [OF count_publication_deliveries] delivery_statuses)

lemma handleDeliveryFailure_keeps [simp]:
  "dr_error (wk_deliveries (fst (handleDeliveryFailure env now w d msg))) = dr_error (wk_deliveries w)"
  "wk_breaker (fst (handleDeliveryFailure env now w d msg)) = wk_breaker w"
  by (simp_all add: handleDeliveryFailure_def Let_def set_status_def set_retry_def count_publication_def)

lemma finish_delivery_progress:
  assumes "deliveries_ok w" "dr_error (wk_deliveries w) = None"
  shows "progressed (fst (finish_delivery env now answer w d sub target)) (wd_ID d) now (wd_Attempts d + 1)"
proof (cases answer)
  case (Inl e)
  then show ?thesis using assms by (simp add: finish_delivery_def handleDeliveryFailure_progress)
next
  case (Inr res)
  have "progressed (set_status now (w\<lparr>wk_breaker := b\<rparr>) (wd_ID d) st dt) (wd_ID d) now x" if "st \<noteq> DeliveryStatusPending" for b st dt x
    by (rule progressed_set_status) (use assms that in simp_all)
  with Inr show ?thesis using assms
    by (simp add: finish_delivery_def handleDeliveryFailure_progress Let_def progressed_deliveries [OF count_publication_deliveries] delivery_statuses)
qed

lemma finish_delivery_keeps:
  "dr_error (wk_deliveries (fst (finish_delivery env now answer w d sub target))) = dr_error (wk_deliveries w)"
  "wk_breaker (fst (finish_delivery env now answer w d sub target)) \<in>
     {recordFailure now (wk_breaker w) target, recordSuccess (wk_breaker w) target}"
  by (simp_all add: finish_delivery_def Let_def set_status_def count_publication_def split: sum.split)

lemma round_progress:
  assumes w: "deliveries_ok w" "dr_error (wk_deliveries w) = None" "quiet T (wk_breaker w)"
    and t: "time_Zero \<le> T" "T \<le> start" "start \<le> stop"
    and r: "delivery_Get start (wk_deliveries w) i = Inr r"
    and w': "w' = fst (deliverWebhook env (start, stop, answer) w r)"
  shows "progressed w' i stop (wd_Attempts r + 1)" "dr_error (wk_deliveries w') = None" "quiet (stop + 30 * go_Minute) (wk_breaker w')"
proof -
  have r': "wd_ID r = i" "record_ok r" using store_ok_Get [OF w(1) r] by auto
  have le: "T \<le> stop + 30 * go_Minute" "time_Zero \<le> stop + 30 * go_Minute" using t by (simp_all add: go_Minute_def)
  have failed: "progressed (set_status start w i DeliveryStatusFailed (Some start)) i start (wd_Attempts r + 1)"
    using progressed_set_status w by (simp add: delivery_statuses)
  have fin: "progressed (fst (finish_delivery env stop answer w r sub target)) i stop (wd_Attempts r + 1)" for sub target
    using finish_delivery_progress [OF w(1,2)] r' by metis
  have brk: "quiet (stop + 30 * go_Minute) (wk_breaker (fst (finish_delivery env stop answer w r sub target)))" for sub target
    using finish_delivery_keeps(2) [of env stop answer w r sub target] quiet_failure [OF w(3) le] quiet_later [OF quiet_success [OF w(3)] le(1)]
    by auto
  consider (dead) "w' = set_status start w i DeliveryStatusFailed (Some start)"
    | (posted) sub target where "w' = fst (finish_delivery env stop answer w r sub target)"
    using w' quiet_allow [OF w(3) t(2)] r'(1)
    by (auto simp: deliverWebhook_def Let_def split: sum.splits if_splits prod.splits) (metis fst_conv)
  then have "progressed w' i stop (wd_Attempts r + 1) \<and> dr_error (wk_deliveries w') = None \<and> quiet (stop + 30 * go_Minute) (wk_breaker w')"
  proof cases
    case dead
    then have "progressed w' i stop (wd_Attempts r + 1)" using failed t(3) unfolding progressed_def by (meson order_trans)
    then show ?thesis using dead w quiet_later [OF w(3) le(1)] by (simp add: set_status_def)
  next
    case posted
    then show ?thesis using fin brk finish_delivery_keeps(1) w(2) by simp
  qed
  then show "progressed w' i stop (wd_Attempts r + 1)" "dr_error (wk_deliveries w') = None" "quiet (stop + 30 * go_Minute) (wk_breaker w')" by auto
qed

lemma attempt_rounds_progress:
  assumes "deliveries_ok w" "dr_error (wk_deliveries w) = None" "quiet T (wk_breaker w)" "time_Zero \<le> T" "T0 \<le> T"
    and "spaced T nets" "progressed w i T0 a"
  shows "deliveries_ok (attempt_rounds env i w nets) \<and> progressed (attempt_rounds env i w nets) i (last_end T0 nets) (a + int (length nets))"
  using assms
proof (induction nets arbitrary: w T T0 a)
  case (Cons net nets)
  obtain start stop answer where net: "net = (start, stop, answer)" by (cases net)
  have t: "T \<le> start" "start \<le> stop" "spaced (stop + 30 * go_Minute) nets" using Cons.prems(6) by (simp_all add: net)
  have le: "T \<le> stop + 30 * go_Minute" "time_Zero \<le> stop + 30 * go_Minute" "stop \<le> stop + 30 * go_Minute"
    using t Cons.prems(4) by (simp_all add: go_Minute_def)
  define w' where "w' = (case delivery_Get start (wk_deliveries w) i of
        Inr r \<Rightarrow> if wd_Status r = DeliveryStatusPending then fst (deliverWebhook env net w r) else w | Inl _ \<Rightarrow> w)"
  have "deliveries_ok w' \<and> dr_error (wk_deliveries w') = None \<and> quiet (stop + 30 * go_Minute) (wk_breaker w') \<and> progressed w' i stop (a + 1)"
  proof (cases "\<exists>r. delivery_Get start (wk_deliveries w) i = Inr r \<and> wd_Status r = DeliveryStatusPending")
    case True
    then obtain r where r: "delivery_Get start (wk_deliveries w) i = Inr r" "wd_Status r = DeliveryStatusPending" by blast
    then have w': "w' = fst (deliverWebhook env (start, stop, answer) w r)" by (simp add: w'_def net)
    have "a \<le> wd_Attempts r" using Cons.prems(5,7) r t(1) unfolding progressed_def by (meson order_trans)
    moreover have "record_ok r" using store_ok_Get [OF Cons.prems(1) r(1)] by simp
    ultimately show ?thesis
      using round_progress [OF Cons.prems(1-4) t(1,2) r(1) w'] deliverWebhook_ok [OF Cons.prems(1)] w'
      by (fastforce simp: progressed_def)
  next
    case False
    then have "w' = w" by (auto simp: w'_def split: sum.split)
    moreover have "progressed w i stop (a + 1)"
      using False Get_earlier [of _ "wk_deliveries w" i _ start] t(2) unfolding progressed_def by (metis order_trans)
    ultimately show ?thesis using Cons.prems quiet_later le(1) by blast
  qed
  then have "deliveries_ok (attempt_rounds env i w' nets) \<and>
      progressed (attempt_rounds env i w' nets) i (last_end stop nets) (a + 1 + int (length nets))"
    using Cons.IH [of w' "stop + 30 * go_Minute" stop "a + 1"] le t(3) by blast
  then show ?case by (simp add: net w'_def [symmetric, unfolded net] add.assoc)
qed simp


definition demo_failures :: "exchange list" where
  "demo_failures = map (\<lambda>k. (31 * go_Minute * int k, 31 * go_Minute * int k, Inl (errors_New ''refused''))) [1, 2, 3, 4, 5]"


end
