(* ===== verification/Webhook_Lifecycle.thy ===== *)
theory Webhook_Lifecycle
  imports Webhook_Machine
begin

text \<open>
  The life of a webhook subscription: its verification ends, only an endpoint that echoes its challenge is
  activated, and cleaning up never touches what the operator pinned. The last section is about a due
  retry, which the delivery worker sends twice.
\<close>

subsection \<open>Verification ends\<close>

lemma sub_updates_rows:
  "sdb_write_error d = None \<Longrightarrow> list_ex (\<lambda>w. ws_Id w = i) (sdb_rows d) \<Longrightarrow>
    sub_updates oracle d i f = (d\<lparr>sdb_rows := map (\<lambda>w. if ws_Id w = i then (f w)\<lparr>ws_ModifiedAt := sdb_now d\<rparr> else w) (sdb_rows d)\<rparr>, None)"
  by (simp add: sub_updates_def)

text \<open>A row's verification has come \<open>k\<close> challenges far, or is over.\<close>

definition challenged :: "nat \<Rightarrow> DBWebhookSubscription \<Rightarrow> bool" where
  "challenged k w \<longleftrightarrow> (ws_Status w = ''pending_verification'' \<longrightarrow> int k \<le> ws_ChallengesSent w \<and> (k \<noteq> 0 \<longrightarrow> ws_ChallengesSent w \<le> 3))"

lemma verifySubscription_rows:
  assumes "sdb_write_error d = None" "list_ex (\<lambda>w. ws_Id w = ws_Id sub) (sdb_rows d)"
  obtains f where
    "fst (verifySubscription env random answer d sub) =
       d\<lparr>sdb_rows := map (\<lambda>w. if ws_Id w = ws_Id sub then (f w)\<lparr>ws_ModifiedAt := sdb_now d\<rparr> else w) (sdb_rows d)\<rparr>"
    "\<And>w. ws_Id (f w) = ws_Id w \<and> (ws_Status (f w) \<in> {''pending_delete'', ''active''} \<or>
       ws_Status (f w) = ws_Status w \<and> ws_ChallengesSent (f w) = ws_ChallengesSent sub + 1 \<and> ws_ChallengesSent sub < 3)"
proof (cases "3 \<le> ws_ChallengesSent sub")
  case True
  then show ?thesis
    by (intro that [of "\<lambda>w. w\<lparr>ws_Status := ''pending_delete''\<rparr>"])
      (simp_all add: verifySubscription_def sub_UpdateStatus_def sub_updates_rows [OF assms])
next
  case False
  define c where "c = (if ws_Challenge sub = [] then random else ws_Challenge sub)"
  show ?thesis
  proof (cases "\<exists>response. answer = Inr (200, Inr response) \<and> (case map_of response ''challenge'' of Some c \<Rightarrow> c | None \<Rightarrow> []) = c")
    case True
    then show ?thesis using False
      by (intro that [of "\<lambda>w. w\<lparr>ws_Status := ''active''\<rparr>"])
        (auto simp: verifySubscription_def sub_UpdateStatus_def sub_updates_rows [OF assms] c_def [symmetric] Let_def)
  next
    case no: False
    show ?thesis using False no
      by (intro that [of "\<lambda>w. w\<lparr>ws_Challenge := c, ws_ChallengesSent := ws_ChallengesSent sub + 1\<rparr>"])
        (auto simp: verifySubscription_def UpdateChallenge_def sub_updates_rows [OF assms] c_def [symmetric] Let_def
          split: sum.split prod.split)
  qed
qed

lemma verify_all_rows:
  assumes "sdb_write_error d = None" "distinct (map ws_Id (sdb_rows d))" "distinct (map ws_Id subs)" "set subs \<subseteq> set (sdb_rows d)"
    and "\<forall>sub \<in> set subs. int k \<le> ws_ChallengesSent sub"
  shows "sdb_write_error (verify_all env net i d subs) = None \<and> sdb_read_error (verify_all env net i d subs) = sdb_read_error d \<and>
    map ws_Id (sdb_rows (verify_all env net i d subs)) = map ws_Id (sdb_rows d) \<and>
    (\<forall>w \<in> set (sdb_rows (verify_all env net i d subs)). if ws_Id w \<in> ws_Id ` set subs then challenged (Suc k) w else w \<in> set (sdb_rows d))"
  using assms
proof (induction subs arbitrary: i d)
  case (Cons sub subs)
  have ex: "list_ex (\<lambda>w. ws_Id w = ws_Id sub) (sdb_rows d)" using Cons.prems(4) by (auto simp: list_ex_iff)
  obtain f where f: "fst (verifySubscription env (fst (net i)) (snd (net i)) d sub) =
       d\<lparr>sdb_rows := map (\<lambda>w. if ws_Id w = ws_Id sub then (f w)\<lparr>ws_ModifiedAt := sdb_now d\<rparr> else w) (sdb_rows d)\<rparr>"
    and fw: "\<And>w. ws_Id (f w) = ws_Id w \<and> (ws_Status (f w) \<in> {''pending_delete'', ''active''} \<or>
       ws_Status (f w) = ws_Status w \<and> ws_ChallengesSent (f w) = ws_ChallengesSent sub + 1 \<and> ws_ChallengesSent sub < 3)"
    using verifySubscription_rows [OF Cons.prems(1) ex, of env "fst (net i)" "snd (net i)"] by blast
  define d1 where "d1 = fst (verifySubscription env (fst (net i)) (snd (net i)) d sub)"
  have ids: "map ws_Id (sdb_rows d1) = map ws_Id (sdb_rows d)" using fw by (simp add: d1_def f comp_def)
  have rows: "w \<in> set (sdb_rows d) \<Longrightarrow> ws_Id w \<noteq> ws_Id sub \<Longrightarrow> w \<in> set (sdb_rows d1)" for w
    unfolding d1_def f by (force simp: image_iff)
  have fc: "challenged (Suc k) ((f w)\<lparr>ws_ModifiedAt := t\<rparr>)" for w t
  proof -
    have "int k \<le> ws_ChallengesSent sub" using Cons.prems(5) by simp
    then show ?thesis using fw [of w] by (auto simp: challenged_def)
  qed
  have new: "if ws_Id w = ws_Id sub then challenged (Suc k) w else w \<in> set (sdb_rows d)" if w: "w \<in> set (sdb_rows d1)" for w
  proof -
    obtain v where "v \<in> set (sdb_rows d)" "w = (if ws_Id v = ws_Id sub then (f v)\<lparr>ws_ModifiedAt := sdb_now d\<rparr> else v)"
      using w unfolding d1_def f by auto
    then show ?thesis using fc fw [of v] by auto
  qed
  have IH: "sdb_write_error (verify_all env net (Suc i) d1 subs) = None \<and> sdb_read_error (verify_all env net (Suc i) d1 subs) = sdb_read_error d1 \<and>
      map ws_Id (sdb_rows (verify_all env net (Suc i) d1 subs)) = map ws_Id (sdb_rows d1) \<and>
      (\<forall>w \<in> set (sdb_rows (verify_all env net (Suc i) d1 subs)). if ws_Id w \<in> ws_Id ` set subs then challenged (Suc k) w else w \<in> set (sdb_rows d1))"
  proof (rule Cons.IH)
    show "sdb_write_error d1 = None" using Cons.prems(1) by (simp add: d1_def f)
    show "distinct (map ws_Id (sdb_rows d1))" using Cons.prems(2) ids by simp
    show "set subs \<subseteq> set (sdb_rows d1)"
    proof
      fix v assume v: "v \<in> set subs"
      then have "ws_Id v \<in> ws_Id ` set subs" by (rule imageI)
      then have "ws_Id v \<noteq> ws_Id sub" using Cons.prems(3) by auto
      then show "v \<in> set (sdb_rows d1)" using v Cons.prems(4) by (auto intro: rows)
    qed
  qed (use Cons.prems in simp_all)
  then show ?case using new ids by (auto simp: d1_def [symmetric] f [folded d1_def] split: if_splits)
qed (simp add: challenged_def)

definition permutes_rows :: "row_order \<Rightarrow> bool" where
  "permutes_rows order \<longleftrightarrow> (\<forall>rows. mset (order rows) = mset rows)"

definition subscriptions_ok :: "subscription_db \<Rightarrow> bool" where
  "subscriptions_ok d \<longleftrightarrow> sdb_read_error d = None \<and> sdb_write_error d = None \<and> distinct (map ws_Id (sdb_rows d))"

lemma permutes_rows_set: "permutes_rows order \<Longrightarrow> set (order rows) = set rows"
  unfolding permutes_rows_def by (metis set_mset_mset)

lemma permutes_rows_ids: "permutes_rows order \<Longrightarrow> distinct (map ws_Id (order rows)) = distinct (map ws_Id rows)"
  unfolding permutes_rows_def by (metis mset_map mset_eq_imp_distinct_iff)

definition verification_round ::
  "webhook_env \<Rightarrow> row_order \<times> (nat \<Rightarrow> string \<times> (go_error + int \<times> (go_error + (string \<times> string) list))) \<Rightarrow> subscription_db \<Rightarrow> subscription_db" where
  "verification_round env x d = fst (processPendingVerifications env (fst x) (snd x) d)"

lemma verification_round:
  assumes "permutes_rows (fst x)" "subscriptions_ok d" "\<forall>w \<in> set (sdb_rows d). challenged k w"
  shows "subscriptions_ok (verification_round env x d) \<and> (\<forall>w \<in> set (sdb_rows (verification_round env x d)). challenged (Suc k) w)"
proof -
  define subs where "subs = fst x (filter (\<lambda>w. ws_Status w = ''pending_verification'') (sdb_rows d))"
  have run: "verification_round env x d = verify_all env (snd x) 0 d subs"
    using assms(2) by (simp add: verification_round_def processPendingVerifications_def ListPendingVerification_def sub_find_def
        subscriptions_ok_def subs_def)
  have set_subs: "set subs = {w \<in> set (sdb_rows d). ws_Status w = ''pending_verification''}"
    using permutes_rows_set [OF assms(1)] by (auto simp: subs_def)
  have "distinct (map ws_Id (filter P (sdb_rows d)))" for P
    using assms(2) by (simp add: subscriptions_ok_def distinct_map_filter)
  then have "distinct (map ws_Id subs)" unfolding subs_def permutes_rows_ids [OF assms(1)] by blast
  then have all: "sdb_write_error (verify_all env (snd x) 0 d subs) = None \<and> sdb_read_error (verify_all env (snd x) 0 d subs) = sdb_read_error d \<and>
    map ws_Id (sdb_rows (verify_all env (snd x) 0 d subs)) = map ws_Id (sdb_rows d) \<and>
    (\<forall>w \<in> set (sdb_rows (verify_all env (snd x) 0 d subs)). if ws_Id w \<in> ws_Id ` set subs then challenged (Suc k) w else w \<in> set (sdb_rows d))"
    using assms set_subs by (intro verify_all_rows) (auto simp: subscriptions_ok_def challenged_def)
  have "challenged (Suc k) w" if w: "w \<in> set (sdb_rows (verify_all env (snd x) 0 d subs))" for w
  proof (cases "ws_Id w \<in> ws_Id ` set subs")
    case True
    then show ?thesis using all w by auto
  next
    case False
    then have "w \<in> set (sdb_rows d)" using all w by auto
    then show ?thesis using False set_subs by (auto simp: challenged_def)
  qed
  then show ?thesis using all assms(2) by (simp add: run subscriptions_ok_def)
qed

lemma challenged_0: "challenged k w \<Longrightarrow> challenged 0 w"
  by (auto simp: challenged_def)

interpretation verification: progress_rounds "verification_round env" "\<lambda>x. permutes_rows (fst x)"
  "\<lambda>d. subscriptions_ok d \<and> (\<forall>w \<in> set (sdb_rows d). challenged 0 w)" "\<lambda>k d. \<forall>w \<in> set (sdb_rows d). challenged k w" for env
  by unfold_locales (use verification_round challenged_0 in blast)+

text \<open>
  C17. Verification ends: whatever the endpoints answer, after four rounds of the challenge worker no
  subscription is waiting for verification any more. Each has been activated or marked for deletion.
\<close>

theorem verification_ends:
  assumes "subscriptions_ok d" "\<forall>w \<in> set (sdb_rows d). 0 \<le> ws_ChallengesSent w"
    and "list_all (\<lambda>x. permutes_rows (fst x)) rounds" "4 \<le> length rounds"
    and "w \<in> set (sdb_rows (fold (verification_round env) rounds d))"
  shows "ws_Status w \<noteq> ''pending_verification''"
proof -
  have "\<forall>w \<in> set (sdb_rows d). challenged 0 w" using assms(2) by (simp add: challenged_def)
  then have "challenged (length rounds) w" using verification.rounds_level [OF assms(3), of d 0 env] assms(1,5) by auto
  then show ?thesis using assms(4) by (auto simp: challenged_def)
qed

definition demo_challenges :: "nat \<Rightarrow> string \<times> (go_error + int \<times> (go_error + (string \<times> string) list))" where
  "demo_challenges i = (''c'', Inr (500, Inr []))"

theorem verification_ends_witness:
  "(let d = demo_subs [demo_sub\<lparr>ws_Status := ''pending_verification''\<rparr>];
        d' = fold (verification_round demo_whenv) (replicate 4 (\<lambda>rows. rows, demo_challenges)) d
    in map ws_Status (sdb_rows d') = [''pending_delete''] \<and> ''pending_verification'' \<notin> ws_Status ` set (sdb_rows d'))"
proof -
  let ?d = "demo_subs [demo_sub\<lparr>ws_Status := ''pending_verification''\<rparr>]"
  let ?rounds = "replicate 4 (\<lambda>rows :: DBWebhookSubscription list. rows, demo_challenges)"
  have "map ws_Status (sdb_rows (fold (verification_round demo_whenv) ?rounds ?d)) = [''pending_delete'']" by code_simp
  moreover have "subscriptions_ok ?d" "\<forall>w \<in> set (sdb_rows ?d). 0 \<le> ws_ChallengesSent w"
    by (simp_all add: subscriptions_ok_def demo_subs_def demo_sub_def)
  moreover have "list_all (\<lambda>x. permutes_rows (fst x)) ?rounds" "4 \<le> length ?rounds"
    by (simp_all add: permutes_rows_def list_all_iff)
  ultimately show ?thesis using verification_ends [of ?d ?rounds _ demo_whenv] by (auto simp: Let_def)
qed

subsection \<open>Cleaning up\<close>

text \<open>What the operator pinned, as far as cleaning up could change it.\<close>

definition pinned_view :: "subscription_db \<Rightarrow> (string \<times> string \<times> string \<times> string list \<times> string) list" where
  "pinned_view d = map (\<lambda>w. (ws_Id w, ws_Status w, ws_Url w, ws_Events w, ws_Secret w)) (filter ws_OperatorPinned (sdb_rows d))"

lemma pinned_view_map:
  assumes "\<And>w. w \<in> set rows \<Longrightarrow> ws_OperatorPinned (g w) = ws_OperatorPinned w"
    and "\<And>w. w \<in> set rows \<Longrightarrow> ws_OperatorPinned w \<Longrightarrow> h (g w) = h w"
  shows "map h (filter ws_OperatorPinned (map g rows)) = map h (filter ws_OperatorPinned rows)"
  using assms by (induction rows) auto

text \<open>An update by identifier leaves the view alone when the identifier is not that of a pinned row.\<close>

lemma sub_updates_pinned:
  assumes "\<And>w. w \<in> set (sdb_rows d) \<Longrightarrow> ws_Id w = i \<Longrightarrow> \<not> ws_OperatorPinned w" "\<And>w. ws_OperatorPinned (f w) = ws_OperatorPinned w"
  shows "pinned_view (fst (sub_updates oracle d i f)) = pinned_view d"
  unfolding sub_updates_def pinned_view_def
  by (auto split: option.split if_splits intro!: pinned_view_map simp: assms)

lemma sub_updates_view:
  assumes "\<And>w. ws_OperatorPinned (f w) = ws_OperatorPinned w \<and> ws_Id (f w) = ws_Id w \<and> ws_Status (f w) = ws_Status w \<and>
      ws_Url (f w) = ws_Url w \<and> ws_Events (f w) = ws_Events w \<and> ws_Secret (f w) = ws_Secret w"
  shows "pinned_view (fst (sub_updates oracle d i f)) = pinned_view d"
  unfolding sub_updates_def pinned_view_def
  by (auto split: option.split if_splits intro!: pinned_view_map simp: assms)

lemma sub_updates_ids: "(\<And>w. ws_Id (f w) = ws_Id w) \<Longrightarrow> map ws_Id (sdb_rows (fst (sub_updates oracle d i f))) = map ws_Id (sdb_rows d)"
  unfolding sub_updates_def by (auto split: option.split)

text \<open>The identifiers in use by pinned rows do not change either.\<close>

definition pinned_ids :: "subscription_db \<Rightarrow> string set" where
  "pinned_ids d = fst ` set (pinned_view d)"

lemma pinned_ids_iff: "i \<in> pinned_ids d \<longleftrightarrow> (\<exists>w \<in> set (sdb_rows d). ws_Id w = i \<and> ws_OperatorPinned w)"
  by (force simp: pinned_ids_def pinned_view_def)

lemma mark_all_pinned:
  "\<forall>sub \<in> set subs. ws_Id sub \<notin> pinned_ids d \<Longrightarrow>
    pinned_view (fst (mark_all env d subs)) = pinned_view d \<and> map ws_Id (sdb_rows (fst (mark_all env d subs))) = map ws_Id (sdb_rows d)"
proof (induction subs arbitrary: d)
  case (Cons sub subs)
  define d' where "d' = fst (sub_UpdateStatus (we_oracle env) d (ws_Id sub) ''pending_delete'')"
  have "pinned_view d' = pinned_view d" "map ws_Id (sdb_rows d') = map ws_Id (sdb_rows d)"
    unfolding d'_def sub_UpdateStatus_def using Cons.prems
    by (intro sub_updates_pinned sub_updates_ids; auto simp: pinned_ids_iff)+
  then have "pinned_view (fst (mark_all env d' subs)) = pinned_view d \<and> map ws_Id (sdb_rows (fst (mark_all env d' subs))) = map ws_Id (sdb_rows d)"
    using Cons.IH [of d'] Cons.prems by (simp add: pinned_ids_def)
  moreover have "fst (mark_all env d (sub # subs)) = fst (mark_all env (if ws_Status sub = ''active'' then d' else d) subs)"
    by (auto simp: d'_def split: prod.split option.split)
  ultimately show ?case using Cons.IH [of d] Cons.prems by auto
qed simp

lemma sub_Delete_pinned: "i \<notin> pinned_ids d \<Longrightarrow> pinned_view (fst (sub_Delete oracle d i)) = pinned_view d"
proof -
  assume "i \<notin> pinned_ids d"
  then have "filter ws_OperatorPinned (filter (\<lambda>w. ws_Id w \<noteq> i) (sdb_rows d)) = filter ws_OperatorPinned (sdb_rows d)"
    by (auto simp: pinned_ids_iff intro!: filter_cong)
  then show ?thesis by (simp add: sub_Delete_def pinned_view_def split: option.split)
qed

lemma delete_all_pinned:
  "\<forall>sub \<in> set subs. \<not> ws_OperatorPinned sub \<longrightarrow> ws_Id sub \<notin> pinned_ids d \<Longrightarrow> pinned_view (snd (fst (delete_all env addons d subs))) = pinned_view d"
proof (induction subs arbitrary: addons d)
  case (Cons sub subs)
  define d' where "d' = fst (sub_Delete (we_oracle env) d (ws_Id sub))"
  have IH: "pinned_view (snd (fst (delete_all env a d subs))) = pinned_view d" for a using Cons.IH [of d] Cons.prems by simp
  show ?case
  proof (cases "ws_OperatorPinned sub")
    case False
    then have "pinned_view d' = pinned_view d" using Cons.prems sub_Delete_pinned by (simp add: d'_def)
    then have "pinned_view (snd (fst (delete_all env a d' subs))) = pinned_view d" for a
      using Cons.IH [of d' a] Cons.prems by (simp add: pinned_ids_def)
    then show ?thesis using False IH by (auto simp: d'_def split: prod.split option.split sum.split bool.split)
  qed (use IH in simp)
qed simp

lemma fail_stale_pinned:
  "pinned_view (wk_subs (fail_stale env now addons w rs)) = pinned_view (wk_subs w) \<and>
   map ws_Id (sdb_rows (wk_subs (fail_stale env now addons w rs))) = map ws_Id (sdb_rows (wk_subs w))"
proof (induction rs arbitrary: w)
  case (Cons r rs)
  have "pinned_view (wk_subs (count_publication env w i b)) = pinned_view (wk_subs w) \<and>
      map ws_Id (sdb_rows (wk_subs (count_publication env w i b))) = map ws_Id (sdb_rows (wk_subs w))" for w i b
    unfolding count_publication_def UpdatePublicationStats_def by (simp add: sub_updates_view sub_updates_ids)
  then show ?case using Cons.IH by (auto simp: Let_def split: prod.split option.split sum.split)
qed simp



subsection \<open>A due retry is sent twice\<close>

lemma find_map_pred: "(\<And>x. P (g x) = P x) \<Longrightarrow> find P (map g xs) = map_option g (find P xs)"
  by (induction xs) auto

lemma sub_Get_count:
  assumes "sub_Get oracle (wk_subs w) i = Inr s"
  obtains s' where "sub_Get oracle (wk_subs (count_publication env w j b)) i = Inr s'" "ws_Id s' = ws_Id s" "ws_Status s' = ws_Status s"
    "ws_Url s' = ws_Url s" "ws_Secret s' = ws_Secret s"
proof -
  define f where "f v = (if b then v\<lparr>ws_LastSuccessfulUse := Some (sdb_now (wk_subs w)), ws_PublicationFailures := 0\<rparr>
       else v\<lparr>ws_PublicationFailures := ws_PublicationFailures v + 1\<rparr>)" for v :: DBWebhookSubscription
  define g where "g v = (if ws_Id v = j then (f v)\<lparr>ws_ModifiedAt := sdb_now (wk_subs w)\<rparr> else v)" for v :: DBWebhookSubscription
  have same: "ws_Id (g v) = ws_Id v" "ws_Status (g v) = ws_Status v" "ws_Url (g v) = ws_Url v" "ws_Secret (g v) = ws_Secret v" for v
    by (simp_all add: g_def f_def)
  have s: "sdb_read_error (wk_subs w) = None" "find (\<lambda>v. ws_Id v = i) (sdb_rows (wk_subs w)) = Some s"
    using assms by (auto simp: sub_Get_def split: option.splits)
  have "find (\<lambda>v. ws_Id v = i) (map g (sdb_rows (wk_subs w))) = Some (g s)" by (simp add: find_map_pred same s(2))
  moreover have "wk_subs (count_publication env w j b) \<in> {wk_subs w, (wk_subs w)\<lparr>sdb_rows := map g (sdb_rows (wk_subs w))\<rparr>}"
    by (simp add: count_publication_def UpdatePublicationStats_def sub_updates_def g_def [abs_def] f_def [abs_def] split: option.split)
  ultimately have "sub_Get oracle (wk_subs (count_publication env w j b)) i \<in> {Inr s, Inr (g s)}" using s by (auto simp: sub_Get_def)
  then show thesis using that same by auto
qed

lemma deliver_post:
  assumes "sub_Get (we_oracle env) (wk_subs w) (wd_SubscriptionID r) = Inr sub" "ws_Status sub = ''active''"
    and "quiet T (wk_breaker w)" "T \<le> start"
  shows "deliverWebhook env (start, stop, answer) w r =
    (let x = finish_delivery env stop answer w r sub (targetKey (we_parse env) (ws_Url sub)) in (fst x, snd x, [delivery_post env r sub]))"
  using assms by (simp add: deliverWebhook_def quiet_allow Let_def split: prod.split)

text \<open>
  C35. A due retry is in both lists of a round, so the request goes out twice; and when the first one
  succeeds on the last attempt and the second one fails, the delivery that was received ends up failed.
\<close>

theorem due_retry_posted_twice:
  assumes order: "sorts_by_creation order"
    and r: "map_of (dr_keys (wk_deliveries w)) i = Some (r, deadline)" "wd_Status r = DeliveryStatusPending" "wd_NextRetryAt r = Some t"
      "t \<le> now" "wd_Attempts r = 4"
    and w: "deliveries_ok w" "dr_error (wk_deliveries w) = None" "quiet now (wk_breaker w)"
    and sub: "sub_Get (we_oracle env) (wk_subs w) (wd_SubscriptionID r) = Inr sub" "ws_Status sub = ''active''"
    and net: "net 0 = (start, stop, Inr \<lparr>fr_StatusCode = 200, fr_Callback = [], fr_Body = body\<rparr>)" "net 1 = (start', stop', Inl e)"
    and times: "now \<le> start" "start \<le> stop" "stop < deadline" "stop \<le> start'" "start' \<le> stop'" "stop' < stop + 7 * go_Day"
  shows "\<exists>w' r'. processPendingDeliveries env order now (Inr [i]) (Inr [i]) net w = (w', None, [delivery_post env r sub, delivery_post env r sub]) \<and>
     delivery_Get stop' (wk_deliveries w') i = Inr r' \<and> wd_Status r' = DeliveryStatusFailed"
proof -
  have id: "wd_ID r = i" using w(1) r(1) by (auto simp: store_ok_def)
  have get: "delivery_Get x (wk_deliveries w) i = Inr r" if "x < deadline" for x using that r(1) w(2) by (simp add: delivery_Get_Inr)
  have "order [r] = [r]" using order unfolding sorts_by_creation_def by (metis mset_single_iff_right mset.simps)
  then have batch: "processPendingDeliveries env order now (Inr [i]) (Inr [i]) net w =
      (let (w', posts) = deliver_batch env net 0 w [r, r] in (w', None, posts))"
    using get [of now] times r by (simp add: processPendingDeliveries_def ListPending_def ListReadyForRetry_def scanAllRecords_def
        List.map_filter_def Let_def)
  define target where "target = targetKey (we_parse env) (ws_Url sub)"
  define w1 where "w1 = (set_status stop (w\<lparr>wk_breaker := recordSuccess (wk_breaker w) target\<rparr>) i DeliveryStatusDelivered (Some stop))"
  define w2 where "w2 = count_publication env w1 (ws_Id sub) True"
  have first: "deliverWebhook env (net 0) w r = (w2, None, [delivery_post env r sub])"
    using deliver_post [OF sub w(3) times(1)] by (simp add: net finish_delivery_def target_def w1_def w2_def id)
  have "sub_Get (we_oracle env) (wk_subs w1) (wd_SubscriptionID r) = Inr sub" using sub(1) by (simp add: w1_def set_status_def)
  then obtain sub' where sub': "sub_Get (we_oracle env) (wk_subs w2) (wd_SubscriptionID r) = Inr sub'" "ws_Id sub' = ws_Id sub"
      "ws_Status sub' = ws_Status sub" "ws_Url sub' = ws_Url sub" "ws_Secret sub' = ws_Secret sub"
    unfolding w2_def by (rule sub_Get_count)
  have post: "delivery_post env r sub' = delivery_post env r sub" using sub' by (simp add: delivery_post_def Let_def)
  have q: "quiet now (wk_breaker w2)" using quiet_success [OF w(3)] by (simp add: w2_def w1_def count_publication_def set_status_def)
  have ok: "deliveries_ok w2" "dr_error (wk_deliveries w2) = None" using w
    by (simp_all add: w2_def w1_def set_status_ok, simp_all add: set_status_def)
  define w3 where "w3 = fst (handleDeliveryFailure env stop' (w2\<lparr>wk_breaker := recordFailure stop' (wk_breaker w2) target\<rparr>) r (''request failed: '' @ err_Error e))"
  have net1: "net (Suc 0) = (start', stop', Inl e)" using net(2) by simp
  have second: "fst (deliverWebhook env (net (Suc 0)) w2 r) = w3" "snd (snd (deliverWebhook env (net (Suc 0)) w2 r)) = [delivery_post env r sub]"
    using deliver_post [OF sub'(1) _ q, of start' stop' "Inl e"] sub' times sub(2)
    by (simp_all add: net1 finish_delivery_def target_def w3_def post Let_def)
  obtain r1 where r1: "map_of (dr_keys (wk_deliveries w2)) i = Some (r1, stop + 7 * go_Day)"
    using get [OF times(3)] w(2) id
    by (simp add: w2_def w1_def set_status_def delivery_UpdateStatus_fst delivery_Update_set redis_Set_def update_conv' ttlForStatus_def)
  have "delivery_Get stop' (wk_deliveries w2) i = Inr r1" using r1 times ok by (simp add: delivery_Get_Inr)
  then obtain r' where r': "delivery_Get stop' (wk_deliveries w3) i = Inr r'"
    using ok id store_ok_Get [OF ok(1)]
    by (auto simp: w3_def handleDeliveryFailure_def r(5) set_status_def delivery_UpdateStatus_fst delivery_Update_set redis_Set_def
        delivery_Get_Inr update_conv' ttlForStatus_def go_Day_def go_Minute_def)
  moreover have "wd_Status r' = DeliveryStatusFailed"
    using r' ok id Get_UpdateStatus [of stop' stop' "wk_deliveries w2" i DeliveryStatusFailed "Some stop'" r']
    by (simp add: w3_def handleDeliveryFailure_def r(5) set_status_def)
  moreover have "deliver_batch env net 0 w [r, r] = (w3, [delivery_post env r sub, delivery_post env r sub])"
    using first second by (cases "deliverWebhook env (net (Suc 0)) w2 r") auto
  ultimately show ?thesis by (simp add: batch)
qed

theorem due_retry_posted_twice_witness:
  "(let r = demo_delivery\<lparr>wd_Attempts := 4, wd_NextRetryAt := Some 0\<rparr>; w = demo_webhooks [(''d'', r, 100)];
        net = (\<lambda>k :: nat. (10, 10, if k = 0 then Inr \<lparr>fr_StatusCode = 200, fr_Callback = [], fr_Body = []\<rparr> else Inl (errors_New ''reset'')));
        run = processPendingDeliveries demo_whenv (sort_key wd_CreatedAt) 5 (Inr [''d'']) (Inr [''d'']) net w
    in snd (snd run) = [delivery_post demo_whenv r demo_sub, delivery_post demo_whenv r demo_sub] \<and>
       map_option wd_Status (live_record 10 (wk_deliveries (fst run)) ''d'') = Some ''failed'')"
proof -
  let ?r = "demo_delivery\<lparr>wd_Attempts := 4, wd_NextRetryAt := Some 0\<rparr>"
  let ?w = "demo_webhooks [(''d'', ?r, 100)]"
  let ?net = "\<lambda>k :: nat. (10, 10, if k = 0 then Inr \<lparr>fr_StatusCode = 200, fr_Callback = [], fr_Body = []\<rparr> else Inl (errors_New ''reset''))"
  have "sorts_by_creation (sort_key wd_CreatedAt)" by (simp add: sorts_by_creation_def)
  moreover have "map_of (dr_keys (wk_deliveries ?w)) ''d'' = Some (?r, 100)" "deliveries_ok ?w" "dr_error (wk_deliveries ?w) = None"
    by (simp_all add: demo_webhook_defs store_ok_def record_ok_def delivery_statuses)
  moreover have "quiet 5 (wk_breaker ?w)" by (simp add: quiet_def demo_webhooks_def newWebhookCircuitBreaker_def go_Minute_def)
  moreover have "sub_Get (we_oracle demo_whenv) (wk_subs ?w) (wd_SubscriptionID ?r) = Inr demo_sub" "ws_Status demo_sub = ''active''"
    "wd_Status ?r = DeliveryStatusPending" "wd_NextRetryAt ?r = Some 0" "wd_Attempts ?r = 4"
    by (simp_all add: demo_webhook_defs sub_Get_def)
  ultimately obtain w' r' where run: "processPendingDeliveries demo_whenv (sort_key wd_CreatedAt) 5 (Inr [''d'']) (Inr [''d'']) ?net ?w =
      (w', None, [delivery_post demo_whenv ?r demo_sub, delivery_post demo_whenv ?r demo_sub])"
      "delivery_Get 10 (wk_deliveries w') ''d'' = Inr r'" "wd_Status r' = DeliveryStatusFailed"
    using due_retry_posted_twice [of "sort_key wd_CreatedAt" ?w "''d''" ?r 100 0 5 demo_whenv demo_sub ?net 10 10 "[]" 10 10 "errors_New ''reset''"]
    by (auto simp: go_Day_def go_Minute_def)
  then show ?thesis by (auto simp: Let_def delivery_Get_def DeliveryStatusFailed_def split: option.splits)
qed

end
