(* ===== verification/Audit_Keyset.thy ===== *)
theory Audit_Keyset
  imports Db_Errors "HOL-Library.Char_ord" "HOL-Library.List_Lexorder" "HOL-Library.Product_Lexorder"
begin

text \<open>
  Keyset pagination of the audit lists: \<open>api/audit_keyset.go\<close>, \<open>api/audit_cursor.go\<close> and the export loop
  of \<open>api/system_audit_repository.go\<close>. The code is generic in the row; a row is known by its key, the time
  of its creation and its identifier, and keys are compared as the \<open>WHERE\<close> clauses do, times first and
  identifiers byte by byte. \<open>newQuery i\<close> is what the \<open>i\<close>-th fresh filtered query of a request finds.
  Base64 and JSON come in as a \<open>cursor_codec\<close>.
\<close>

type_synonym audit_key = "time \<times> string"

definition dirForward :: string where "dirForward = ''f''"
definition dirBackward :: string where "dirBackward = ''b''"

record auditCursor =
  cur_CreatedAt :: time
  cur_ID :: string
  cur_Dir :: string

record cursor_codec =
  cc_Marshal :: "auditCursor \<Rightarrow> string"
  cc_Unmarshal :: "string \<Rightarrow> go_error + auditCursor"
  cc_EncodeToString :: "string \<Rightarrow> string"
  cc_DecodeString :: "string \<Rightarrow> go_error + string"

definition encodeAuditCursor :: "cursor_codec \<Rightarrow> time \<Rightarrow> string \<Rightarrow> string \<Rightarrow> string" where
  "encodeAuditCursor cc createdAt i dir =
    cc_EncodeToString cc (cc_Marshal cc \<lparr>cur_CreatedAt = createdAt, cur_ID = i, cur_Dir = (if dir = [] then dirForward else dir)\<rparr>)"

definition decodeAuditCursor :: "cursor_codec \<Rightarrow> string \<Rightarrow> go_error + auditCursor" where
  "decodeAuditCursor cc s =
    (if s = [] then Inl (errors_New ''empty cursor'')
     else case cc_DecodeString cc s of
       Inl e \<Rightarrow> Inl (errorf_wrap ''invalid cursor encoding: '' e)
     | Inr raw \<Rightarrow>
       (case cc_Unmarshal cc raw of
          Inl e \<Rightarrow> Inl (errorf_wrap ''invalid cursor payload: '' e)
        | Inr c \<Rightarrow>
          if cur_CreatedAt c = time_Zero \<or> cur_ID c = [] then Inl (errors_New ''incomplete cursor'')
          else if cur_Dir c = [] \<or> cur_Dir c = dirForward then Inr (c\<lparr>cur_Dir := dirForward\<rparr>)
          else if cur_Dir c = dirBackward then Inr c
          else Inl (errors_New ''invalid cursor direction'')))"

subsection \<open>Pages\<close>

text \<open>\<open>Limit\<close> of GORM: a negative one is no limit.\<close>

definition sql_Limit :: "int \<Rightarrow> 'a list \<Rightarrow> 'a list" where
  "sql_Limit n rows = (if n < 0 then rows else take (nat n) rows)"

text \<open>The rows beyond a key in a direction, and the order of the direction: older first going back in time.\<close>

definition beyond :: "('a \<Rightarrow> audit_key) \<Rightarrow> string \<Rightarrow> audit_key \<Rightarrow> 'a list \<Rightarrow> 'a list" where
  "beyond keyOf dir k rows = filter (\<lambda>r. if dir = dirBackward then k < keyOf r else keyOf r < k) rows"

definition newest_first :: "('a \<Rightarrow> audit_key) \<Rightarrow> 'a list \<Rightarrow> 'a list" where
  "newest_first keyOf rows = rev (sort_key keyOf rows)"

definition keysetCursorIfExists ::
  "cursor_codec \<Rightarrow> ('a \<Rightarrow> audit_key) \<Rightarrow> go_error + 'a list \<Rightarrow> audit_key \<Rightarrow> string \<Rightarrow> go_error + string option" where
  "keysetCursorIfExists cc keyOf q k dir =
    (case q of
       Inl e \<Rightarrow> Inl e
     | Inr rows \<Rightarrow>
       Inr (if sql_Limit 1 (beyond keyOf dir k rows) = [] then None else Some (encodeAuditCursor cc (fst k) (snd k) dir)))"

type_synonym 'a audit_page = "'a list \<times> string option \<times> string option"

text \<open>The two probes that finish a page.\<close>

definition with_cursors ::
  "cursor_codec \<Rightarrow> ('a \<Rightarrow> audit_key) \<Rightarrow> (nat \<Rightarrow> go_error + 'a list) \<Rightarrow> 'a list \<Rightarrow> go_error + 'a audit_page" where
  "with_cursors cc keyOf newQuery rows =
    (case keysetCursorIfExists cc keyOf (newQuery 0) (keyOf (hd rows)) dirBackward of
       Inl e \<Rightarrow> Inl e
     | Inr prev \<Rightarrow>
       (case keysetCursorIfExists cc keyOf (newQuery 1) (keyOf (last rows)) dirForward of
          Inl e \<Rightarrow> Inl e
        | Inr next \<Rightarrow> Inr (rows, prev, next)))"

definition fetchKeysetPage ::
  "cursor_codec \<Rightarrow> (nat \<Rightarrow> go_error + 'a list) \<Rightarrow> auditCursor option \<Rightarrow> int \<Rightarrow> ('a \<Rightarrow> audit_key) \<Rightarrow> go_error + 'a audit_page" where
  "fetchKeysetPage cc newQuery cursor limit keyOf =
    (let backward = (case cursor of Some c \<Rightarrow> cur_Dir c = dirBackward | None \<Rightarrow> False) in
     case newQuery 0 of
       Inl e \<Rightarrow> Inl e
     | Inr q \<Rightarrow>
       (let rows = (case cursor of
              Some c \<Rightarrow>
                (if backward then rev (sql_Limit limit (sort_key keyOf (beyond keyOf dirBackward (cur_CreatedAt c, cur_ID c) q)))
                 else sql_Limit limit (newest_first keyOf (beyond keyOf dirForward (cur_CreatedAt c, cur_ID c) q)))
            | None \<Rightarrow> sql_Limit limit (newest_first keyOf q))
        in if rows = [] then Inr ([], None, None)
           else with_cursors cc keyOf (\<lambda>i. newQuery (Suc i)) rows))"

definition fetchSide :: "('a \<Rightarrow> audit_key) \<Rightarrow> go_error + 'a list \<Rightarrow> audit_key \<Rightarrow> string \<Rightarrow> int \<Rightarrow> go_error + 'a list" where
  "fetchSide keyOf q k dir n =
    (if n \<le> 0 then Inr []
     else case q of
       Inl e \<Rightarrow> Inl e
     | Inr rows \<Rightarrow>
       Inr (sql_Limit n (if dir = dirBackward then sort_key keyOf (beyond keyOf dirBackward k rows)
         else newest_first keyOf (beyond keyOf dirForward k rows))))"

definition errAuditAnchorNotFound :: go_error where
  "errAuditAnchorNotFound = errors_New ''audit anchor entry not found''"

definition fetchAroundPage ::
  "cursor_codec \<Rightarrow> (nat \<Rightarrow> go_error + 'a list) \<Rightarrow> go_error + 'a option \<Rightarrow> int \<Rightarrow> ('a \<Rightarrow> audit_key) \<Rightarrow> go_error + 'a audit_page" where
  "fetchAroundPage cc newQuery fetchAnchor limit keyOf =
    (case fetchAnchor of
       Inl e \<Rightarrow> Inl e
     | Inr None \<Rightarrow> Inl errAuditAnchorNotFound
     | Inr (Some anchor) \<Rightarrow>
       (let newerWant = (limit - 1) div 2 in
        case fetchSide keyOf (newQuery 0) (keyOf anchor) dirBackward newerWant of
          Inl e \<Rightarrow> Inl e
        | Inr newer \<Rightarrow>
          (let olderWant = limit - 1 - int (length newer) in
           case fetchSide keyOf (newQuery 1) (keyOf anchor) dirForward olderWant of
             Inl e \<Rightarrow> Inl e
           | Inr older \<Rightarrow>
             (let newerWant2 = limit - 1 - int (length older) in
              case (if int (length newer) + int (length older) + 1 < limit \<and> newerWant2 > int (length newer)
                    then fetchSide keyOf (newQuery 2) (keyOf anchor) dirBackward newerWant2 else Inr newer) of
                Inl e \<Rightarrow> Inl e
              | Inr newer' \<Rightarrow> with_cursors cc keyOf (\<lambda>i. newQuery (i + 3)) (rev newer' @ [anchor] @ older)))))"

subsection \<open>Export\<close>

text \<open>
  \<open>StreamFiltered\<close> over a table that stays as it is: the batches handed to \<open>fn\<close> and the error it ends
  with. \<open>qerr i\<close> and \<open>fn i\<close> are the errors of the \<open>i\<close>-th query and the \<open>i\<close>-th callback.
\<close>

definition after_cursor :: "('a \<Rightarrow> audit_key) \<Rightarrow> audit_key option \<Rightarrow> 'a list \<Rightarrow> 'a list" where
  "after_cursor keyOf cursor rows = (case cursor of None \<Rightarrow> rows | Some k \<Rightarrow> beyond keyOf dirForward k rows)"

lemma shrinks:
  assumes "sql_Limit n (newest_first keyOf (after_cursor keyOf cursor rows)) = b" "b \<noteq> []"
  shows "length (after_cursor keyOf (Some (keyOf (last b))) rows) < length (after_cursor keyOf cursor rows)"
proof -
  let ?rs = "after_cursor keyOf cursor rows"
  have "set b \<subseteq> set ?rs"
    using assms(1) by (auto simp: sql_Limit_def newest_first_def dest: in_set_takeD split: if_splits)
  then have l: "last b \<in> set ?rs" using last_in_set [OF assms(2)] by blast
  have k: "keyOf (last b) < c" if "cursor = Some c" for c
    using l that by (auto simp: after_cursor_def beyond_def dirForward_def dirBackward_def)
  have "after_cursor keyOf (Some (keyOf (last b))) rows = filter (\<lambda>r. keyOf r < keyOf (last b)) ?rs"
    using k by (auto simp: after_cursor_def beyond_def dirForward_def dirBackward_def split: option.split intro!: filter_cong)
  moreover have "length (filter (\<lambda>r. keyOf r < keyOf (last b)) ?rs) < length ?rs"
    using l by (intro length_filter_less [of "last b"]) auto
  ultimately show ?thesis by simp
qed

function stream_from ::
  "('a \<Rightarrow> audit_key) \<Rightarrow> 'a list \<Rightarrow> int \<Rightarrow> (nat \<Rightarrow> go_error option) \<Rightarrow> (nat \<Rightarrow> 'a list \<Rightarrow> go_error option) \<Rightarrow> nat \<Rightarrow> audit_key option \<Rightarrow> 'a list list \<times> go_error option" where
  "stream_from keyOf table batch qerr fn i cursor =
    (case qerr i of
       Some e \<Rightarrow> ([], Some (errorf_wrap ''stream system audit entries: '' e))
     | None \<Rightarrow>
       (let rows = sql_Limit batch (newest_first keyOf (after_cursor keyOf cursor table)) in
        if rows = [] then ([], None)
        else case fn i rows of
          Some e \<Rightarrow> ([rows], Some e)
        | None \<Rightarrow>
          if int (length rows) < batch then ([rows], None)
          else (let rest = stream_from keyOf table batch qerr fn (Suc i) (Some (keyOf (last rows))) in (rows # fst rest, snd rest))))"
  by pat_completeness auto
termination
  by (relation "measure (\<lambda>(keyOf, table, batch, qerr, fn, i, cursor). length (after_cursor keyOf cursor table))")
    (auto intro: shrinks)

declare stream_from.simps [simp del]

definition StreamFiltered ::
  "('a \<Rightarrow> audit_key) \<Rightarrow> 'a list \<Rightarrow> int \<Rightarrow> (nat \<Rightarrow> go_error option) \<Rightarrow> (nat \<Rightarrow> 'a list \<Rightarrow> go_error option) \<Rightarrow> 'a list list \<times> go_error option" where
  "StreamFiltered keyOf table batch qerr fn = stream_from keyOf table (if batch \<le> 0 then 1000 else batch) qerr fn 0 None"


subsection \<open>Segments of the list\<close>

text \<open>
  With distinct keys the list has one order, and a page is a segment of it. \<open>descending\<close> is what the
  display order has; everything below is about positions in it.
\<close>

definition descending :: "('a \<Rightarrow> audit_key) \<Rightarrow> 'a list \<Rightarrow> bool" where
  "descending keyOf xs \<longleftrightarrow> sorted_wrt (\<lambda>a b. keyOf b < keyOf a) xs"

lemma descending_newest_first: "distinct (map keyOf rows) \<Longrightarrow> descending keyOf (newest_first keyOf rows)"
proof -
  assume "distinct (map keyOf rows)"
  then have "distinct (map keyOf (sort_key keyOf rows))"
    by (metis distinct_map distinct_sort set_sort)
  then have "sorted_wrt (\<lambda>a b. keyOf a < keyOf b) (sort_key keyOf rows)"
    using strict_sorted_iff [of "map keyOf (sort_key keyOf rows)"] sorted_sort_key [of keyOf rows]
    by (simp add: sorted_wrt_map)
  then show ?thesis by (simp add: descending_def newest_first_def sorted_wrt_rev)
qed

lemma set_newest_first [simp]: "set (newest_first keyOf rows) = set rows"
  by (simp add: newest_first_def)

lemma length_newest_first [simp]: "length (newest_first keyOf rows) = length rows"
  by (simp add: newest_first_def)

lemma newest_first_Nil [simp]: "newest_first keyOf rows = [] \<longleftrightarrow> rows = []"
  by (metis length_0_conv length_newest_first)

lemma newest_first_beyond:
  "newest_first keyOf (beyond keyOf dir k rows) = beyond keyOf dir k (newest_first keyOf rows)"
  by (simp add: newest_first_def beyond_def filter_sort [symmetric] rev_filter)

lemma beyond_Nil_iff: "beyond keyOf dir k rows = [] \<longleftrightarrow> beyond keyOf dir k (newest_first keyOf rows) = []"
  by (simp add: beyond_def filter_empty_conv)

lemma descending_split:
  assumes "descending keyOf (xs @ x # ys)"
  shows "beyond keyOf dirForward (keyOf x) (xs @ x # ys) = ys"
    and "beyond keyOf dirBackward (keyOf x) (xs @ x # ys) = xs"
proof -
  have lt: "keyOf x < keyOf a" if "a \<in> set xs" for a
    using assms that by (auto simp: descending_def sorted_wrt_append)
  have gt: "keyOf b < keyOf x" if "b \<in> set ys" for b
    using assms that by (auto simp: descending_def sorted_wrt_append)
  have "filter (\<lambda>r. keyOf r < keyOf x) xs = []" "filter (\<lambda>r. keyOf r < keyOf x) ys = ys"
    "filter (\<lambda>r. keyOf x < keyOf r) xs = xs" "filter (\<lambda>r. keyOf x < keyOf r) ys = []"
    using lt gt by (auto simp: filter_empty_conv filter_id_conv dest: order.asym)
  then show "beyond keyOf dirForward (keyOf x) (xs @ x # ys) = ys" "beyond keyOf dirBackward (keyOf x) (xs @ x # ys) = xs"
    by (simp_all add: beyond_def dirForward_def dirBackward_def)
qed

lemma beyond_nth:
  assumes "descending keyOf L" "i < length L"
  shows "beyond keyOf dirForward (keyOf (L ! i)) L = drop (Suc i) L"
    and "beyond keyOf dirBackward (keyOf (L ! i)) L = take i L"
  using descending_split [of keyOf "take i L" "L ! i" "drop (Suc i) L"] assms
  by (simp_all add: id_take_nth_drop [symmetric])

lemma sort_beyond: "sort_key keyOf (beyond keyOf dir k rows) = rev (beyond keyOf dir k (newest_first keyOf rows))"
  by (metis newest_first_beyond newest_first_def rev_rev_ident)

lemma sql_Limit_1: "sql_Limit 1 xs = [] \<longleftrightarrow> xs = []"
  by (simp add: sql_Limit_def)

lemma sql_Limit_int [simp]: "sql_Limit (int n) xs = take n xs"
  by (simp add: sql_Limit_def)

lemma keysetCursorIfExists_nth:
  assumes "distinct (map keyOf rows)" "i < length rows"
  shows "keysetCursorIfExists cc keyOf (Inr rows) (keyOf (newest_first keyOf rows ! i)) dirForward =
      Inr (if Suc i = length rows then None
        else Some (encodeAuditCursor cc (fst (keyOf (newest_first keyOf rows ! i))) (snd (keyOf (newest_first keyOf rows ! i))) dirForward))"
    and "keysetCursorIfExists cc keyOf (Inr rows) (keyOf (newest_first keyOf rows ! i)) dirBackward =
      Inr (if i = 0 then None
        else Some (encodeAuditCursor cc (fst (keyOf (newest_first keyOf rows ! i))) (snd (keyOf (newest_first keyOf rows ! i))) dirBackward))"
  using assms beyond_nth [OF descending_newest_first, of keyOf rows i]
    beyond_Nil_iff [of keyOf dirForward "keyOf (newest_first keyOf rows ! i)" rows]
    beyond_Nil_iff [of keyOf dirBackward "keyOf (newest_first keyOf rows ! i)" rows]
  by (auto simp: keysetCursorIfExists_def sql_Limit_1)

text \<open>The page of \<open>n\<close> rows from position \<open>i\<close> on, with its cursors.\<close>

definition cursor_at :: "cursor_codec \<Rightarrow> ('a \<Rightarrow> audit_key) \<Rightarrow> 'a \<Rightarrow> string \<Rightarrow> string" where
  "cursor_at cc keyOf r dir = encodeAuditCursor cc (fst (keyOf r)) (snd (keyOf r)) dir"

definition segment_page :: "cursor_codec \<Rightarrow> ('a \<Rightarrow> audit_key) \<Rightarrow> 'a list \<Rightarrow> nat \<Rightarrow> nat \<Rightarrow> 'a audit_page" where
  "segment_page cc keyOf L i n =
    (take n (drop i L), if i = 0 then None else Some (cursor_at cc keyOf (L ! i) dirBackward),
     if length L \<le> i + n then None else Some (cursor_at cc keyOf (L ! (i + n - 1)) dirForward))"

lemma with_cursors_segment:
  assumes "distinct (map keyOf rows)" "i < length rows" "0 < n"
  shows "with_cursors cc keyOf (\<lambda>_. Inr rows) (take n (drop i (newest_first keyOf rows))) =
    Inr (segment_page cc keyOf (newest_first keyOf rows) i n)"
proof -
  let ?L = "newest_first keyOf rows"
  define j where "j = min (i + n) (length rows) - 1"
  have j: "j < length rows" "Suc j = length rows \<longleftrightarrow> length ?L \<le> i + n" "j = i + n - 1 \<or> length ?L \<le> i + n"
    using assms by (auto simp: j_def)
  have ne: "take n (drop i ?L) \<noteq> []" using assms by simp
  have h: "hd (take n (drop i ?L)) = ?L ! i" using assms by (simp add: hd_drop_conv_nth)
  have e: "i + (min n (length rows - i) - Suc 0) = j" using assms by (auto simp: j_def min_def)
  have l: "last (take n (drop i ?L)) = ?L ! j"
    using assms ne e by (simp add: last_conv_nth min.commute)
  show ?thesis
    using keysetCursorIfExists_nth [OF assms(1,2), of cc] keysetCursorIfExists_nth [OF assms(1) j(1), of cc] j
    by (auto simp: with_cursors_def h l segment_page_def cursor_at_def)
qed

lemma first_page:
  assumes "distinct (map keyOf rows)" "rows \<noteq> []" "0 < n"
  shows "fetchKeysetPage cc (\<lambda>_. Inr rows) None (int n) keyOf = Inr (segment_page cc keyOf (newest_first keyOf rows) 0 n)"
  using with_cursors_segment [of keyOf rows 0 n cc] assms by (simp add: fetchKeysetPage_def)

lemma next_page:
  assumes "distinct (map keyOf rows)" "Suc i < length rows" "0 < n"
    and "c = \<lparr>cur_CreatedAt = fst (keyOf (newest_first keyOf rows ! i)), cur_ID = snd (keyOf (newest_first keyOf rows ! i)), cur_Dir = dirForward\<rparr>"
  shows "fetchKeysetPage cc (\<lambda>_. Inr rows) (Some c) (int n) keyOf = Inr (segment_page cc keyOf (newest_first keyOf rows) (Suc i) n)"
  using with_cursors_segment [OF assms(1-3), of cc] beyond_nth [OF descending_newest_first [OF assms(1)], of i] assms(2-4)
  by (simp add: fetchKeysetPage_def newest_first_beyond dirForward_def dirBackward_def Suc_le_eq)

lemma prev_page:
  assumes "distinct (map keyOf rows)" "0 < i" "i < length rows" "0 < n"
    and "c = \<lparr>cur_CreatedAt = fst (keyOf (newest_first keyOf rows ! i)), cur_ID = snd (keyOf (newest_first keyOf rows ! i)), cur_Dir = dirBackward\<rparr>"
  shows "fetchKeysetPage cc (\<lambda>_. Inr rows) (Some c) (int n) keyOf =
    Inr (segment_page cc keyOf (newest_first keyOf rows) (i - min n i) (min n i))"
proof -
  let ?L = "newest_first keyOf rows"
  have seg: "rev (take n (rev (take i ?L))) = take (min n i) (drop (i - min n i) ?L)"
    using assms(3) by (simp add: take_rev take_drop min_def)
  have b: "sort_key keyOf (beyond keyOf dirBackward (keyOf (?L ! i)) rows) = rev (take i ?L)"
    using beyond_nth(2) [OF descending_newest_first [OF assms(1)], of i] assms(3) by (simp add: sort_beyond)
  have w: "with_cursors cc keyOf (\<lambda>_. Inr rows) (take (min n i) (drop (i - min n i) ?L)) = Inr (segment_page cc keyOf ?L (i - min n i) (min n i))"
    using with_cursors_segment [OF assms(1), of "i - min n i" "min n i" cc] assms(2-4) by simp
  have ne: "take (min n i) (drop (i - min n i) ?L) \<noteq> []" using assms(2-4) by simp
  show ?thesis
    using w ne by (simp add: fetchKeysetPage_def assms(5) b seg del: take_eq_Nil drop_eq_Nil)
qed

subsection \<open>Walking the list\<close>

text \<open>What the codec promises: what it encodes is not empty and decodes to what went in.\<close>

definition codec_ok :: "cursor_codec \<Rightarrow> bool" where
  "codec_ok cc \<longleftrightarrow> (\<forall>c. cc_Unmarshal cc (cc_Marshal cc c) = Inr c \<and> cc_EncodeToString cc (cc_Marshal cc c) \<noteq> []) \<and>
    (\<forall>s. cc_DecodeString cc (cc_EncodeToString cc s) = Inr s)"

definition real_key :: "audit_key \<Rightarrow> bool" where
  "real_key k \<longleftrightarrow> fst k \<noteq> time_Zero \<and> snd k \<noteq> []"

lemma decode_encode:
  "codec_ok cc \<Longrightarrow> real_key (t, i) \<Longrightarrow> dir \<in> {dirForward, dirBackward} \<Longrightarrow>
    decodeAuditCursor cc (encodeAuditCursor cc t i dir) = Inr \<lparr>cur_CreatedAt = t, cur_ID = i, cur_Dir = dir\<rparr>"
  by (auto simp: codec_ok_def real_key_def decodeAuditCursor_def encodeAuditCursor_def dirForward_def dirBackward_def)

lemma decode_cursor_at:
  "codec_ok cc \<Longrightarrow> real_key (keyOf r) \<Longrightarrow> dir \<in> {dirForward, dirBackward} \<Longrightarrow>
    decodeAuditCursor cc (cursor_at cc keyOf r dir) = Inr \<lparr>cur_CreatedAt = fst (keyOf r), cur_ID = snd (keyOf r), cur_Dir = dir\<rparr>"
  unfolding cursor_at_def by (rule decode_encode) simp_all

text \<open>A client that asks for a page and follows the cursors for older rows, at most \<open>fuel\<close> times.\<close>

definition request_page ::
  "cursor_codec \<Rightarrow> ('a \<Rightarrow> audit_key) \<Rightarrow> 'a list \<Rightarrow> nat \<Rightarrow> string option \<Rightarrow> go_error + 'a audit_page" where
  "request_page cc keyOf rows n token =
    (case token of
       None \<Rightarrow> fetchKeysetPage cc (\<lambda>_. Inr rows) None (int n) keyOf
     | Some s \<Rightarrow>
       (case decodeAuditCursor cc s of
          Inl e \<Rightarrow> Inl e
        | Inr c \<Rightarrow> fetchKeysetPage cc (\<lambda>_. Inr rows) (Some c) (int n) keyOf))"

fun walk :: "nat \<Rightarrow> cursor_codec \<Rightarrow> ('a \<Rightarrow> audit_key) \<Rightarrow> 'a list \<Rightarrow> nat \<Rightarrow> string option \<Rightarrow> 'a list list" where
  "walk 0 cc keyOf rows n token = []"
| "walk (Suc fuel) cc keyOf rows n token =
    (case request_page cc keyOf rows n token of
       Inl e \<Rightarrow> []
     | Inr (page, prev, next) \<Rightarrow> page # (case next of None \<Rightarrow> [] | Some s \<Rightarrow> walk fuel cc keyOf rows n (Some s)))"

lemma request_segment:
  assumes "codec_ok cc" "distinct (map keyOf rows)" "\<forall>r \<in> set rows. real_key (keyOf r)" "i < length rows" "0 < n"
    and "token = (if i = 0 then None else Some (cursor_at cc keyOf (newest_first keyOf rows ! (i - 1)) dirForward))"
  shows "request_page cc keyOf rows n token = Inr (segment_page cc keyOf (newest_first keyOf rows) i n)"
proof (cases i)
  case 0
  then show ?thesis using first_page [of keyOf rows n cc] assms by (auto simp: request_page_def)
next
  case (Suc j)
  then have "newest_first keyOf rows ! j \<in> set rows"
    using assms(4) nth_mem [of j "newest_first keyOf rows"] by simp
  then show ?thesis
    using next_page [OF assms(2), of j n _ cc] decode_cursor_at [OF assms(1), of keyOf "newest_first keyOf rows ! j" dirForward] Suc assms
    by (simp add: request_page_def)
qed

lemma walk_from:
  assumes "codec_ok cc" "distinct (map keyOf rows)" "\<forall>r \<in> set rows. real_key (keyOf r)" "0 < n"
    and "i < length rows" "length rows \<le> i + fuel"
    and "token = (if i = 0 then None else Some (cursor_at cc keyOf (newest_first keyOf rows ! (i - 1)) dirForward))"
  shows "concat (walk fuel cc keyOf rows n token) = drop i (newest_first keyOf rows)"
  using assms(5-7)
proof (induction fuel arbitrary: i token)
  case 0
  then show ?case by simp
next
  case (Suc fuel)
  have page: "request_page cc keyOf rows n token = Inr (segment_page cc keyOf (newest_first keyOf rows) i n)"
    by (rule request_segment) (use assms(1-4) Suc.prems in auto)
  show ?case
  proof (cases "length rows \<le> i + n")
    case True
    then show ?thesis by (simp add: page segment_page_def)
  next
    case False
    have "concat (walk fuel cc keyOf rows n (Some (cursor_at cc keyOf (newest_first keyOf rows ! (i + n - 1)) dirForward))) =
        drop (i + n) (newest_first keyOf rows)"
      using Suc.IH [of "i + n"] Suc.prems False assms(4) by simp
    then show ?thesis using False
      by (simp add: page segment_page_def add.commute [of i n] flip: drop_drop)
  qed
qed

lemma walk_all:
  assumes "codec_ok cc" "distinct (map keyOf rows)" "\<forall>r \<in> set rows. real_key (keyOf r)" "0 < n" "length rows \<le> fuel" "0 < fuel"
  shows "concat (walk fuel cc keyOf rows n None) = newest_first keyOf rows"
proof (cases "rows = []")
  case True
  then obtain f where "fuel = Suc f" using assms(6) by (cases fuel) auto
  then show ?thesis using True by (simp add: request_page_def fetchKeysetPage_def newest_first_def sql_Limit_def)
next
  case False
  then show ?thesis using walk_from [OF assms(1-4), of 0 fuel None] assms(5) by simp
qed

text \<open>Every page but the last is full, and going back from the next page shows the same rows again.\<close>

lemma back_again:
  assumes "codec_ok cc" "distinct (map keyOf rows)" "\<forall>r \<in> set rows. real_key (keyOf r)" "0 < n" "i + n < length rows"
  shows "\<exists>prev next. request_page cc keyOf rows n (Some (cursor_at cc keyOf (newest_first keyOf rows ! (i + n)) dirBackward)) =
    Inr (take n (drop i (newest_first keyOf rows)), prev, next)"
proof -
  have "newest_first keyOf rows ! (i + n) \<in> set rows"
    using assms(5) nth_mem [of "i + n" "newest_first keyOf rows"] by simp
  then show ?thesis
    using prev_page [OF assms(2), of "i + n" n _ cc] assms
      decode_cursor_at [OF assms(1), of keyOf "newest_first keyOf rows ! (i + n)" dirBackward]
    by (simp add: request_page_def segment_page_def)
qed

subsection \<open>A page around an entry\<close>

lemma fetchSide_backward:
  "fetchSide keyOf (Inr rows) k dirBackward n = Inr (take (nat n) (rev (beyond keyOf dirBackward k (newest_first keyOf rows))))"
  by (simp add: fetchSide_def sort_beyond sql_Limit_def)

lemma fetchSide_forward:
  "fetchSide keyOf (Inr rows) k dirForward n = Inr (take (nat n) (beyond keyOf dirForward k (newest_first keyOf rows)))"
  by (simp add: fetchSide_def newest_first_beyond sql_Limit_def dirForward_def dirBackward_def)

text \<open>How many newer and older rows a page around an entry shows, when there are \<open>p\<close> newer and \<open>q\<close> older ones.\<close>

definition around_newer :: "nat \<Rightarrow> nat \<Rightarrow> nat \<Rightarrow> nat" where
  "around_newer limit p q = min p (max ((limit - 1) div 2) (limit - 1 - q))"

lemma around_arith:
  fixes p q m h :: nat
  assumes "h \<le> m"
  shows "min p h + min q (m - min p h) < m \<Longrightarrow> min p (max h (m - q)) = min p (m - min q (m - min p h))"
    and "\<not> min p h + min q (m - min p h) < m \<Longrightarrow> min p (max h (m - q)) = min p h"
  using assms by linarith+

lemma around_count:
  fixes p q m h :: nat
  assumes "h \<le> m" "a = min p (max h (m - q))" "b = min (m - a) q"
  shows "a + b = min m (p + q) \<and> min h p \<le> a \<and> (a = min h p \<or> b = q)"
proof (cases "h \<le> m - q")
  case True
  then have "a = min p (m - q)" using assms(2) by (simp add: max_def)
  then show ?thesis using True assms(1,3) by (cases "p \<le> m - q"; cases "q \<le> m") (auto simp: min_def)
next
  case False
  then have "a = min p h" using assms(2) by (simp add: max_def)
  then show ?thesis using False assms(1,3) by (cases "p \<le> h"; cases "q \<le> m - p") (auto simp: min_def)
qed

lemma around_rows:
  assumes "0 < limit"
    and "newer = beyond keyOf dirBackward (keyOf anchor) (newest_first keyOf rows)"
    and "older = beyond keyOf dirForward (keyOf anchor) (newest_first keyOf rows)"
    and "a = around_newer limit (length newer) (length older)"
  shows "fetchAroundPage cc (\<lambda>_. Inr rows) (Inr (Some anchor)) (int limit) keyOf =
    with_cursors cc keyOf (\<lambda>_. Inr rows) (drop (length newer - a) newer @ [anchor] @ take (limit - 1 - a) older)"
proof -
  define p where "p = length newer"
  define q where "q = length older"
  define n1 where "n1 = take ((limit - 1) div 2) (rev newer)"
  define o1 where "o1 = take (limit - 1 - length n1) older"
  have a1: "length n1 = min p ((limit - 1) div 2)" by (simp add: n1_def p_def)
  have b1: "length o1 = min q (limit - 1 - length n1)" by (simp add: o1_def q_def)
  have f1: "fetchSide keyOf (Inr rows) (keyOf anchor) dirBackward ((int limit - 1) div 2) = Inr n1"
    using assms(1) by (simp add: fetchSide_backward assms(2) [symmetric] n1_def nat_div_distrib nat_diff_distrib')
  have f2: "fetchSide keyOf (Inr rows) (keyOf anchor) dirForward (int limit - 1 - int (length n1)) = Inr o1"
    using assms(1) by (simp add: fetchSide_forward assms(3) [symmetric] o1_def nat_diff_distrib')
  have f3: "fetchSide keyOf (Inr rows) (keyOf anchor) dirBackward (int limit - 1 - int (length o1)) = Inr (take (limit - 1 - length o1) (rev newer))"
    using assms(1) by (simp add: fetchSide_backward assms(2) [symmetric] nat_diff_distrib')
  have a: "a = min p (max ((limit - 1) div 2) (limit - 1 - q))"
    by (simp only: assms(4) around_newer_def p_def q_def)
  have old: "o1 = take (limit - 1 - a) older"
  proof (cases "q \<le> limit - 1 - (limit - 1) div 2")
    case True
    then have "q \<le> limit - 1 - length n1" "q \<le> limit - 1 - a" unfolding a a1 by linarith+
    then show ?thesis by (simp add: o1_def q_def)
  next
    case False
    then have "a = length n1" unfolding a a1 by linarith
    then show ?thesis by (simp add: o1_def)
  qed
  show ?thesis
  proof (cases "int (length n1) + int (length o1) + 1 < int limit \<and> int (length n1) < int limit - 1 - int (length o1)")
    case True
    then have "length n1 + length o1 < limit - 1" by linarith
    then have "a = min p (limit - 1 - length o1)"
      unfolding a b1 a1 by (rule around_arith(1) [OF div_le_dividend])
    then have "rev (take (limit - 1 - length o1) (rev newer)) = drop (length newer - a) newer"
      by (simp add: take_rev p_def min_def)
    then show ?thesis unfolding old [symmetric] using True by (simp add: fetchAroundPage_def f1 f2 f3)
  next
    case False
    then have "\<not> length n1 + length o1 < limit - 1" by linarith
    then have "a = length n1"
      unfolding a b1 a1 by (rule around_arith(2) [OF div_le_dividend])
    then have "rev n1 = drop (length newer - a) newer"
      by (simp add: n1_def take_rev)
    then show ?thesis unfolding old [symmetric] using False by (simp add: fetchAroundPage_def f1 f2)
  qed
qed

text \<open>In the display order the newer rows come first and the older ones last.\<close>

lemma beyond_ends:
  assumes "descending keyOf L"
  shows "beyond keyOf dirBackward k L = take (length (beyond keyOf dirBackward k L)) L"
    and "beyond keyOf dirForward k L = drop (length L - length (beyond keyOf dirForward k L)) L"
proof -
  have b: "beyond keyOf dirBackward k L = takeWhile (\<lambda>r. k < keyOf r) L"
    using assms
  proof (induction L)
    case (Cons x L)
    have "filter (\<lambda>r. k < keyOf r) L = []" if "\<not> k < keyOf x"
      using Cons.prems that by (auto simp: descending_def filter_empty_conv dest: order.strict_trans)
    with Cons show ?case by (auto simp: descending_def beyond_def)
  qed (simp add: beyond_def)
  then show "beyond keyOf dirBackward k L = take (length (beyond keyOf dirBackward k L)) L"
    by (metis takeWhile_eq_take)
  have f: "beyond keyOf dirForward k L = dropWhile (\<lambda>r. \<not> keyOf r < k) L"
    using assms
  proof (induction L)
    case (Cons x L)
    have "filter (\<lambda>r. keyOf r < k) L = L" if "keyOf x < k"
      using Cons.prems that by (auto simp: descending_def filter_id_conv dest: order.strict_trans)
    with Cons show ?case by (auto simp: descending_def beyond_def dirForward_def dirBackward_def)
  qed (simp add: beyond_def)
  show "beyond keyOf dirForward k L = drop (length L - length (beyond keyOf dirForward k L)) L"
    unfolding f by (metis dropWhile_eq_drop length_drop diff_diff_cancel length_takeWhile_le)
qed

lemma around_cursors:
  assumes "distinct (map keyOf rows)"
    and "newer = beyond keyOf dirBackward (keyOf anchor) (newest_first keyOf rows)"
    and "older = beyond keyOf dirForward (keyOf anchor) (newest_first keyOf rows)"
    and "a \<le> length newer"
  shows "\<exists>prev next. with_cursors cc keyOf (\<lambda>_. Inr rows) (drop (length newer - a) newer @ [anchor] @ take b older) =
      Inr (drop (length newer - a) newer @ [anchor] @ take b older, prev, next) \<and>
    (prev = None \<longleftrightarrow> a = length newer) \<and> (next = None \<longleftrightarrow> length older \<le> b)"
proof -
  let ?L = "newest_first keyOf rows"
  let ?page = "drop (length newer - a) newer @ [anchor] @ take b older"
  note desc = descending_newest_first [OF assms(1)]
  note new = beyond_ends(1) [OF desc, of "keyOf anchor", folded assms(2)]
  note old = beyond_ends(2) [OF desc, of "keyOf anchor", folded assms(3)]
  have le: "length newer \<le> length ?L" "length older \<le> length ?L"
    unfolding assms(2,3) beyond_def by (rule length_filter_le)+
  have p: "beyond keyOf dirBackward (keyOf (hd ?page)) ?L = take (length newer - a) ?L"
  proof (cases "a = 0")
    case True
    then show ?thesis using assms(2) new by simp
  next
    case False
    then have "hd ?page = newer ! (length newer - a)"
      using assms(4) by (simp add: hd_drop_conv_nth)
    also have "\<dots> = ?L ! (length newer - a)"
      using new False assms(4) by (metis diff_less length_greater_0_conv le_zero_eq list.size(3) nth_take gr0I)
    finally show ?thesis using beyond_nth(2) [OF desc, of "length newer - a"] le False assms(4) by simp
  qed
  have n: "beyond keyOf dirForward (keyOf (last ?page)) ?L = drop (length ?L - length older + min b (length older)) ?L"
  proof (cases "take b older = []")
    case True
    then have "min b (length older) = 0" "last ?page = anchor" by auto
    then show ?thesis using assms(3) old by simp
  next
    case False
    define j where "j = min b (length older) - 1"
    have pos: "0 < b" "0 < length older" using False by auto
    then have j: "j < length older" "Suc j = min b (length older)" unfolding j_def by linarith+
    have "last ?page = last (take b older)" using False by simp
    also have "\<dots> = older ! j" using False pos by (simp add: last_conv_nth j_def min.commute)
    also have "\<dots> = ?L ! (length ?L - length older + j)"
      using j le by (subst old) simp
    finally show ?thesis
      using beyond_nth(1) [OF desc, of "length ?L - length older + j"] le j by (simp flip: add_Suc_right)
  qed
  have "beyond keyOf dirBackward (keyOf (hd ?page)) rows = [] \<longleftrightarrow> a = length newer"
    using le assms(4) unfolding beyond_Nil_iff p by auto
  moreover have "beyond keyOf dirForward (keyOf (last ?page)) rows = [] \<longleftrightarrow> length older \<le> b"
    using le unfolding beyond_Nil_iff n by auto
  ultimately show ?thesis
    unfolding with_cursors_def keysetCursorIfExists_def sql_Limit_1 by (auto simp del: append.simps)
qed

subsection \<open>The export visits everything once\<close>

lemma after_cursor_drop:
  assumes "distinct (map keyOf rows)" "i \<le> length rows"
    and "cursor = (if i = 0 then None else Some (keyOf (newest_first keyOf rows ! (i - 1))))"
  shows "newest_first keyOf (after_cursor keyOf cursor rows) = drop i (newest_first keyOf rows)"
  using beyond_nth(1) [OF descending_newest_first [OF assms(1)], of "i - 1"] assms(2,3)
  by (cases i) (simp_all add: after_cursor_def newest_first_beyond)

lemma stream_from_all:
  assumes "distinct (map keyOf rows)" "0 < batch" "i \<le> length rows"
    and "cursor = (if i = 0 then None else Some (keyOf (newest_first keyOf rows ! (i - 1))))"
    and "result = stream_from keyOf rows (int batch) (\<lambda>_. None) (\<lambda>_ _. None) k cursor"
  shows "concat (fst result) = drop i (newest_first keyOf rows) \<and> snd result = None \<and>
    (\<forall>b \<in> set (fst result). b \<noteq> [] \<and> length b \<le> batch)"
  using assms(3-5)
proof (induction "length rows - i" arbitrary: i k cursor result rule: less_induct)
  case less
  let ?L = "newest_first keyOf rows"
  define b where "b = take batch (drop i ?L)"
  have rows: "sql_Limit (int batch) (newest_first keyOf (after_cursor keyOf cursor rows)) = b"
    using after_cursor_drop [OF assms(1) less.prems(1,2)] by (simp add: b_def)
  note step = stream_from.simps [of keyOf rows "int batch" "\<lambda>_. None" "\<lambda>_ _. None" k cursor, folded less.prems(3), unfolded rows]
  show ?case
  proof (cases "length rows < i + batch")
    case True
    then show ?thesis using step by (auto simp: b_def Let_def)
  next
    case False
    then have len: "length b = batch" "b \<noteq> []" using assms(2) by (auto simp: b_def)
    have "last b = ?L ! (i + batch - 1)"
      using False len assms(2) by (simp add: last_conv_nth) (simp add: b_def)
    then have "concat (fst (stream_from keyOf rows (int batch) (\<lambda>_. None) (\<lambda>_ _. None) (Suc k) (Some (keyOf (last b))))) = drop (i + batch) ?L \<and>
        snd (stream_from keyOf rows (int batch) (\<lambda>_. None) (\<lambda>_ _. None) (Suc k) (Some (keyOf (last b)))) = None \<and>
        (\<forall>b \<in> set (fst (stream_from keyOf rows (int batch) (\<lambda>_. None) (\<lambda>_ _. None) (Suc k) (Some (keyOf (last b))))). b \<noteq> [] \<and> length b \<le> batch)"
      using less.hyps [of "i + batch"] False assms(2) by simp
    moreover have "b @ drop (i + batch) ?L = drop i ?L"
      by (simp add: b_def add.commute [of i batch] flip: drop_drop)
    ultimately show ?thesis using step len by (simp add: Let_def)
  qed
qed

subsection \<open>A codec and a table to try it on\<close>

definition unary_codec :: cursor_codec where
  "unary_codec = \<lparr>
    cc_Marshal = (\<lambda>c. (if cur_CreatedAt c < 0 then CHR ''-'' else CHR ''+'') # replicate (nat \<bar>cur_CreatedAt c\<bar>) CHR ''1'' @
      CHR ''0'' # replicate (length (cur_Dir c)) CHR ''1'' @ CHR ''0'' # cur_Dir c @ cur_ID c),
    cc_Unmarshal = (\<lambda>s. let r = tl s; t = int (length (takeWhile (\<lambda>x. x = CHR ''1'') r)); r' = tl (dropWhile (\<lambda>x. x = CHR ''1'') r);
       n = length (takeWhile (\<lambda>x. x = CHR ''1'') r'); r'' = tl (dropWhile (\<lambda>x. x = CHR ''1'') r')
      in Inr \<lparr>cur_CreatedAt = (if hd s = CHR ''-'' then - t else t), cur_ID = drop n r'', cur_Dir = take n r''\<rparr>),
    cc_EncodeToString = (\<lambda>s. s), cc_DecodeString = Inr\<rparr>"

lemma takeWhile_replicate_block: "x \<noteq> y \<Longrightarrow> takeWhile (\<lambda>z. z = x) (replicate n x @ y # zs) = replicate n x"
  by (induction n) auto

lemma dropWhile_replicate_block: "x \<noteq> y \<Longrightarrow> dropWhile (\<lambda>z. z = x) (replicate n x @ y # zs) = y # zs"
  by (induction n) auto

lemma codec_ok_unary: "codec_ok unary_codec"
  by (simp add: codec_ok_def unary_codec_def takeWhile_replicate_block dropWhile_replicate_block)

definition demo_rows :: "audit_key list" where
  "demo_rows = [(3, ''a''), (5, ''b''), (3, ''c''), (9, ''d''), (1, ''e'')]"

lemma demo_rows_ok: "distinct (map (\<lambda>k. k) demo_rows)" "\<forall>r \<in> set demo_rows. real_key r"
  by (simp_all add: demo_rows_def real_key_def time_Zero_def)

subsection \<open>Properties\<close>



text \<open>
  A page around an entry is the entry with the rows next to it in the list: it is full whenever there are
  enough rows, the newer half is given away only when the older side has more room than rows, and a cursor
  is missing exactly where the page reaches the end of the list.
\<close>

theorem around_page_centred:
  assumes "distinct (map keyOf rows)" "0 < limit"
    and "newer = beyond keyOf dirBackward (keyOf anchor) (newest_first keyOf rows)"
    and "older = beyond keyOf dirForward (keyOf anchor) (newest_first keyOf rows)"
  shows "\<exists>a b prev next. fetchAroundPage cc (\<lambda>_. Inr rows) (Inr (Some anchor)) (int limit) keyOf =
      Inr (drop (length newer - a) newer @ [anchor] @ take b older, prev, next) \<and>
    a \<le> length newer \<and> b \<le> length older \<and> a + 1 + b = min limit (length newer + 1 + length older) \<and>
    min ((limit - 1) div 2) (length newer) \<le> a \<and> (a = min ((limit - 1) div 2) (length newer) \<or> b = length older) \<and>
    (prev = None \<longleftrightarrow> a = length newer) \<and> (next = None \<longleftrightarrow> b = length older)"
proof -
  define a where "a = around_newer limit (length newer) (length older)"
  define b where "b = min (limit - 1 - a) (length older)"
  have le: "a \<le> length newer" by (simp add: a_def around_newer_def)
  have eq: "take (limit - 1 - a) older = take b older" by (simp add: b_def min_def)
  obtain prev "next" where c: "with_cursors cc keyOf (\<lambda>_. Inr rows) (drop (length newer - a) newer @ [anchor] @ take (limit - 1 - a) older) =
      Inr (drop (length newer - a) newer @ [anchor] @ take (limit - 1 - a) older, prev, next)"
    "prev = None \<longleftrightarrow> a = length newer" "next = None \<longleftrightarrow> length older \<le> limit - 1 - a"
    using around_cursors [OF assms(1,3,4) le, of cc "limit - 1 - a"] by blast
  have page: "fetchAroundPage cc (\<lambda>_. Inr rows) (Inr (Some anchor)) (int limit) keyOf =
      Inr (drop (length newer - a) newer @ [anchor] @ take b older, prev, next)"
    using around_rows [OF assms(2-4) a_def, of cc] c(1) eq by simp
  note sizes = around_count [OF div_le_dividend a_def [unfolded around_newer_def] b_def]
  have count: "a + 1 + b = min limit (length newer + 1 + length older)"
    using conjunct1 [OF sizes] assms(2) by linarith
  have "next = None \<longleftrightarrow> b = length older" "b \<le> length older" using c(3) unfolding b_def by linarith+
  with page le count conjunct2 [OF sizes] c(2) show ?thesis by blast
qed

theorem around_page_centred_witness:
  "\<exists>a b prev next. fetchAroundPage unary_codec (\<lambda>_. Inr demo_rows) (Inr (Some (3, ''c''))) 3 (\<lambda>k. k) =
      Inr (drop (2 - a) [(9, ''d''), (5, ''b'')] @ [(3, ''c'')] @ take b [(3, ''a''), (1, ''e'')], prev, next) \<and>
    a \<le> 2 \<and> b \<le> 2 \<and> a + 1 + b = 3 \<and> 1 \<le> a"
proof -
  have n: "[(9, ''d''), (5, ''b'')] = beyond (\<lambda>k. k) dirBackward (3, ''c'') (newest_first (\<lambda>k. k) demo_rows)"
    "[(3, ''a''), (1, ''e'')] = beyond (\<lambda>k. k) dirForward (3, ''c'') (newest_first (\<lambda>k. k) demo_rows)"
    by code_simp+
  have len: "length [(9, ''d''), (5, ''b'') :: audit_key] = 2" "length [(3, ''a''), (1, ''e'') :: audit_key] = 2" "(3 - 1) div 2 = (1 :: nat)"
    "min 3 (2 + 1 + 2) = (3 :: nat)" "min 1 2 = (1 :: nat)" "int 3 = 3"
    by simp_all
  have pos: "0 < (3 :: nat)" by simp
  obtain a b prev "next" where "fetchAroundPage unary_codec (\<lambda>_. Inr demo_rows) (Inr (Some (3, ''c''))) 3 (\<lambda>k. k) =
      Inr (drop (2 - a) [(9, ''d''), (5, ''b'')] @ [(3, ''c'')] @ take b [(3, ''a''), (1, ''e'')], prev, next)"
    "a \<le> 2" "b \<le> 2" "a + 1 + b = 3" "1 \<le> a"
    using around_page_centred [OF demo_rows_ok(1) pos n, of unary_codec] unfolding len by blast
  then show ?thesis by blast
qed

text \<open>
  C27. The export returns, and it hands every matching row to the callback exactly once, newest first, in
  batches that are never empty and never larger than asked for.
\<close>

theorem export_complete:
  assumes "distinct (map keyOf rows)" "0 < batch"
  shows "concat (fst (StreamFiltered keyOf rows (int batch) (\<lambda>_. None) (\<lambda>_ _. None))) = newest_first keyOf rows \<and>
    snd (StreamFiltered keyOf rows (int batch) (\<lambda>_. None) (\<lambda>_ _. None)) = None \<and>
    list_all (\<lambda>b. b \<noteq> [] \<and> length b \<le> batch) (fst (StreamFiltered keyOf rows (int batch) (\<lambda>_. None) (\<lambda>_ _. None)))"
  using stream_from_all [OF assms, of 0 None _ 0] assms(2) by (simp add: StreamFiltered_def list_all_iff)

theorem export_complete_witness:
  "concat (fst (StreamFiltered (\<lambda>k. k) demo_rows 2 (\<lambda>_. None) (\<lambda>_ _. None))) = [(9, ''d''), (5, ''b''), (3, ''c''), (3, ''a''), (1, ''e'')]"
proof -
  have "concat (fst (StreamFiltered (\<lambda>k. k) demo_rows (int 2) (\<lambda>_. None) (\<lambda>_ _. None))) = newest_first (\<lambda>k. k) demo_rows"
    using export_complete [OF demo_rows_ok(1), of 2] by simp
  also have "\<dots> = [(9, ''d''), (5, ''b''), (3, ''c''), (3, ''a''), (1, ''e'')]" by code_simp
  finally show ?thesis by simp
qed

end
