(* ===== verification/Db_Retry.thy ===== *)
theory Db_Retry
  imports Db_Errors "HOL-Library.Signed_Division"
begin

text \<open>
  Retrying transactions: \<open>auth/db/retry.go\<close> and \<open>auth/db/retry_helpers.go\<close>. A transaction is a function
  from the database it sees to an error or the database it leaves; \<open>fn k\<close> is its \<open>k\<close>-th run, so that an
  error may come and go. The database undoes what a failed transaction did. \<open>ctxDone k\<close> is the error of the
  context while the code waits before the \<open>k\<close>-th run. Durations are \<open>int64\<close> nanoseconds.
\<close>

record RetryConfig =
  rc_MaxRetries :: int
  rc_BaseDelay :: int64
  rc_MaxDelay :: int64

definition DefaultRetryConfig :: RetryConfig where
  "DefaultRetryConfig = \<lparr>rc_MaxRetries = 3, rc_BaseDelay = 100000000, rc_MaxDelay = 5000000000\<rparr>"

datatype isolation = LevelDefault | LevelReadCommitted | LevelSerializable | LevelOther string

record TxOptions =
  tx_Isolation :: isolation
  tx_ReadOnly :: bool

definition serializableTxOptions :: TxOptions where
  "serializableTxOptions = \<lparr>tx_Isolation = LevelSerializable, tx_ReadOnly = False\<rparr>"

definition resolveTxOptions :: "TxOptions option list \<Rightarrow> go_error + TxOptions" where
  "resolveTxOptions opts =
    (case opts of
       Some opt # _ \<Rightarrow>
         (case tx_Isolation opt of
            LevelDefault \<Rightarrow> Inr \<lparr>tx_Isolation = LevelSerializable, tx_ReadOnly = tx_ReadOnly opt\<rparr>
          | LevelReadCommitted \<Rightarrow> Inr opt
          | LevelSerializable \<Rightarrow> Inr opt
          | LevelOther name \<Rightarrow> Inl (errors_New (''db: non-portable isolation level '' @ name @
              '' requested; only ReadCommitted or Serializable are allowed (godror rejects the rest; Default is upgraded to Serializable)'')))
     | _ \<Rightarrow> Inr serializableTxOptions)"

text \<open>Products and sums of durations wrap; a shift by 64 or more is zero, in Go as here.\<close>

definition jitteredBackoff :: "RetryConfig \<Rightarrow> nat \<Rightarrow> (int64 \<Rightarrow> int64) \<Rightarrow> int64" where
  "jitteredBackoff cfg attempt randN =
    (let w = rc_BaseDelay cfg * push_bit (attempt - 1) 1;
         window = (if sint w \<le> 0 \<or> sint (rc_MaxDelay cfg) < sint w then rc_MaxDelay cfg else w);
         half = word_of_int (sint window sdiv 2);
         jitter = randN (window - half + 1)
     in half + jitter)"

definition IsRetryableError :: "bool \<Rightarrow> go_error option \<Rightarrow> bool" where
  "IsRetryableError oracle err = (case err of None \<Rightarrow> False | Some e \<Rightarrow> IsRetryable (Classify oracle e))"

definition IsConnectionError :: "bool \<Rightarrow> go_error option \<Rightarrow> bool" where
  "IsConnectionError oracle err = IsRetryableError oracle err"

definition IsPermissionError :: "bool \<Rightarrow> go_error option \<Rightarrow> bool" where
  "IsPermissionError oracle err = (case err of None \<Rightarrow> False | Some e \<Rightarrow> IsFatal (Classify oracle e))"

definition gave_up :: "string \<Rightarrow> int \<Rightarrow> go_error option \<Rightarrow> go_error" where
  "gave_up what n lastErr =
    (let text = what @ '' failed after '' @ string_of_int n @ '' attempts: ''
     in case lastErr of None \<Rightarrow> errors_New (text @ ''%!w(<nil>)'') | Some e \<Rightarrow> errorf_wrap text e)"

text \<open>The loop of the three wrappers: \<open>n\<close> runs are left, the next is number \<open>attempt\<close>.\<close>

fun retry_loop ::
  "bool \<Rightarrow> go_error \<Rightarrow> (nat \<Rightarrow> go_error option) \<Rightarrow> (nat \<Rightarrow> 's \<Rightarrow> go_error + 's) \<Rightarrow> nat \<Rightarrow> nat \<Rightarrow> 's \<Rightarrow> 's \<times> (go_error option + go_error option)" where
  "retry_loop oracle lastErr ctxDone fn 0 attempt s = (s, Inr (Some lastErr))"
| "retry_loop oracle lastErr ctxDone fn (Suc n) attempt s =
    (case (if attempt > 0 then ctxDone attempt else None) of
       Some e \<Rightarrow> (s, Inl (Some e))
     | None \<Rightarrow>
       (case fn attempt s of
          Inr s' \<Rightarrow> (s', Inl None)
        | Inl e \<Rightarrow> if IsRetryableError oracle (Some e) then retry_loop oracle e ctxDone fn n (Suc attempt) s else (s, Inl (Some e))))"

definition with_retries ::
  "string \<Rightarrow> bool \<Rightarrow> RetryConfig \<Rightarrow> (nat \<Rightarrow> go_error option) \<Rightarrow> (nat \<Rightarrow> 's \<Rightarrow> go_error + 's) \<Rightarrow> 's \<Rightarrow> 's \<times> go_error option" where
  "with_retries what oracle cfg ctxDone fn s =
    (if rc_MaxRetries cfg \<le> 0 then (s, Some (gave_up what (rc_MaxRetries cfg) None))
     else case retry_loop oracle (errors_New []) ctxDone fn (nat (rc_MaxRetries cfg)) 0 s of
       (s', Inl r) \<Rightarrow> (s', r)
     | (s', Inr lastErr) \<Rightarrow> (s', Some (gave_up what (rc_MaxRetries cfg) lastErr)))"

definition WithRetryableGormTransaction ::
  "bool \<Rightarrow> RetryConfig \<Rightarrow> (nat \<Rightarrow> go_error option) \<Rightarrow> (nat \<Rightarrow> 's \<Rightarrow> go_error + 's) \<Rightarrow> TxOptions option list \<Rightarrow> 's \<Rightarrow> 's \<times> go_error option" where
  "WithRetryableGormTransaction oracle cfg ctxDone fn opts s =
    (case resolveTxOptions opts of
       Inl e \<Rightarrow> (s, Some e)
     | Inr txOpts \<Rightarrow> with_retries ''transaction'' oracle cfg ctxDone fn s)"

definition WithRetryableGormRead ::
  "bool \<Rightarrow> RetryConfig \<Rightarrow> (nat \<Rightarrow> go_error option) \<Rightarrow> (nat \<Rightarrow> 's \<Rightarrow> go_error + 's) \<Rightarrow> 's \<Rightarrow> 's \<times> go_error option" where
  "WithRetryableGormRead oracle cfg ctxDone fn s = with_retries ''read'' oracle cfg ctxDone fn s"

text \<open>
  The variant on \<open>database/sql\<close> begins, runs and commits by itself. A commit is acknowledged, or fails with
  an error; when the connection breaks after the commit was sent, it may have taken effect all the same.
\<close>

datatype commit_result = Committed | CommitFailed bool go_error

definition after_commit :: "commit_result \<Rightarrow> 's \<Rightarrow> 's \<Rightarrow> 's" where
  "after_commit r s s' = (case r of Committed \<Rightarrow> s' | CommitFailed applied e \<Rightarrow> if applied then s' else s)"

fun sql_loop ::
  "bool \<Rightarrow> go_error \<Rightarrow> (nat \<Rightarrow> go_error option) \<Rightarrow> (nat \<Rightarrow> go_error option) \<Rightarrow> (nat \<Rightarrow> 's \<Rightarrow> go_error + 's) \<Rightarrow> (nat \<Rightarrow> commit_result) \<Rightarrow>
    nat \<Rightarrow> nat \<Rightarrow> 's \<Rightarrow> 's \<times> (go_error option + go_error option)" where
  "sql_loop oracle lastErr ctxDone begin_tx fn commit 0 attempt s = (s, Inr (Some lastErr))"
| "sql_loop oracle lastErr ctxDone begin_tx fn commit (Suc n) attempt s =
    (case (if attempt > 0 then ctxDone attempt else None) of
       Some e \<Rightarrow> (s, Inl (Some e))
     | None \<Rightarrow>
       (case begin_tx attempt of
          Some e \<Rightarrow>
            if IsRetryableError oracle (Some e) then sql_loop oracle e ctxDone begin_tx fn commit n (Suc attempt) s
            else (s, Inl (Some (errorf_wrap ''failed to begin transaction: '' e)))
        | None \<Rightarrow>
          (case fn attempt s of
             Inl e \<Rightarrow>
               if IsRetryableError oracle (Some e) then sql_loop oracle e ctxDone begin_tx fn commit n (Suc attempt) s else (s, Inl (Some e))
           | Inr s' \<Rightarrow>
             (case commit attempt of
                Committed \<Rightarrow> (s', Inl None)
              | CommitFailed applied e \<Rightarrow>
                if IsRetryableError oracle (Some e)
                then sql_loop oracle e ctxDone begin_tx fn commit n (Suc attempt) (after_commit (CommitFailed applied e) s s')
                else (after_commit (CommitFailed applied e) s s', Inl (Some (errorf_wrap ''failed to commit transaction: '' e)))))))"

definition WithRetryableTransaction ::
  "bool \<Rightarrow> RetryConfig \<Rightarrow> (nat \<Rightarrow> go_error option) \<Rightarrow> (nat \<Rightarrow> go_error option) \<Rightarrow> (nat \<Rightarrow> 's \<Rightarrow> go_error + 's) \<Rightarrow> (nat \<Rightarrow> commit_result) \<Rightarrow>
    TxOptions option list \<Rightarrow> 's \<Rightarrow> 's \<times> go_error option" where
  "WithRetryableTransaction oracle cfg ctxDone begin_tx fn commit opts s =
    (case resolveTxOptions opts of
       Inl e \<Rightarrow> (s, Some e)
     | Inr txOpts \<Rightarrow>
       if rc_MaxRetries cfg \<le> 0 then (s, Some (gave_up ''transaction'' (rc_MaxRetries cfg) None))
       else case sql_loop oracle (errors_New []) ctxDone begin_tx fn commit (nat (rc_MaxRetries cfg)) 0 s of
         (s', Inl r) \<Rightarrow> (s', r)
       | (s', Inr lastErr) \<Rightarrow> (s', Some (gave_up ''transaction'' (rc_MaxRetries cfg) lastErr)))"

subsection \<open>What a retried transaction does\<close>

lemma retry_loop_outcome:
  "snd (retry_loop oracle lastErr ctxDone fn n attempt s) = Inl None \<Longrightarrow>
    \<exists>k < n. fn (attempt + k) s = Inr (fst (retry_loop oracle lastErr ctxDone fn n attempt s)) \<and>
      (\<forall>j < k. \<exists>e. fn (attempt + j) s = Inl e \<and> IsRetryableError oracle (Some e))"
proof (induction n arbitrary: lastErr attempt)
  case 0
  then show ?case by simp
next
  case (Suc n)
  have nodone: "(if attempt > 0 then ctxDone attempt else None) = None"
    using Suc.prems by (auto split: option.splits)
  show ?case
  proof (cases "fn attempt s")
    case (Inr s')
    then show ?thesis using nodone by (intro exI [of _ 0]) simp
  next
    case (Inl e)
    have r: "IsRetryableError oracle (Some e)"
      using Suc.prems nodone Inl by (auto split: if_splits)
    then have eq: "retry_loop oracle lastErr ctxDone fn (Suc n) attempt s = retry_loop oracle e ctxDone fn n (Suc attempt) s"
      using nodone Inl by simp
    obtain k where "k < n" "fn (Suc attempt + k) s = Inr (fst (retry_loop oracle e ctxDone fn n (Suc attempt) s))"
      "\<forall>j < k. \<exists>e. fn (Suc attempt + j) s = Inl e \<and> IsRetryableError oracle (Some e)"
      using Suc.IH [of e "Suc attempt"] Suc.prems unfolding eq by blast
    then show ?thesis using Inl r unfolding eq by (intro exI [of _ "Suc k"]) (simp add: All_less_Suc2)
  qed
qed

lemma retry_loop_undone: "snd (retry_loop oracle lastErr ctxDone fn n attempt s) \<noteq> Inl None \<Longrightarrow> fst (retry_loop oracle lastErr ctxDone fn n attempt s) = s"
  by (induction n arbitrary: lastErr attempt) (auto split: option.splits sum.splits if_splits)

lemma with_retries_outcome:
  "if snd (with_retries what oracle cfg ctxDone fn s) = None
   then \<exists>k < nat (rc_MaxRetries cfg). fn k s = Inr (fst (with_retries what oracle cfg ctxDone fn s)) \<and>
     (\<forall>j < k. \<exists>e. fn j s = Inl e \<and> IsRetryableError oracle (Some e))
   else fst (with_retries what oracle cfg ctxDone fn s) = s"
proof -
  let ?r = "retry_loop oracle (errors_New []) ctxDone fn (nat (rc_MaxRetries cfg)) 0 s"
  show ?thesis
    using retry_loop_outcome [of "oracle" "errors_New []" ctxDone fn "nat (rc_MaxRetries cfg)" 0 s]
      retry_loop_undone [of "oracle" "errors_New []" ctxDone fn "nat (rc_MaxRetries cfg)" 0 s]
    by (cases ?r) (auto simp: with_retries_def split: sum.splits)
qed

text \<open>With the same error at every run the wrapper gives up with it, at once or after the last run.\<close>

lemma with_retries_const:
  "0 < rc_MaxRetries cfg \<Longrightarrow> \<forall>k. ctxDone k = None \<Longrightarrow> \<forall>k. fn k s = Inr s' \<Longrightarrow> with_retries what oracle cfg ctxDone fn s = (s', None)"
  by (cases "nat (rc_MaxRetries cfg)") (auto simp: with_retries_def)

lemma transaction_const [simp]:
  "fn s = Inr s' \<Longrightarrow> WithRetryableGormTransaction oracle DefaultRetryConfig (\<lambda>_. None) (\<lambda>_. fn) [] s = (s', None)"
  by (simp add: WithRetryableGormTransaction_def resolveTxOptions_def with_retries_const DefaultRetryConfig_def)

lemma transaction_outcome:
  "if snd (WithRetryableGormTransaction oracle cfg ctxDone fn opts s) = None
   then \<exists>k < nat (rc_MaxRetries cfg). fn k s = Inr (fst (WithRetryableGormTransaction oracle cfg ctxDone fn opts s)) \<and>
     list_all (\<lambda>j. \<exists>e. fn j s = Inl e \<and> IsRetryableError oracle (Some e)) [0..<k]
   else fst (WithRetryableGormTransaction oracle cfg ctxDone fn opts s) = s"
  using with_retries_outcome [of "''transaction''" "oracle" cfg ctxDone fn s]
  by (auto simp: WithRetryableGormTransaction_def list_all_iff atLeast0LessThan Ball_def split: sum.split)


text \<open>
  What a number of runs that took effect, one after the other, can make of a database; and a driver whose
  failed commits have all failed.
\<close>

inductive effect :: "(nat \<Rightarrow> 's \<Rightarrow> go_error + 's) \<Rightarrow> nat \<Rightarrow> 's \<Rightarrow> 's \<Rightarrow> bool" for fn where
  no_run: "effect fn 0 s s"
| one_more: "effect fn k s t \<Longrightarrow> fn j t = Inr u \<Longrightarrow> effect fn (Suc k) s u"

lemma effect_one: "fn j s = Inr t \<Longrightarrow> effect fn 1 s t"
  using effect.one_more [of fn 0 s s j t] effect.no_run [of fn s] by simp

definition honest :: "(nat \<Rightarrow> commit_result) \<Rightarrow> bool" where
  "honest commit \<longleftrightarrow> (\<forall>k e. commit k \<noteq> CommitFailed True e)"

definition once_or_never :: "(nat \<Rightarrow> 's \<Rightarrow> go_error + 's) \<Rightarrow> 's \<Rightarrow> 's \<times> (go_error option + 'e) \<Rightarrow> bool" where
  "once_or_never fn s r \<longleftrightarrow> effect fn (if snd r = Inl None then 1 else 0) s (fst r)"

lemma once_or_never_intros [intro]:
  "once_or_never fn s (s, Inl (Some e))" "once_or_never fn s (s, Inr x)" "fn j s = Inr t \<Longrightarrow> once_or_never fn s (t, Inl None)"
  using effect_one [of fn j s t] by (auto simp: once_or_never_def effect.no_run)

lemma sql_loop_honest:
  assumes "honest commit"
  shows "once_or_never fn s (sql_loop oracle lastErr ctxDone begin_tx fn commit n attempt s)"
proof (induction n arbitrary: lastErr attempt)
  case (Suc n)
  have "after_commit (CommitFailed applied e) s t = s" if "commit attempt = CommitFailed applied e" for applied e t
    using that assms by (auto simp: after_commit_def honest_def)
  then show ?case
    using once_or_never_intros(3) [of fn attempt s]
    by (cases "if attempt > 0 then ctxDone attempt else None"; cases "begin_tx attempt"; cases "fn attempt s"; cases "commit attempt")
      (simp_all add: Suc once_or_never_intros(1) if_split [of "\<lambda>x. once_or_never fn s x"] split del: if_split)
qed auto

text \<open>
  When every failed commit has really failed, the \<open>database/sql\<close> variant takes effect once if it reports
  success and not at all if it reports an error.
\<close>

theorem sql_transaction_once_or_never:
  assumes "honest commit"
  shows "effect fn (if snd (WithRetryableTransaction oracle cfg ctxDone begin_tx fn commit opts s) = None then 1 else 0) s
    (fst (WithRetryableTransaction oracle cfg ctxDone begin_tx fn commit opts s))"
  using sql_loop_honest [OF assms, of fn s "oracle" "errors_New []" ctxDone begin_tx "nat (rc_MaxRetries cfg)" 0]
  by (auto simp: once_or_never_def WithRetryableTransaction_def effect.no_run split: sum.split prod.split)

lemma sentinel_retryable: "IsRetryableError oracle (Some (sentinel_error ErrTransient))"
  by (simp add: IsRetryableError_def IsRetryable_def Classify_def)

text \<open>A run whose commit fails with a retryable error, and a second one that succeeds.\<close>

lemma two_runs:
  assumes "IsRetryableError oracle (Some e)" "fn 0 s = Inr t" "fn 1 (if applied then t else s) = Inr u"
  shows "WithRetryableTransaction oracle DefaultRetryConfig (\<lambda>_. None) (\<lambda>_. None) fn (\<lambda>k. if k = 0 then CommitFailed applied e else Committed) [] s = (u, None)"
  using assms by (auto simp: WithRetryableTransaction_def resolveTxOptions_def DefaultRetryConfig_def numeral_3_eq_3 after_commit_def split: if_splits)

theorem sql_transaction_once_or_never_witness:
  "honest (\<lambda>k. if k = 0 then CommitFailed False (sentinel_error ErrTransient) else Committed) \<and>
   WithRetryableTransaction False DefaultRetryConfig (\<lambda>_. None) (\<lambda>_. None) (\<lambda>_ n. Inr (n + 1))
     (\<lambda>k. if k = 0 then CommitFailed False (sentinel_error ErrTransient) else Committed) [] (0 :: nat) = (1, None) \<and>
   effect (\<lambda>_ n. Inr (n + 1)) 1 (0 :: nat) 1"
proof -
  let ?commit = "\<lambda>k. if k = 0 then CommitFailed False (sentinel_error ErrTransient) else Committed"
  have h: "honest ?commit" by (simp add: honest_def)
  have "WithRetryableTransaction False DefaultRetryConfig (\<lambda>_. None) (\<lambda>_. None) (\<lambda>_ n. Inr (n + 1)) ?commit [] (0 :: nat) = (1, None)"
    by (rule two_runs) (simp_all add: sentinel_retryable)
  then show ?thesis
    using h sql_transaction_once_or_never [OF h, of "\<lambda>_ n. Inr (n + 1)" False DefaultRetryConfig "\<lambda>_. None" "\<lambda>_. None" "[]" "0 :: nat"] by simp
qed


subsection \<open>The delay between runs\<close>

lemma sint_half: "0 \<le> sint (w :: int64) \<Longrightarrow> sint (word_of_int (sint w sdiv 2) :: int64) = sint w div 2"
proof -
  assume "0 \<le> sint w"
  moreover have "sint w < 2 ^ 63" using sint_lt [of w] by simp
  ultimately have "0 \<le> sint w div 2 \<and> sint w div 2 < 2 ^ 63" "sint w sdiv 2 = sint w div 2"
    by (auto simp: signed_divide_int_def sgn_if)
  moreover from this have "- (2 ^ 63) \<le> sint w div 2" by linarith
  ultimately show ?thesis by (simp add: sint_sbintrunc' signed_take_bit_int_eq_self)
qed

lemma sint_plus_small:
  "0 \<le> sint (a :: int64) \<Longrightarrow> 0 \<le> sint b \<Longrightarrow> sint a + sint b < 2 ^ 63 \<Longrightarrow> sint (a + b) = sint a + sint b"
  by (simp add: sint_word_add signed_take_bit_int_eq_self)


lemma sint_minus_small:
  "0 \<le> sint (b :: int64) \<Longrightarrow> sint b \<le> sint a \<Longrightarrow> sint (a - b) = sint a - sint b"
  using sint_lt [of a] sint_ge [of a] by (simp add: sint_word_diff signed_take_bit_int_eq_self)

text \<open>What \<open>rand.Int63n\<close> promises: a number in the range it is given.\<close>

definition rand_ok :: "(int64 \<Rightarrow> int64) \<Rightarrow> bool" where
  "rand_ok randN \<longleftrightarrow> (\<forall>n. 0 < sint n \<longrightarrow> 0 \<le> sint (randN n) \<and> sint (randN n) < sint n)"

lemma window_delay:
  assumes "rand_ok randN" "0 < sint (window :: int64)"
  defines "half \<equiv> word_of_int (sint window sdiv 2) :: int64"
  shows "sint window div 2 \<le> sint (half + randN (window - half + 1)) \<and> sint (half + randN (window - half + 1)) \<le> sint window"
proof -
  have h: "sint half = sint window div 2" unfolding half_def using assms(2) by (intro sint_half) simp
  have lt: "sint window < 2 ^ 63" using sint_lt [of window] by simp
  have d: "sint (window - half) = sint window - sint window div 2"
    using assms(2) by (subst sint_minus_small) (simp_all add: h)
  have one: "sint (1 :: int64) = 1" by simp
  have n: "sint (window - half + 1) = sint window - sint window div 2 + 1"
    using assms(2) lt by (subst sint_plus_small) (simp_all add: d one)
  have pos: "0 < sint (window - half + 1)" using assms(2) unfolding n by simp
  have j: "0 \<le> sint (randN (window - half + 1)) \<and> sint (randN (window - half + 1)) < sint window - sint window div 2 + 1"
    using assms(1) pos unfolding rand_ok_def n [symmetric] by blast
  then have "sint (half + randN (window - half + 1)) = sint window div 2 + sint (randN (window - half + 1))"
    using assms(2) lt by (subst sint_plus_small) (simp_all add: h)
  with j show ?thesis by simp
qed

text \<open>
  Whatever the attempt, and even where the exponential window overflows \<open>int64\<close>, the delay lies between
  zero and the configured maximum, and is at least half the window.
\<close>

theorem backoff_within_bounds:
  assumes "rand_ok randN" "0 < sint (rc_MaxDelay cfg)"
  shows "0 \<le> sint (jitteredBackoff cfg attempt randN) \<and> sint (jitteredBackoff cfg attempt randN) \<le> sint (rc_MaxDelay cfg)"
proof -
  define w where "w = rc_BaseDelay cfg * push_bit (attempt - 1) 1"
  define window where "window = (if sint w \<le> 0 \<or> sint (rc_MaxDelay cfg) < sint w then rc_MaxDelay cfg else w)"
  have w: "0 < sint window" "sint window \<le> sint (rc_MaxDelay cfg)" using assms(2) by (auto simp: window_def)
  have eq: "jitteredBackoff cfg attempt randN =
      word_of_int (sint window sdiv 2) + randN (window - word_of_int (sint window sdiv 2) + 1)"
    by (simp only: jitteredBackoff_def Let_def w_def window_def)
  have "0 \<le> sint window div 2" using w(1) by simp
  then show ?thesis unfolding eq using window_delay [OF assms(1) w(1)] w(2) by (meson order_trans)
qed

theorem backoff_within_bounds_witness:
  "0 \<le> sint (jitteredBackoff DefaultRetryConfig 70 (\<lambda>n. n - 1)) \<and> sint (jitteredBackoff DefaultRetryConfig 70 (\<lambda>n. n - 1)) \<le> 5000000000"
proof -
  have "rand_ok (\<lambda>n. n - 1)" unfolding rand_ok_def
  proof (intro allI impI)
    fix n :: int64
    assume "0 < sint n"
    moreover have "sint (1 :: int64) = 1" by simp
    ultimately have "sint (n - 1) = sint n - 1" using sint_minus_small [of 1 n] by simp
    with \<open>0 < sint n\<close> show "0 \<le> sint (n - 1) \<and> sint (n - 1) < sint n" by simp
  qed
  then show ?thesis using backoff_within_bounds [of "\<lambda>n. n - 1" DefaultRetryConfig 70] by (simp add: DefaultRetryConfig_def)
qed

end
