(* ===== verification/Audit_Trail.thy ===== *)
theory Audit_Trail
  imports Db_Retry
begin

text \<open>
  The audit trail: \<open>api/audit_service.go\<close>, the recording and reading half of \<open>api/audit_store.go\<close> and the
  diffs of \<open>api/audit_utils.go\<close>. Every mutation gets an entry with the next version of its object and,
  where the states are known, a snapshot: a checkpoint or a reverse diff. States are the bytes of a JSON
  document. The merge-patch library is a \<open>merge_lib\<close> argument; \<open>merge_reverts\<close> is what it documents:
  a patch created from one document to another leads from the one to the other. Rows of a table are in
  the order of insertion, and the identifiers \<open>uuid.New\<close> gives come in as arguments.
\<close>

record InternalAuditActor =
  aa_Email :: string
  aa_Provider :: string
  aa_ProviderID :: string
  aa_DisplayName :: string

record AuditParams =
  ap_ThreatModelID :: string
  ap_ObjectType :: string
  ap_ObjectID :: string
  ap_ChangeType :: string
  ap_Actor :: InternalAuditActor
  ap_PreviousState :: "string option"
  ap_CurrentState :: "string option"
  ap_ChangeSummary :: "string option"

record AuditEntry =
  ae_ID :: string
  ae_ThreatModelID :: string
  ae_ObjectType :: string
  ae_ObjectID :: string
  ae_Version :: "int option"
  ae_ChangeType :: string
  ae_ActorEmail :: string
  ae_ActorProvider :: string
  ae_ActorProviderID :: string
  ae_ActorDisplayName :: string
  ae_ChangeSummary :: "string option"
  ae_CreatedAt :: time

record VersionSnapshot =
  vs_ID :: string
  vs_AuditEntryID :: string
  vs_ObjectType :: string
  vs_ObjectID :: string
  vs_Version :: int
  vs_SnapshotType :: string
  vs_Data :: string
  vs_CreatedAt :: time

definition ChangeTypeCreated :: string where "ChangeTypeCreated = ''created''"
definition ChangeTypeUpdated :: string where "ChangeTypeUpdated = ''updated''"
definition ChangeTypePatched :: string where "ChangeTypePatched = ''patched''"
definition ChangeTypeDeleted :: string where "ChangeTypeDeleted = ''deleted''"
definition ChangeTypeRestored :: string where "ChangeTypeRestored = ''restored''"
definition ChangeTypeRolledBack :: string where "ChangeTypeRolledBack = ''rolled_back''"

definition SnapshotTypeCheckpoint :: string where "SnapshotTypeCheckpoint = ''checkpoint''"
definition SnapshotTypeDiff :: string where "SnapshotTypeDiff = ''diff''"

definition CheckpointInterval :: int where "CheckpointInterval = 10"

lemma snapshot_types [simp]: "SnapshotTypeCheckpoint \<noteq> SnapshotTypeDiff" "SnapshotTypeDiff \<noteq> SnapshotTypeCheckpoint"
  by (simp_all add: SnapshotTypeCheckpoint_def SnapshotTypeDiff_def)

lemma change_types [simp]:
  "ChangeTypeUpdated \<noteq> ChangeTypeCreated" "ChangeTypeUpdated \<noteq> ChangeTypeDeleted" "ChangeTypePatched \<noteq> ChangeTypeCreated"
  "ChangeTypePatched \<noteq> ChangeTypeDeleted" "ChangeTypeRolledBack \<noteq> ChangeTypeCreated" "ChangeTypeRolledBack \<noteq> ChangeTypeDeleted"
  "ChangeTypeRestored \<noteq> ChangeTypeCreated" "ChangeTypeRestored \<noteq> ChangeTypeDeleted"
  by (simp_all add: ChangeTypeUpdated_def ChangeTypeCreated_def ChangeTypeDeleted_def ChangeTypePatched_def ChangeTypeRolledBack_def ChangeTypeRestored_def)

text \<open>
  The database: the two tables, the clock, and the errors that reads and writes of a table meet at the moment.
\<close>

record audit_db =
  adb_entries :: "AuditEntry list"
  adb_snapshots :: "VersionSnapshot list"
  adb_now :: time
  adb_read_error :: "go_error option"
  adb_entry_error :: "go_error option"
  adb_snapshot_error :: "go_error option"

record merge_lib =
  ml_CreateMergePatch :: "string \<Rightarrow> string \<Rightarrow> go_error + string"
  ml_MergePatch :: "string \<Rightarrow> string \<Rightarrow> go_error + string"

definition ComputeReverseDiff :: "merge_lib \<Rightarrow> string \<Rightarrow> string \<Rightarrow> go_error + string" where
  "ComputeReverseDiff lib before after =
    (case ml_CreateMergePatch lib after before of
       Inl e \<Rightarrow> Inl (errorf_wrap ''failed to compute reverse diff: '' e) | Inr patch \<Rightarrow> Inr patch)"

definition ApplyDiff :: "merge_lib \<Rightarrow> string \<Rightarrow> string \<Rightarrow> go_error + string" where
  "ApplyDiff lib state diff =
    (case ml_MergePatch lib state diff of
       Inl e \<Rightarrow> Inl (errorf_wrap ''failed to apply diff: '' e) | Inr result \<Rightarrow> Inr result)"

definition merge_reverts :: "merge_lib \<Rightarrow> string \<Rightarrow> string \<Rightarrow> bool" where
  "merge_reverts lib original modified \<longleftrightarrow>
    (case ml_CreateMergePatch lib original modified of Inl e \<Rightarrow> True | Inr patch \<Rightarrow> ml_MergePatch lib original patch = Inr modified)"

subsection \<open>Recording\<close>

definition entry_of_object :: "string \<Rightarrow> string \<Rightarrow> AuditEntry \<Rightarrow> bool" where
  "entry_of_object objectType objectID e \<longleftrightarrow> ae_ObjectType e = objectType \<and> ae_ObjectID e = objectID"

definition snapshot_of_object :: "string \<Rightarrow> string \<Rightarrow> VersionSnapshot \<Rightarrow> bool" where
  "snapshot_of_object objectType objectID s \<longleftrightarrow> vs_ObjectType s = objectType \<and> vs_ObjectID s = objectID"

text \<open>\<open>SELECT MAX(version)\<close>: NULL when there is no version.\<close>

definition sql_MAX :: "int list \<Rightarrow> int option" where
  "sql_MAX vs = (case vs of [] \<Rightarrow> None | v # vs \<Rightarrow> Some (fold max vs v))"

definition nextVersion :: "audit_db \<Rightarrow> string \<Rightarrow> string \<Rightarrow> int" where
  "nextVersion d objectType objectID =
    (case sql_MAX (List.map_filter ae_Version (filter (entry_of_object objectType objectID) (adb_entries d))) of
       None \<Rightarrow> 1 | Some m \<Rightarrow> m + 1)"

text \<open>What is to be stored for a mutation: nothing, or the type and data of a snapshot.\<close>

definition snapshot_content :: "merge_lib \<Rightarrow> AuditParams \<Rightarrow> int \<Rightarrow> (string \<times> string) option" where
  "snapshot_content lib params version =
    (if ap_ChangeType params = ChangeTypeCreated then map_option (Pair SnapshotTypeCheckpoint) (ap_CurrentState params)
     else if ap_ChangeType params = ChangeTypeDeleted then map_option (Pair SnapshotTypeCheckpoint) (ap_PreviousState params)
     else case (ap_PreviousState params, ap_CurrentState params) of
       (Some prev, Some cur) \<Rightarrow>
         Some (if version mod CheckpointInterval = 0 \<or> version = 1 then (SnapshotTypeCheckpoint, prev)
           else case ComputeReverseDiff lib prev cur of
             Inl _ \<Rightarrow> (SnapshotTypeCheckpoint, prev) | Inr reverseDiff \<Rightarrow> (SnapshotTypeDiff, reverseDiff))
     | _ \<Rightarrow> None)"

definition createVersionSnapshot ::
  "merge_lib \<Rightarrow> string \<Rightarrow> audit_db \<Rightarrow> AuditEntry \<Rightarrow> AuditParams \<Rightarrow> int \<Rightarrow> go_error + audit_db" where
  "createVersionSnapshot lib newID d entry params version =
    (case snapshot_content lib params version of
       None \<Rightarrow> Inr d
     | Some (kind, content) \<Rightarrow>
       (case adb_snapshot_error d of
          Some e \<Rightarrow> Inl e
        | None \<Rightarrow>
          Inr (d\<lparr>adb_snapshots := adb_snapshots d @ [\<lparr>vs_ID = newID, vs_AuditEntryID = ae_ID entry, vs_ObjectType = ap_ObjectType params,
            vs_ObjectID = ap_ObjectID params, vs_Version = version, vs_SnapshotType = kind, vs_Data = content, vs_CreatedAt = adb_now d\<rparr>]\<rparr>)))"

definition new_entry :: "audit_db \<Rightarrow> string \<Rightarrow> AuditParams \<Rightarrow> int \<Rightarrow> AuditEntry" where
  "new_entry d newID params version =
    \<lparr>ae_ID = newID, ae_ThreatModelID = ap_ThreatModelID params, ae_ObjectType = ap_ObjectType params, ae_ObjectID = ap_ObjectID params,
     ae_Version = Some version, ae_ChangeType = ap_ChangeType params, ae_ActorEmail = aa_Email (ap_Actor params),
     ae_ActorProvider = aa_Provider (ap_Actor params), ae_ActorProviderID = aa_ProviderID (ap_Actor params),
     ae_ActorDisplayName = aa_DisplayName (ap_Actor params), ae_ChangeSummary = ap_ChangeSummary params, ae_CreatedAt = adb_now d\<rparr>"

definition record_in_transaction :: "merge_lib \<Rightarrow> string \<times> string \<Rightarrow> AuditParams \<Rightarrow> audit_db \<Rightarrow> go_error + audit_db" where
  "record_in_transaction lib ids params d =
    (case adb_read_error d of
       Some e \<Rightarrow> Inl (errorf_wrap ''failed to get max version: '' e)
     | None \<Rightarrow>
       (let version = nextVersion d (ap_ObjectType params) (ap_ObjectID params); entry = new_entry d (fst ids) params version in
        case adb_entry_error d of
          Some e \<Rightarrow> Inl (errorf_wrap ''failed to create audit entry: '' e)
        | None \<Rightarrow>
          (case createVersionSnapshot lib (snd ids) (d\<lparr>adb_entries := adb_entries d @ [entry]\<rparr>) entry params version of
             Inl e \<Rightarrow> Inl (errorf_wrap ''failed to create version snapshot: '' e)
           | Inr d' \<Rightarrow> Inr d')))"

definition RecordMutation :: "bool \<Rightarrow> merge_lib \<Rightarrow> string \<times> string \<Rightarrow> audit_db \<Rightarrow> AuditParams \<Rightarrow> audit_db \<times> go_error option" where
  "RecordMutation oracle lib ids d params =
    WithRetryableGormTransaction oracle DefaultRetryConfig (\<lambda>_. None) (\<lambda>_. record_in_transaction lib ids params) [] d"

text \<open>The tables after a mutation: both rows are there, or nothing has changed.\<close>

lemma RecordMutation_fst:
  "fst (RecordMutation oracle lib ids d params) = (case record_in_transaction lib ids params d of Inl e \<Rightarrow> d | Inr d' \<Rightarrow> d')"
  using transaction_outcome [of "oracle" DefaultRetryConfig "\<lambda>_. None" "\<lambda>_. record_in_transaction lib ids params" "[]" d]
  by (cases "record_in_transaction lib ids params d") (auto simp: RecordMutation_def split: if_splits)

subsection \<open>Reading a version back\<close>

definition gorm_missing :: go_error where
  "gorm_missing = sentinel_error GormErrRecordNotFound"

text \<open>The loop over the diffs between the checkpoint and the version asked for.\<close>

fun apply_diffs :: "merge_lib \<Rightarrow> string \<Rightarrow> VersionSnapshot list \<Rightarrow> go_error + string" where
  "apply_diffs lib state [] = Inr state"
| "apply_diffs lib state (d # ds) =
    (if vs_SnapshotType d = SnapshotTypeCheckpoint then apply_diffs lib (vs_Data d) ds
     else case ApplyDiff lib state (vs_Data d) of
       Inl e \<Rightarrow> Inl (errorf_wrap (''failed to apply diff at version '' @ string_of_int (vs_Version d) @ '': '') e)
     | Inr state' \<Rightarrow> apply_diffs lib state' ds)"

definition cannot_reconstruct :: "int \<Rightarrow> go_error" where
  "cannot_reconstruct v = errors_New (''cannot reconstruct version '' @ string_of_int v @ '': no checkpoint available'')"

definition reconstructFromCheckpoint :: "merge_lib \<Rightarrow> audit_db \<Rightarrow> string \<Rightarrow> string \<Rightarrow> int \<Rightarrow> go_error + string" where
  "reconstructFromCheckpoint lib d objectType objectID targetVersion =
    (let rows = filter (snapshot_of_object objectType objectID) (adb_snapshots d) in
     case (if adb_read_error d \<noteq> None then [] else
           sort_key vs_Version (filter (\<lambda>s. vs_SnapshotType s = SnapshotTypeCheckpoint \<and> targetVersion \<le> vs_Version s) rows)) of
       [] \<Rightarrow> Inl (cannot_reconstruct targetVersion)
     | checkpoint # _ \<Rightarrow>
       if vs_Version checkpoint = targetVersion then Inr (vs_Data checkpoint)
       else
       (case apply_diffs lib (vs_Data checkpoint)
           (rev (sort_key vs_Version (filter (\<lambda>s. targetVersion < vs_Version s \<and> vs_Version s < vs_Version checkpoint) rows))) of
          Inl e \<Rightarrow> Inl e
        | Inr state \<Rightarrow>
          (case find (\<lambda>s. vs_Version s = targetVersion) rows of
             Some target \<Rightarrow>
               if vs_SnapshotType target = SnapshotTypeDiff then
                 (case ApplyDiff lib state (vs_Data target) of
                    Inl e \<Rightarrow> Inl (errorf_wrap (''failed to apply target diff at version '' @ string_of_int targetVersion @ '': '') e)
                  | Inr state' \<Rightarrow> Inr state')
               else Inr state
           | None \<Rightarrow> Inr state)))"

definition GetSnapshot :: "merge_lib \<Rightarrow> audit_db \<Rightarrow> string \<Rightarrow> go_error + string" where
  "GetSnapshot lib d entryID =
    (case adb_read_error d of
       Some e \<Rightarrow> Inl (errorf_wrap ''failed to get audit entry: '' e)
     | None \<Rightarrow>
       (case find (\<lambda>e. ae_ID e = entryID) (adb_entries d) of
          None \<Rightarrow> Inl (errorf_wrap ''failed to get audit entry: '' gorm_missing)
        | Some entry \<Rightarrow>
          (case ae_Version entry of
             None \<Rightarrow> Inl (errors_New ''version snapshot has been pruned'')
           | Some targetVersion \<Rightarrow>
             (case find (\<lambda>s. vs_AuditEntryID s = entryID) (adb_snapshots d) of
                None \<Rightarrow> Inl (errors_New ''version snapshot has been pruned'')
              | Some target \<Rightarrow>
                if vs_SnapshotType target = SnapshotTypeCheckpoint then Inr (vs_Data target)
                else reconstructFromCheckpoint lib d (ae_ObjectType entry) (ae_ObjectID entry) targetVersion))))"

end
