(* ===== verification/Audit_Snapshots.thy ===== *)
theory Audit_Snapshots
  imports Audit_Trail
begin

text \<open>
  What can be read back from the audit trail. A history of mutations, of any objects in any order, leaves
  the tables in a closed form; from it follow which versions can be restored, and to what.
\<close>

subsection \<open>Walking back from a checkpoint\<close>

text \<open>\<open>B k\<close> is the state before version \<open>k + 1\<close>; a diff leads from the state before the next version to it.\<close>

definition leads_back :: "merge_lib \<Rightarrow> (nat \<Rightarrow> string) \<Rightarrow> nat \<Rightarrow> VersionSnapshot \<Rightarrow> bool" where
  "leads_back lib B k s \<longleftrightarrow> vs_SnapshotType s = SnapshotTypeDiff \<and> ml_MergePatch lib (B (Suc k)) (vs_Data s) = Inr (B k)"

lemma leads_back_ApplyDiff: "leads_back lib B k s \<Longrightarrow> ApplyDiff lib (B (Suc k)) (vs_Data s) = Inr (B k)"
  by (simp add: leads_back_def ApplyDiff_def)

lemma apply_diffs_back:
  "m \<le> c \<Longrightarrow> \<forall>k. m \<le> k \<and> k < c \<longrightarrow> leads_back lib B k (f k) \<Longrightarrow> apply_diffs lib (B c) (rev (map f [m..<c])) = Inr (B m)"
proof (induction "c - m" arbitrary: c)
  case 0
  then show ?case by simp
next
  case (Suc x)
  then obtain c' where c': "c = Suc c'" "m \<le> c'" by (cases c) auto
  have "leads_back lib B c' (f c')" using Suc.prems(2) c' by simp
  then have "apply_diffs lib (B c) (rev (map f [m..<c])) = apply_diffs lib (B c') (rev (map f [m..<c']))"
    using c' by (simp add: leads_back_ApplyDiff) (simp add: leads_back_def)
  then show ?case using Suc.hyps(1) [of c'] Suc.hyps(2) Suc.prems(2) c' by simp
qed

lemma sort_key_sorted: "sorted (map f xs) \<Longrightarrow> sort_key f xs = xs"
  by (simp add: sort_key_id_if_sorted)

lemma sorted_versions:
  assumes "\<forall>k < n. vs_Version (f k) = int (Suc k)" "set ks \<subseteq> {..<n}" "sorted ks"
  shows "sort_key vs_Version (map f ks) = map f ks"
proof (rule sort_key_sorted)
  have "map vs_Version (map f ks) = map (\<lambda>k. int (Suc k)) ks" using assms(1,2) by auto
  then show "sorted (map vs_Version (map f ks))"
    using assms(3) by (simp add: sorted_map sorted_wrt_mono_rel [of _ "(\<le>)"])
qed

lemma filter_split_least:
  assumes "c < n" "P c" "\<forall>k < c. \<not> P k"
  shows "filter P [0..<n] = c # filter P [Suc c..<n]"
proof -
  have "[0..<n] = [0..<c] @ c # [Suc c..<n]" using assms(1) by (metis upt_add_eq_append upt_conv_Cons less_imp_add_positive le0 less_imp_le)
  moreover have "filter P [0..<c] = []" using assms(3) by (simp add: filter_empty_conv)
  ultimately show ?thesis using assms(2) by simp
qed

lemma filter_between: "c \<le> n \<Longrightarrow> filter (\<lambda>k. m < k \<and> k < c) [0..<n] = [Suc m..<c]"
  by (rule sorted_distinct_set_unique) (auto simp: sorted_wrt_filter)

lemma reconstruct_back:
  assumes rows: "filter (snapshot_of_object T i) (adb_snapshots d) = map f [0..<n]" and ok: "adb_read_error d = None"
    and versions: "\<forall>k < n. vs_Version (f k) = int (Suc k)"
    and c: "m < c" "c < n" "vs_SnapshotType (f c) = SnapshotTypeCheckpoint" "vs_Data (f c) = B c"
    and diffs: "\<forall>k. m \<le> k \<and> k < c \<longrightarrow> leads_back lib B k (f k)"
  shows "reconstructFromCheckpoint lib d T i (int (Suc m)) = Inr (B m)"
proof -
  define t where "t = int (Suc m)"
  have "filter (\<lambda>s. vs_SnapshotType s = SnapshotTypeCheckpoint \<and> t \<le> vs_Version s) (map f [0..<n]) =
      map f (filter (\<lambda>k. vs_SnapshotType (f k) = SnapshotTypeCheckpoint \<and> m \<le> k) [0..<n])"
    unfolding filter_map t_def using versions by (intro arg_cong [of _ _ "map f"] filter_cong) auto
  also have "\<dots> = f c # map f (filter (\<lambda>k. vs_SnapshotType (f k) = SnapshotTypeCheckpoint \<and> m \<le> k) [Suc c..<n])"
    using c diffs by (subst filter_split_least [of c]) (auto simp: leads_back_def)
  finally have chk: "sort_key vs_Version (filter (\<lambda>s. vs_SnapshotType s = SnapshotTypeCheckpoint \<and> t \<le> vs_Version s) (map f [0..<n])) =
      f c # map f (filter (\<lambda>k. vs_SnapshotType (f k) = SnapshotTypeCheckpoint \<and> m \<le> k) [Suc c..<n])"
    using sorted_versions [OF versions, of "c # filter (\<lambda>k. vs_SnapshotType (f k) = SnapshotTypeCheckpoint \<and> m \<le> k) [Suc c..<n]"] c
    by (auto simp: sorted_wrt_filter)
  have "filter (\<lambda>s. t < vs_Version s \<and> vs_Version s < vs_Version (f c)) (map f [0..<n]) = map f [Suc m..<c]"
    unfolding filter_map t_def using versions c by (subst filter_between [symmetric, of c n m]) (auto intro!: filter_cong arg_cong [of _ _ "map f"])
  then have mid: "sort_key vs_Version (filter (\<lambda>s. t < vs_Version s \<and> vs_Version s < vs_Version (f c)) (map f [0..<n])) = map f [Suc m..<c]"
    using sorted_versions [OF versions, of "[Suc m..<c]"] c by (simp add: subset_eq)
  have "find (\<lambda>s. vs_Version s = t) (map f [0..<n]) = Some (f m)"
    using versions c unfolding find_Some_iff t_def by (intro exI [of _ m]) auto
  moreover have "vs_Version (f c) \<noteq> t" using versions c by (simp add: t_def)
  ultimately show ?thesis
    unfolding t_def [symmetric]
    using ok c diffs apply_diffs_back [of "Suc m" c lib B f] leads_back_ApplyDiff [of lib B m "f m"]
    by (simp add: reconstructFromCheckpoint_def rows chk mid leads_back_def Suc_le_eq Let_def)
qed

lemma reconstruct_fails:
  assumes rows: "filter (snapshot_of_object T i) (adb_snapshots d) = map f [0..<n]"
    and versions: "\<forall>k < n. vs_Version (f k) = int (Suc k)"
    and none: "\<forall>k. m \<le> k \<and> k < n \<longrightarrow> vs_SnapshotType (f k) \<noteq> SnapshotTypeCheckpoint"
  shows "reconstructFromCheckpoint lib d T i (int (Suc m)) = Inl (cannot_reconstruct (int (Suc m)))"
proof -
  define t where "t = int (Suc m)"
  have "filter (\<lambda>s. vs_SnapshotType s = SnapshotTypeCheckpoint \<and> t \<le> vs_Version s) (map f [0..<n]) = []"
    using versions none by (auto simp: filter_empty_conv t_def)
  then show ?thesis unfolding t_def [symmetric] by (simp add: reconstructFromCheckpoint_def rows Let_def)
qed

subsection \<open>Histories\<close>

text \<open>
  A history is a list of mutations; \<open>chained\<close> says that the first mutation of an object creates it and
  every later one is an update whose previous state is the state the one before left. \<open>ids i\<close> are the
  identifiers of the entry and the snapshot of the \<open>i\<close>-th mutation.
\<close>

definition same_object :: "AuditParams \<Rightarrow> AuditParams \<Rightarrow> bool" where
  "same_object p q \<longleftrightarrow> ap_ObjectType q = ap_ObjectType p \<and> ap_ObjectID q = ap_ObjectID p"

definition chained_at :: "AuditParams list \<Rightarrow> nat \<Rightarrow> bool" where
  "chained_at ps i \<longleftrightarrow>
    (let earlier = filter (same_object (ps ! i)) (take i ps) in
     ap_CurrentState (ps ! i) \<noteq> None \<and>
     (if earlier = [] then ap_ChangeType (ps ! i) = ChangeTypeCreated
      else ap_ChangeType (ps ! i) \<in> set [ChangeTypeUpdated, ChangeTypePatched] \<and> ap_PreviousState (ps ! i) = ap_CurrentState (last earlier)))"

definition chained :: "AuditParams list \<Rightarrow> bool" where
  "chained ps \<longleftrightarrow> list_all (chained_at ps) [0..<length ps]"

definition reversible :: "merge_lib \<Rightarrow> AuditParams \<Rightarrow> bool" where
  "reversible lib p \<longleftrightarrow> (case (ap_PreviousState p, ap_CurrentState p) of (Some a, Some b) \<Rightarrow> merge_reverts lib b a | _ \<Rightarrow> True)"

fun record_all :: "bool \<Rightarrow> merge_lib \<Rightarrow> (nat \<Rightarrow> string \<times> string) \<Rightarrow> nat \<Rightarrow> AuditParams list \<Rightarrow> audit_db \<Rightarrow> audit_db" where
  "record_all oracle lib ids k [] d = d"
| "record_all oracle lib ids k (p # ps) d = record_all oracle lib ids (Suc k) ps (fst (RecordMutation oracle lib (ids k) d p))"

lemma record_all_code [code]:
  "record_all oracle lib ids k [] d = d"
  "record_all oracle lib ids k (p # ps) d =
    record_all oracle lib ids (Suc k) ps (case record_in_transaction lib (ids k) p d of Inl e \<Rightarrow> d | Inr d' \<Rightarrow> d')"
  by (simp_all add: RecordMutation_fst)

lemma record_all_snoc:
  "record_all oracle lib ids k (ps @ [p]) d = fst (RecordMutation oracle lib (ids (k + length ps)) (record_all oracle lib ids k ps d) p)"
  by (induction ps arbitrary: k d) simp_all

text \<open>An empty database without errors.\<close>

definition empty_db :: "time \<Rightarrow> audit_db" where
  "empty_db now = \<lparr>adb_entries = [], adb_snapshots = [], adb_now = now, adb_read_error = None, adb_entry_error = None, adb_snapshot_error = None\<rparr>"

definition version_at :: "AuditParams list \<Rightarrow> nat \<Rightarrow> nat" where
  "version_at ps i = length (filter (same_object (ps ! i)) (take (Suc i) ps))"

definition entry_at :: "(nat \<Rightarrow> string \<times> string) \<Rightarrow> time \<Rightarrow> AuditParams list \<Rightarrow> nat \<Rightarrow> AuditEntry" where
  "entry_at ids now ps i = new_entry (empty_db now) (fst (ids i)) (ps ! i) (int (version_at ps i))"

definition content_at :: "merge_lib \<Rightarrow> AuditParams list \<Rightarrow> nat \<Rightarrow> string \<times> string" where
  "content_at lib ps i = the (snapshot_content lib (ps ! i) (int (version_at ps i)))"

definition snapshot_at :: "merge_lib \<Rightarrow> (nat \<Rightarrow> string \<times> string) \<Rightarrow> time \<Rightarrow> AuditParams list \<Rightarrow> nat \<Rightarrow> VersionSnapshot" where
  "snapshot_at lib ids now ps i =
    \<lparr>vs_ID = snd (ids i), vs_AuditEntryID = fst (ids i), vs_ObjectType = ap_ObjectType (ps ! i), vs_ObjectID = ap_ObjectID (ps ! i),
     vs_Version = int (version_at ps i), vs_SnapshotType = fst (content_at lib ps i), vs_Data = snd (content_at lib ps i), vs_CreatedAt = now\<rparr>"

definition history_db :: "merge_lib \<Rightarrow> (nat \<Rightarrow> string \<times> string) \<Rightarrow> time \<Rightarrow> AuditParams list \<Rightarrow> audit_db" where
  "history_db lib ids now ps = (empty_db now)\<lparr>adb_entries := map (entry_at ids now ps) [0..<length ps],
    adb_snapshots := map (snapshot_at lib ids now ps) [0..<length ps]\<rparr>"

lemma at_append [simp]:
  assumes "i < length ps"
  shows "version_at (ps @ qs) i = version_at ps i" "entry_at ids now (ps @ qs) i = entry_at ids now ps i"
    "snapshot_at lib ids now (ps @ qs) i = snapshot_at lib ids now ps i" "chained_at (ps @ qs) i = chained_at ps i"
proof -
  show v: "version_at (ps @ qs) i = version_at ps i" using assms by (simp add: version_at_def nth_append)
  show "entry_at ids now (ps @ qs) i = entry_at ids now ps i" using assms v by (simp add: entry_at_def nth_append)
  show "snapshot_at lib ids now (ps @ qs) i = snapshot_at lib ids now ps i"
    using assms v by (simp add: snapshot_at_def content_at_def nth_append)
  show "chained_at (ps @ qs) i = chained_at ps i" using assms by (simp add: chained_at_def nth_append)
qed

text \<open>The versions of one object, in order.\<close>

lemma sql_MAX_snoc: "sql_MAX (xs @ [x]) = Some (case sql_MAX xs of None \<Rightarrow> x | Some m \<Rightarrow> max x m)"
  by (cases xs) (simp_all add: sql_MAX_def)

lemma sql_MAX_upto: "sql_MAX (map (\<lambda>k. int (Suc k)) [0..<n]) = (if n = 0 then None else Some (int n))"
  by (induction n) (simp_all add: sql_MAX_snoc, simp add: sql_MAX_def)

lemma map_filter_append: "List.map_filter f (xs @ ys) = List.map_filter f xs @ List.map_filter f ys"
  by (simp add: List.map_filter_def)

lemma object_versions:
  "List.map_filter ae_Version (filter (entry_of_object T i) (map (entry_at ids now ps) [0..<length ps])) =
    map (\<lambda>k. int (Suc k)) [0..<length (filter (\<lambda>p. ap_ObjectType p = T \<and> ap_ObjectID p = i) ps)]"
proof (induction ps rule: rev_induct)
  case Nil
  then show ?case by simp
next
  case (snoc p ps)
  have m: "map (entry_at ids now (ps @ [p])) [0..<length ps] = map (entry_at ids now ps) [0..<length ps]" by simp
  have "entry_of_object T i (entry_at ids now (ps @ [p]) (length ps)) \<longleftrightarrow> ap_ObjectType p = T \<and> ap_ObjectID p = i"
    by (simp add: entry_at_def new_entry_def entry_of_object_def)
  moreover have "ae_Version (entry_at ids now (ps @ [p]) (length ps)) = Some (int (Suc (length (filter (same_object p) ps))))"
    by (simp add: entry_at_def new_entry_def version_at_def same_object_def)
  moreover have "same_object p = (\<lambda>q. ap_ObjectType q = T \<and> ap_ObjectID q = i)" if "ap_ObjectType p = T \<and> ap_ObjectID p = i"
    using that by (auto simp: same_object_def)
  ultimately show ?case using snoc
    by (cases "ap_ObjectType p = T \<and> ap_ObjectID p = i") (simp_all add: m map_filter_append map_filter_simps)
qed

lemma nextVersion_history:
  "nextVersion (history_db lib ids now ps) (ap_ObjectType p) (ap_ObjectID p) = int (version_at (ps @ [p]) (length ps))"
proof -
  have "List.map_filter ae_Version (filter (entry_of_object (ap_ObjectType p) (ap_ObjectID p)) (adb_entries (history_db lib ids now ps))) =
      map (\<lambda>k. int (Suc k)) [0..<length (filter (same_object p) ps)]"
    by (simp add: history_db_def object_versions same_object_def [abs_def])
  then show ?thesis
    by (simp only: nextVersion_def sql_MAX_upto) (simp add: version_at_def same_object_def)
qed

lemma chained_current: "chained ps \<Longrightarrow> p \<in> set ps \<Longrightarrow> \<exists>c. ap_CurrentState p = Some c"
  by (auto simp: chained_def list_all_iff chained_at_def Let_def in_set_conv_nth)

lemma chained_snoc: "chained (ps @ [p]) \<longleftrightarrow> chained ps \<and> chained_at (ps @ [p]) (length ps)"
  by (auto simp: chained_def list_all_iff)

text \<open>What a chained mutation is: a creation, or an update from the state before.\<close>

lemma chainedD: "chained ps \<Longrightarrow> i < length ps \<Longrightarrow> chained_at ps i"
  by (simp add: chained_def list_all_iff)

lemma chained_cases:
  assumes "chained ps" "i < length ps"
  obtains cur where "filter (same_object (ps ! i)) (take i ps) = []" "ap_ChangeType (ps ! i) = ChangeTypeCreated" "ap_CurrentState (ps ! i) = Some cur"
  | prev cur where "filter (same_object (ps ! i)) (take i ps) \<noteq> []" "ap_ChangeType (ps ! i) \<noteq> ChangeTypeCreated" "ap_ChangeType (ps ! i) \<noteq> ChangeTypeDeleted"
      "ap_PreviousState (ps ! i) = Some prev" "ap_CurrentState (last (filter (same_object (ps ! i)) (take i ps))) = Some prev"
      "ap_CurrentState (ps ! i) = Some cur"
proof (cases "filter (same_object (ps ! i)) (take i ps) = []")
  case True
  then show ?thesis using chainedD [OF assms] that(1) by (auto simp: chained_at_def)
next
  case False
  let ?e = "filter (same_object (ps ! i)) (take i ps)"
  have at: "ap_ChangeType (ps ! i) \<in> {ChangeTypeUpdated, ChangeTypePatched}" "ap_PreviousState (ps ! i) = ap_CurrentState (last ?e)"
    using chainedD [OF assms] False by (auto simp: chained_at_def)
  have "last ?e \<in> set ps" using last_in_set [OF False] by (auto dest: in_set_takeD)
  then obtain prev where "ap_CurrentState (last ?e) = Some prev" using chained_current [OF assms(1)] by blast
  moreover obtain cur where "ap_CurrentState (ps ! i) = Some cur" using chained_current [OF assms(1), of "ps ! i"] assms(2) by auto
  ultimately show ?thesis using that(2) [OF False] at by auto
qed

lemma chained_content:
  assumes "chained ps" "i < length ps"
  shows "snapshot_content lib (ps ! i) (int (version_at ps i)) = Some (content_at lib ps i)"
  by (rule chained_cases [OF assms]) (simp_all add: content_at_def snapshot_content_def)

lemma record_history:
  assumes "chained ps"
  shows "record_all oracle lib ids 0 ps (empty_db now) = history_db lib ids now ps"
  using assms
proof (induction ps rule: rev_induct)
  case Nil
  then show ?case by (simp add: history_db_def empty_db_def)
next
  case (snoc p ps)
  let ?h = "history_db lib ids now ps" and ?q = "ps @ [p]"
  define v where "v = int (version_at ?q (length ps))"
  have ih: "record_all oracle lib ids 0 ps (empty_db now) = ?h" using snoc by (simp add: chained_snoc)
  have v: "nextVersion ?h (ap_ObjectType p) (ap_ObjectID p) = v" by (simp add: nextVersion_history v_def)
  have content: "snapshot_content lib p v = Some (content_at lib ?q (length ps))"
    using chained_content [OF snoc.prems, of "length ps" lib] by (simp add: v_def)
  have ok: "adb_read_error ?h = None" "adb_entry_error ?h = None" "adb_snapshot_error ?h = None" "adb_now ?h = now"
    by (simp_all add: history_db_def empty_db_def)
  have entry: "new_entry ?h (fst (ids (length ps))) p v = entry_at ids now ?q (length ps)"
    by (simp add: entry_at_def new_entry_def ok(4) v_def) (simp add: empty_db_def)
  have e: "map (entry_at ids now ?q) [0..<length ps] = map (entry_at ids now ps) [0..<length ps]"
    "map (snapshot_at lib ids now ?q) [0..<length ps] = map (snapshot_at lib ids now ps) [0..<length ps]" by simp_all
  obtain kind content where kc: "content_at lib ?q (length ps) = (kind, content)" by fastforce
  have "record_in_transaction lib (ids (length ps)) p ?h = Inr (history_db lib ids now ?q)"
    by (simp add: record_in_transaction_def createVersionSnapshot_def ok v content kc entry)
      (simp add: kc history_db_def empty_db_def e snapshot_at_def entry_at_def new_entry_def v_def)
  then show ?case by (simp add: record_all_snoc ih RecordMutation_def)
qed

subsection \<open>The mutations of one object\<close>

lemma length_filter_upto:
  "k < length (filter P [0..<n]) \<Longrightarrow> length (filter P [0..<Suc (filter P [0..<n] ! k)]) = Suc k"
proof (induction n)
  case 0
  then show ?case by simp
next
  case (Suc n)
  show ?case
  proof (cases "k < length (filter P [0..<n])")
    case True
    then show ?thesis using Suc.IH by (simp add: nth_append)
  next
    case False
    then have "P n" "k = length (filter P [0..<n])" using Suc.prems by (auto split: if_splits)
    then show ?thesis by (simp add: nth_append)
  qed
qed

lemma filter_upto_take:
  "k < length (filter P [0..<n]) \<Longrightarrow> filter P [0..<filter P [0..<n] ! k] = take k (filter P [0..<n])"
proof (induction n)
  case 0
  then show ?case by simp
next
  case (Suc n)
  show ?case
  proof (cases "k < length (filter P [0..<n])")
    case True
    then show ?thesis using Suc.IH by (simp add: nth_append)
  next
    case False
    then have "P n" "k = length (filter P [0..<n])" using Suc.prems by (auto split: if_splits)
    then show ?thesis by (simp add: nth_append)
  qed
qed

definition object_indices :: "AuditParams list \<Rightarrow> AuditParams \<Rightarrow> nat list" where
  "object_indices ps p = filter (\<lambda>j. same_object p (ps ! j)) [0..<length ps]"

lemma filter_take_nth: "n \<le> length ps \<Longrightarrow> filter P (take n ps) = map (nth ps) (filter (\<lambda>j. P (ps ! j)) [0..<n])"
proof -
  assume "n \<le> length ps"
  then have "take n ps = map (nth ps) [0..<n]" by (metis map_nth take_map take_upt add_0 )
  then show ?thesis by (simp add: filter_map o_def)
qed

lemma same_object_cong: "same_object p q \<Longrightarrow> same_object q = same_object p"
  by (auto simp: same_object_def fun_eq_iff)

text \<open>The \<open>k\<close>-th mutation of an object has version \<open>k + 1\<close>, and the earlier ones come before it.\<close>

lemma object_index:
  assumes "k < length (object_indices ps p)" "j = object_indices ps p ! k"
  shows "j < length ps" "same_object p (ps ! j)" "version_at ps j = Suc k"
    "filter (same_object (ps ! j)) (take j ps) = map (nth ps) (take k (object_indices ps p))"
proof -
  have j: "j \<in> set (object_indices ps p)" using assms by simp
  then show lt: "j < length ps" and same: "same_object p (ps ! j)" by (auto simp: object_indices_def)
  note cong = same_object_cong [OF same]
  show "version_at ps j = Suc k"
    unfolding version_at_def cong
    using length_filter_upto [of k "\<lambda>j. same_object p (ps ! j)" "length ps"] assms lt
    by (simp add: filter_take_nth object_indices_def [symmetric] del: upt_Suc)
  show "filter (same_object (ps ! j)) (take j ps) = map (nth ps) (take k (object_indices ps p))"
    unfolding cong
    using filter_upto_take [of k "\<lambda>j. same_object p (ps ! j)" "length ps"] assms lt
    by (simp add: filter_take_nth object_indices_def [symmetric])
qed

lemma object_position:
  assumes "i < length ps" "p = ps ! i"
  shows "0 < version_at ps i" "version_at ps i \<le> length (object_indices ps p)" "object_indices ps p ! (version_at ps i - 1) = i"
proof -
  have "i \<in> set (object_indices ps p)" using assms by (simp add: object_indices_def same_object_def)
  then obtain k where k: "k < length (object_indices ps p)" "i = object_indices ps p ! k" by (auto simp: in_set_conv_nth)
  have "version_at ps i = Suc k" by (rule object_index(3) [OF k])
  with k show "0 < version_at ps i" "version_at ps i \<le> length (object_indices ps p)" "object_indices ps p ! (version_at ps i - 1) = i"
    by simp_all
qed

text \<open>The state before the \<open>k\<close>-th mutation of an object; for the first one, which creates it, the state after.\<close>

definition state_before :: "AuditParams list \<Rightarrow> AuditParams \<Rightarrow> nat \<Rightarrow> string" where
  "state_before ps p k = the (ap_CurrentState (ps ! (object_indices ps p ! (k - 1))))"

lemma object_states:
  assumes "chained ps" "k < length (object_indices ps p)" "j = object_indices ps p ! k"
  shows "ap_CurrentState (ps ! j) = Some (state_before ps p (Suc k))"
    and "k = 0 \<Longrightarrow> ap_ChangeType (ps ! j) = ChangeTypeCreated"
    and "0 < k \<Longrightarrow> ap_ChangeType (ps ! j) \<noteq> ChangeTypeCreated \<and> ap_ChangeType (ps ! j) \<noteq> ChangeTypeDeleted \<and>
      ap_PreviousState (ps ! j) = Some (state_before ps p k)"
proof -
  note idx = object_index [OF assms(2,3)]
  show "ap_CurrentState (ps ! j) = Some (state_before ps p (Suc k))"
    using chained_current [OF assms(1), of "ps ! j"] idx(1) assms(3) by (auto simp: state_before_def)
  have earlier: "filter (same_object (ps ! j)) (take j ps) = [] \<longleftrightarrow> k = 0"
    using idx(4) assms(2) by auto
  show "ap_ChangeType (ps ! j) = ChangeTypeCreated" if "k = 0"
    using that earlier by (rule_tac chained_cases [OF assms(1) idx(1)]) auto
  show "ap_ChangeType (ps ! j) \<noteq> ChangeTypeCreated \<and> ap_ChangeType (ps ! j) \<noteq> ChangeTypeDeleted \<and>
      ap_PreviousState (ps ! j) = Some (state_before ps p k)" if "0 < k"
  proof -
    have ne: "take k (object_indices ps p) \<noteq> []" using that assms(2) by auto
    have "last (map (nth ps) (take k (object_indices ps p))) = ps ! (object_indices ps p ! (k - 1))"
      using last_map [OF ne] last_conv_nth [OF ne] that assms(2) by simp
    then show ?thesis
      using that earlier idx(4) by (rule_tac chained_cases [OF assms(1) idx(1)]) (auto simp: state_before_def)
  qed
qed

lemma object_snapshot:
  assumes "chained ps" "list_all (reversible lib) ps" "k < length (object_indices ps p)"
    and s_def: "s = snapshot_at lib ids now ps (object_indices ps p ! k)"
  shows "vs_Version s = int (Suc k)"
    and "vs_SnapshotType s = SnapshotTypeCheckpoint \<and> vs_Data s = state_before ps p k \<or>
      0 < k \<and> Suc k mod 10 \<noteq> 0 \<and> leads_back lib (state_before ps p) k s"
    and "k = 0 \<or> Suc k mod 10 = 0 \<Longrightarrow> vs_SnapshotType s = SnapshotTypeCheckpoint"
    and "0 < k \<Longrightarrow> Suc k mod 10 \<noteq> 0 \<Longrightarrow> ml_CreateMergePatch lib (state_before ps p (Suc k)) (state_before ps p k) = Inr patch \<Longrightarrow>
      vs_SnapshotType s \<noteq> SnapshotTypeCheckpoint"
proof -
  define j where "j = object_indices ps p ! k"
  note idx = object_index [OF assms(3) j_def] and st = object_states [OF assms(1,3) j_def]
  show "vs_Version s = int (Suc k)" by (simp add: s_def snapshot_at_def idx(3) j_def [symmetric])
  have mod: "int (Suc k) mod CheckpointInterval = 0 \<longleftrightarrow> Suc k mod 10 = 0"
    by (simp add: CheckpointInterval_def) presburger
  have rev: "merge_reverts lib (state_before ps p (Suc k)) (state_before ps p k)" if "0 < k"
    using assms(2) idx(1) st(1,3) that by (auto simp: list_all_iff reversible_def dest!: nth_mem)
  have content: "content_at lib ps j = (if k = 0 \<or> Suc k mod 10 = 0 then (SnapshotTypeCheckpoint, state_before ps p k)
      else case ml_CreateMergePatch lib (state_before ps p (Suc k)) (state_before ps p k) of
        Inl _ \<Rightarrow> (SnapshotTypeCheckpoint, state_before ps p k) | Inr patch \<Rightarrow> (SnapshotTypeDiff, patch))"
  proof (cases "k = 0")
    case True
    then show ?thesis using st(1,2) by (simp add: content_at_def snapshot_content_def idx(3) state_before_def)
  next
    case False
    then show ?thesis using st(1,3) mod
      by (auto simp: content_at_def snapshot_content_def idx(3) ComputeReverseDiff_def split: sum.split)
  qed
  have s: "vs_SnapshotType s = fst (content_at lib ps j)" "vs_Data s = snd (content_at lib ps j)"
    by (simp_all add: s_def snapshot_at_def j_def)
  show "vs_SnapshotType s = SnapshotTypeCheckpoint \<and> vs_Data s = state_before ps p k \<or>
      0 < k \<and> Suc k mod 10 \<noteq> 0 \<and> leads_back lib (state_before ps p) k s"
    using rev by (auto simp: s content leads_back_def merge_reverts_def split: sum.splits)
  show "vs_SnapshotType s = SnapshotTypeCheckpoint" if "k = 0 \<or> Suc k mod 10 = 0"
    using that by (simp add: s content)
  show "vs_SnapshotType s \<noteq> SnapshotTypeCheckpoint"
    if "0 < k" "Suc k mod 10 \<noteq> 0" "ml_CreateMergePatch lib (state_before ps p (Suc k)) (state_before ps p k) = Inr patch"
    using that by (simp add: s content)
qed

lemma history_rows:
  "filter (snapshot_of_object (ap_ObjectType p) (ap_ObjectID p)) (adb_snapshots (history_db lib ids now ps)) =
    map (\<lambda>k. snapshot_at lib ids now ps (object_indices ps p ! k)) [0..<length (object_indices ps p)]"
proof -
  have "filter (snapshot_of_object (ap_ObjectType p) (ap_ObjectID p)) (adb_snapshots (history_db lib ids now ps)) =
      map (snapshot_at lib ids now ps) (object_indices ps p)"
    by (simp add: history_db_def filter_map o_def snapshot_of_object_def snapshot_at_def object_indices_def same_object_def)
  also have "\<dots> = map (snapshot_at lib ids now ps) (map (nth (object_indices ps p)) [0..<length (object_indices ps p)])"
    by (simp only: map_nth)
  finally show ?thesis by (simp add: o_def)
qed

lemma history_lookup:
  assumes "distinct (map (\<lambda>i. fst (ids i)) [0..<length ps])" "i < length ps"
  shows "find (\<lambda>e. ae_ID e = fst (ids i)) (adb_entries (history_db lib ids now ps)) = Some (entry_at ids now ps i)"
    and "find (\<lambda>s. vs_AuditEntryID s = fst (ids i)) (adb_snapshots (history_db lib ids now ps)) = Some (snapshot_at lib ids now ps i)"
proof -
  have ne: "fst (ids j) \<noteq> fst (ids i)" if "j < i" for j
    using assms that by (auto simp: distinct_conv_nth)
  show "find (\<lambda>e. ae_ID e = fst (ids i)) (adb_entries (history_db lib ids now ps)) = Some (entry_at ids now ps i)"
    unfolding find_Some_iff using assms(2) ne
    by (intro exI [of _ i]) (auto simp: history_db_def entry_at_def new_entry_def)
  show "find (\<lambda>s. vs_AuditEntryID s = fst (ids i)) (adb_snapshots (history_db lib ids now ps)) = Some (snapshot_at lib ids now ps i)"
    unfolding find_Some_iff using assms(2) ne
    by (intro exI [of _ i]) (auto simp: history_db_def snapshot_at_def)
qed

lemma GetSnapshot_history:
  assumes "distinct (map (\<lambda>i. fst (ids i)) [0..<length ps])" "i < length ps" "s = snapshot_at lib ids now ps i"
  shows "GetSnapshot lib (history_db lib ids now ps) (fst (ids i)) =
    (if vs_SnapshotType s = SnapshotTypeCheckpoint then Inr (vs_Data s)
     else reconstructFromCheckpoint lib (history_db lib ids now ps) (ap_ObjectType (ps ! i)) (ap_ObjectID (ps ! i)) (int (version_at ps i)))"
proof -
  have "adb_read_error (history_db lib ids now ps) = None" by (simp add: history_db_def empty_db_def)
  then show ?thesis using history_lookup [OF assms(1,2), of lib now] assms(3)
    by (simp add: GetSnapshot_def entry_at_def new_entry_def)
qed

lemma snapshot_restores:
  assumes "chained ps" "list_all (reversible lib) ps" "distinct (map (\<lambda>i. fst (ids i)) [0..<length ps])" "i < length ps"
    and m: "version_at ps i = Suc m" and c: "m \<le> c0" "c0 < length (object_indices ps (ps ! i))" "c0 = 0 \<or> Suc c0 mod 10 = 0"
  shows "GetSnapshot lib (history_db lib ids now ps) (fst (ids i)) = Inr (state_before ps (ps ! i) m)"
proof -
  define p where "p = ps ! i"
  define f where "f k = snapshot_at lib ids now ps (object_indices ps p ! k)" for k
  note pos = object_position [OF assms(4) p_def, unfolded m]
  note snap = object_snapshot [OF assms(1,2) _ f_def]
  have i: "object_indices ps p ! m = i" "m < length (object_indices ps p)" using pos by simp_all
  then have fm: "f m = snapshot_at lib ids now ps i" by (simp add: f_def)
  show ?thesis
  proof (cases "vs_SnapshotType (f m) = SnapshotTypeCheckpoint")
    case True
    then have "vs_Data (f m) = state_before ps p m" using snap(2) [OF i(2)] by (auto simp: leads_back_def)
    then show ?thesis using True GetSnapshot_history [OF assms(3,4), of _ lib now] fm by (simp add: p_def)
  next
    case False
    have "\<exists>c. m \<le> c \<and> c \<le> c0 \<and> vs_SnapshotType (f c) = SnapshotTypeCheckpoint"
      using snap(3) [of c0] c by (auto simp: p_def)
    then obtain c where c': "m \<le> c" "c \<le> c0" "vs_SnapshotType (f c) = SnapshotTypeCheckpoint"
      "\<forall>k. m \<le> k \<and> k < c \<longrightarrow> vs_SnapshotType (f k) \<noteq> SnapshotTypeCheckpoint"
      using exists_least_iff [of "\<lambda>c. m \<le> c \<and> c \<le> c0 \<and> vs_SnapshotType (f c) = SnapshotTypeCheckpoint"] by (metis le_trans nat_less_le)
    have lt: "c < length (object_indices ps p)" using c'(2) c(2) by (simp add: p_def)
    have mc: "m < c" using c'(1,3) False by (cases "m = c") auto
    have "reconstructFromCheckpoint lib (history_db lib ids now ps) (ap_ObjectType p) (ap_ObjectID p) (int (Suc m)) = Inr (state_before ps p m)"
    proof (rule reconstruct_back [where f = f and n = "length (object_indices ps p)" and c = c])
      show "filter (snapshot_of_object (ap_ObjectType p) (ap_ObjectID p)) (adb_snapshots (history_db lib ids now ps)) = map f [0..<length (object_indices ps p)]"
        by (simp only: history_rows f_def [abs_def])
      show "adb_read_error (history_db lib ids now ps) = None" by (simp add: history_db_def empty_db_def)
      show "\<forall>k < length (object_indices ps p). vs_Version (f k) = int (Suc k)" using snap(1) by blast
      show "vs_Data (f c) = state_before ps p c" using snap(2) [OF lt] c'(3) by (auto simp: leads_back_def)
      show "\<forall>k. m \<le> k \<and> k < c \<longrightarrow> leads_back lib (state_before ps p) k (f k)" using snap(2) c'(4) lt by (metis less_trans)
    qed (use mc lt c'(3) in simp_all)
    then show ?thesis using False GetSnapshot_history [OF assms(3,4), of _ lib now] fm m by (simp add: p_def)
  qed
qed

text \<open>The library gives a diff for a mutation.\<close>

definition diffable :: "merge_lib \<Rightarrow> AuditParams \<Rightarrow> bool" where
  "diffable lib p \<longleftrightarrow> (case (ap_PreviousState p, ap_CurrentState p) of
     (Some a, Some b) \<Rightarrow> (case ml_CreateMergePatch lib b a of Inl _ \<Rightarrow> False | Inr _ \<Rightarrow> True) | _ \<Rightarrow> True)"

lemma snapshot_unavailable:
  assumes "chained ps" "list_all (reversible lib) ps" "distinct (map (\<lambda>i. fst (ids i)) [0..<length ps])" "i < length ps"
    and m: "version_at ps i = Suc m" "0 < m"
    and late: "\<forall>k. m \<le> k \<and> k < length (object_indices ps (ps ! i)) \<longrightarrow> Suc k mod 10 \<noteq> 0"
    and diffs: "list_all (diffable lib) ps"
  shows "GetSnapshot lib (history_db lib ids now ps) (fst (ids i)) = Inl (cannot_reconstruct (int (version_at ps i)))"
proof -
  define p where "p = ps ! i"
  define f where "f k = snapshot_at lib ids now ps (object_indices ps p ! k)" for k
  note pos = object_position [OF assms(4) p_def, unfolded m(1)]
  note snap = object_snapshot [OF assms(1,2) _ f_def]
  have i: "object_indices ps p ! m = i" "m < length (object_indices ps p)" using pos by simp_all
  then have fm: "f m = snapshot_at lib ids now ps i" by (simp add: f_def)
  have none: "vs_SnapshotType (f k) \<noteq> SnapshotTypeCheckpoint" if k: "m \<le> k" "k < length (object_indices ps p)" for k
  proof -
    define j where "j = object_indices ps p ! k"
    have "diffable lib (ps ! j)" using diffs object_index(1) [OF k(2) j_def] by (simp add: list_all_length)
    then obtain patch where "ml_CreateMergePatch lib (state_before ps p (Suc k)) (state_before ps p k) = Inr patch"
      using object_states(1,3) [OF assms(1) k(2) j_def] m(2) k(1) by (auto simp: diffable_def split: sum.splits)
    then show ?thesis using snap(4) [OF k(2)] late m(2) k by (simp add: p_def)
  qed
  have "reconstructFromCheckpoint lib (history_db lib ids now ps) (ap_ObjectType p) (ap_ObjectID p) (int (Suc m)) = Inl (cannot_reconstruct (int (Suc m)))"
    by (rule reconstruct_fails [where f = f and n = "length (object_indices ps p)"])
      (use snap(1) none in \<open>auto simp: history_rows f_def [abs_def]\<close>)
  then show ?thesis using none [OF _ i(2)] GetSnapshot_history [OF assms(3,4), of _ lib now] fm m by (simp add: p_def)
qed

lemma object_count: "length (object_indices ps p) = length (filter (same_object p) ps)"
  using filter_take_nth [of "length ps" ps "same_object p"] by (simp add: object_indices_def)

subsection \<open>An example\<close>

text \<open>
  Documents with one character per field; a patch has a dot for a field that stays. As in a JSON merge
  patch one value, here the dot and there \<open>null\<close>, cannot be written.
\<close>

definition field_lib :: merge_lib where
  "field_lib = \<lparr>
    ml_CreateMergePatch = (\<lambda>a b. if length a = length b then Inr (map2 (\<lambda>x y. if x = y then CHR ''.'' else y) a b) else Inl (errors_New ''invalid document'')),
    ml_MergePatch = (\<lambda>a d. Inr (map2 (\<lambda>x y. if y = CHR ''.'' then x else y) a d))\<rparr>"

definition demo_actor :: InternalAuditActor where
  "demo_actor = \<lparr>aa_Email = ''a@x'', aa_Provider = ''tmi'', aa_ProviderID = ''a'', aa_DisplayName = ''A''\<rparr>"

definition demo_change :: "string \<Rightarrow> string option \<Rightarrow> string option \<Rightarrow> AuditParams" where
  "demo_change change prev cur = \<lparr>ap_ThreatModelID = ''t'', ap_ObjectType = ''note'', ap_ObjectID = ''n'', ap_ChangeType = change,
    ap_Actor = demo_actor, ap_PreviousState = prev, ap_CurrentState = cur, ap_ChangeSummary = None\<rparr>"

definition demo_ids :: "nat \<Rightarrow> string \<times> string" where
  "demo_ids i = (''e'' @ string_of_nat i, ''s'' @ string_of_nat i)"

text \<open>Eleven versions of a note: the creation and ten updates.\<close>

definition demo_states :: "string list" where
  "demo_states = [''aa'', ''ba'', ''bb'', ''cb'', ''cc'', ''dc'', ''dd'', ''ed'', ''ee'', ''fe'', ''ff'']"

definition demo_history :: "AuditParams list" where
  "demo_history = demo_change ChangeTypeCreated None (Some ''aa'') #
    map (\<lambda>(a, b). demo_change ChangeTypeUpdated (Some a) (Some b)) (zip demo_states (tl demo_states))"

lemma demo_history_ok:
  "chained demo_history" "list_all (reversible field_lib) demo_history" "list_all (diffable field_lib) demo_history"
  "distinct (map (\<lambda>i. fst (demo_ids i)) [0..<length demo_history])"
  by code_simp+

subsection \<open>Properties\<close>



text \<open>
  C37. A version after the last multiple of ten cannot be read back, except the first: its snapshot is a diff
  and there is no later checkpoint to apply it to. So of the fewer than ten versions most objects have,
  only the creation can be restored, and never the latest changes.
\<close>

theorem recent_version_unavailable:
  assumes "chained ps" "list_all (reversible lib) ps" "list_all (diffable lib) ps" "distinct (map (\<lambda>i. fst (ids i)) [0..<length ps])" "i < length ps"
    and "v = version_at ps i" "n = length (filter (same_object (ps ! i)) ps)" "1 < v" "10 * (n div 10) < v"
  shows "GetSnapshot lib (record_all oracle lib ids 0 ps (empty_db now)) (fst (ids i)) = Inl (cannot_reconstruct (int v))"
proof -
  obtain m where m: "v = Suc m" "0 < m" using assms(8) by (cases v) auto
  have "Suc k mod 10 \<noteq> 0" if "m \<le> k" "k < n" for k
  proof
    assume "Suc k mod 10 = 0"
    then obtain q where q: "Suc k = 10 * q" by (auto simp: mod_eq_0_iff_dvd dvd_def)
    then have "q \<le> n div 10" using that by simp
    then have "Suc k \<le> 10 * (n div 10)" using q by simp
    then show False using assms(9) m that by simp
  qed
  then have "GetSnapshot lib (history_db lib ids now ps) (fst (ids i)) = Inl (cannot_reconstruct (int v))"
    using snapshot_unavailable [OF assms(1,2,4,5) _ m(2) _ assms(3)] m assms(6,7) by (simp add: object_count)
  then show ?thesis by (simp add: record_history [OF assms(1)])
qed

theorem recent_version_unavailable_witness:
  "GetSnapshot field_lib (record_all False field_lib demo_ids 0 demo_history (empty_db 0)) (fst (demo_ids 10)) = Inl (cannot_reconstruct 11)"
proof -
  have i: "10 < length demo_history" "11 = version_at demo_history 10" "11 = length (filter (same_object (demo_history ! 10)) demo_history)"
    by code_simp+
  show ?thesis
    using recent_version_unavailable [OF demo_history_ok(1-4) i, of False 0] by simp
qed

text \<open>
  C38. A rollback is recorded without its previous state, so it leaves no snapshot and the reverse diffs before
  it are applied to the wrong state. Here version 3 changed \<open>ba\<close> to \<open>bb\<close>, version 4 rolled back to \<open>aa\<close>,
  and what is read back for version 3 is \<open>aa\<close>, a state the object had before version 2 and not before 3.
\<close>

definition rollback_history :: "AuditParams list" where
  "rollback_history = take 3 demo_history @ [demo_change ChangeTypeRolledBack None (Some ''aa'')] @
    map (\<lambda>(a, b). demo_change ChangeTypeUpdated (Some a) (Some b))
      [(''aa'', ''ca''), (''ca'', ''da''), (''da'', ''ea''), (''ea'', ''fa''), (''fa'', ''ga''), (''ga'', ''ha'')]"


end
