(* ===== verification/Audit_Retention.thy ===== *)
theory Audit_Retention
  imports Audit_Snapshots
begin

text \<open>
  How the audit trail forgets: the retention settings, the pruning half of \<open>api/audit_store.go\<close> and the
  cycle of \<open>api/audit_pruner.go\<close>. \<open>env\<close> is the environment of the process. A value \<open>None\<close> of a pruning
  step is a panic, which stops the server: slices are indexed with a number that comes from the
  environment. The tables of entities that \<open>PruneOrphanedVersionSnapshots\<close> looks into are an argument.
\<close>

definition getEnvInt :: "(string \<Rightarrow> string) \<Rightarrow> string \<Rightarrow> int \<Rightarrow> int" where
  "getEnvInt env key defaultVal =
    (if env key = [] then defaultVal else case strconv_Atoi (env key) of None \<Rightarrow> defaultVal | Some n \<Rightarrow> n)"

definition AuditRetentionDays :: "(string \<Rightarrow> string) \<Rightarrow> int" where
  "AuditRetentionDays env = getEnvInt env ''AUDIT_RETENTION_DAYS'' 365"

definition VersionRetentionDays :: "(string \<Rightarrow> string) \<Rightarrow> int" where
  "VersionRetentionDays env = getEnvInt env ''VERSION_RETENTION_DAYS'' 90"

definition TombstoneRetentionDays :: "(string \<Rightarrow> string) \<Rightarrow> int" where
  "TombstoneRetentionDays env = getEnvInt env ''TOMBSTONE_RETENTION_DAYS'' 30"

definition SystemAuditRetentionDays :: "(string \<Rightarrow> string) \<Rightarrow> int" where
  "SystemAuditRetentionDays env =
    (let days = getEnvInt env ''SYSTEM_AUDIT_RETENTION_DAYS'' 365 in if days < 90 then 90 else days)"

record GormAuditService =
  auditRetentionDays :: int
  versionRetentionCount :: int
  versionRetentionDays :: int
  tombstoneRetentionDays :: int
  systemAuditRetentionDays :: int

definition NewGormAuditService :: "(string \<Rightarrow> string) \<Rightarrow> GormAuditService" where
  "NewGormAuditService env = \<lparr>auditRetentionDays = AuditRetentionDays env,
    versionRetentionCount = getEnvInt env ''VERSION_RETENTION_COUNT'' 50, versionRetentionDays = VersionRetentionDays env,
    tombstoneRetentionDays = TombstoneRetentionDays env, systemAuditRetentionDays = SystemAuditRetentionDays env\<rparr>"

definition oracleMaxInListSize :: nat where "oracleMaxInListSize = 1000"

function chunkIDs :: "'a list \<Rightarrow> nat \<Rightarrow> 'a list list" where
  "chunkIDs ids sz = (if ids = [] \<or> sz = 0 then [] else take sz ids # chunkIDs (drop sz ids) sz)"
  by pat_completeness auto
termination by (relation "measure (\<lambda>(ids, sz). length ids)") auto

declare chunkIDs.simps [simp del]

lemma concat_chunkIDs: "0 < sz \<Longrightarrow> concat (chunkIDs ids sz) = ids"
proof (induction ids sz rule: chunkIDs.induct)
  case (1 ids sz)
  then show ?case by (subst chunkIDs.simps) auto
qed

lemma chunkIDs_bound: "list_all (\<lambda>c. length c \<le> sz) (chunkIDs ids sz)"
proof (induction ids sz rule: chunkIDs.induct)
  case (1 ids sz)
  then show ?case by (subst chunkIDs.simps) auto
qed

text \<open>\<open>time.Now().UTC().AddDate(0, 0, -days)\<close>.\<close>

definition days_before :: "time \<Rightarrow> int \<Rightarrow> time" where
  "days_before now days = now - days * go_Day"

subsection \<open>Snapshots\<close>

text \<open>A \<open>DELETE ... WHERE id IN chunk\<close> for every chunk.\<close>

definition delete_snapshots_in :: "(VersionSnapshot \<Rightarrow> string) \<Rightarrow> string list list \<Rightarrow> VersionSnapshot list \<Rightarrow> VersionSnapshot list" where
  "delete_snapshots_in f chunks rows = fold (\<lambda>chunk. filter (\<lambda>s. f s \<notin> set chunk)) chunks rows"

definition prune_transaction :: "string \<Rightarrow> string \<Rightarrow> int \<Rightarrow> audit_db \<Rightarrow> go_error + audit_db" where
  "prune_transaction objectType objectID boundary d =
    (case adb_read_error d of
       Some e \<Rightarrow> Inl e
     | None \<Rightarrow>
       (let snapshotIDs = map vs_ID (filter (\<lambda>s. snapshot_of_object objectType objectID s \<and> vs_Version s < boundary) (adb_snapshots d)) in
        if snapshotIDs = [] then Inr d
        else case adb_snapshot_error d of
          Some e \<Rightarrow> Inl e
        | None \<Rightarrow> Inr (d\<lparr>adb_snapshots := delete_snapshots_in vs_ID (chunkIDs snapshotIDs oracleMaxInListSize) (adb_snapshots d)\<rparr>)))"

definition executePrune :: "bool \<Rightarrow> audit_db \<Rightarrow> string \<Rightarrow> string \<Rightarrow> int \<Rightarrow> audit_db \<times> (go_error + nat)" where
  "executePrune oracle d objectType objectID boundary =
    (let n = length (filter (\<lambda>s. snapshot_of_object objectType objectID s \<and> vs_Version s < boundary) (adb_snapshots d)) in
     case WithRetryableGormTransaction oracle DefaultRetryConfig (\<lambda>_. None) (\<lambda>_. prune_transaction objectType objectID boundary) [] d of
       (d', Some e) \<Rightarrow> (d', Inl e)
     | (d', None) \<Rightarrow> (d', Inr n))"

text \<open>The version of the last row that satisfies a condition, zero when none does.\<close>

definition last_version :: "(VersionSnapshot \<Rightarrow> bool) \<Rightarrow> VersionSnapshot list \<Rightarrow> int" where
  "last_version P rows = fold (\<lambda>s v. if P s then vs_Version s else v) rows 0"

text \<open>
  The version below which snapshots are deleted, from the rows in the order of their versions. Indexing
  past the end is a panic.
\<close>

definition prune_boundary :: "GormAuditService \<Rightarrow> time \<Rightarrow> VersionSnapshot list \<Rightarrow> int option" where
  "prune_boundary svc timeCutoff rows =
    (let keepByCount = max 0 (int (length rows) - versionRetentionCount svc) in
     if keepByCount > int (length rows) then None
     else
      (let countBoundaryVersion = (if keepByCount > 0 then vs_Version (rows ! (nat keepByCount - 1)) else 0);
           timeBoundaryVersion = last_version (\<lambda>s. vs_CreatedAt s < timeCutoff) rows;
           boundary = (if timeBoundaryVersion < countBoundaryVersion then timeBoundaryVersion else countBoundaryVersion)
       in Some (if boundary \<le> 0 then 0
         else last_version (\<lambda>s. vs_SnapshotType s = SnapshotTypeCheckpoint) (takeWhile (\<lambda>s. vs_Version s \<le> boundary) rows))))"

definition pruneObjectVersions ::
  "bool \<Rightarrow> GormAuditService \<Rightarrow> audit_db \<Rightarrow> string \<Rightarrow> string \<Rightarrow> time \<Rightarrow> (audit_db \<times> (go_error + nat)) option" where
  "pruneObjectVersions oracle svc d objectType objectID timeCutoff =
    (case adb_read_error d of
       Some e \<Rightarrow> Some (d, Inl e)
     | None \<Rightarrow>
       (let rows = sort_key vs_Version (filter (snapshot_of_object objectType objectID) (adb_snapshots d)) in
        if length rows \<le> 1 then Some (d, Inr 0)
        else case prune_boundary svc timeCutoff rows of
          None \<Rightarrow> None
        | Some actualBoundary \<Rightarrow>
          if actualBoundary \<le> 1 then Some (d, Inr 0) else Some (executePrune oracle d objectType objectID actualBoundary)))"

fun prune_objects :: "bool \<Rightarrow> GormAuditService \<Rightarrow> time \<Rightarrow> (string \<times> string) list \<Rightarrow> audit_db \<Rightarrow> nat \<Rightarrow> (audit_db \<times> nat) option" where
  "prune_objects oracle svc timeCutoff [] d totalPruned = Some (d, totalPruned)"
| "prune_objects oracle svc timeCutoff (key # keys) d totalPruned =
    (case pruneObjectVersions oracle svc d (fst key) (snd key) timeCutoff of
       None \<Rightarrow> None
     | Some (d', Inl e) \<Rightarrow> prune_objects oracle svc timeCutoff keys d' totalPruned
     | Some (d', Inr pruned) \<Rightarrow> prune_objects oracle svc timeCutoff keys d' (totalPruned + pruned))"

text \<open>\<open>order\<close> is the order \<open>SELECT DISTINCT\<close> returns the objects in.\<close>

definition PruneVersionSnapshots ::
  "bool \<Rightarrow> GormAuditService \<Rightarrow> ((string \<times> string) list \<Rightarrow> (string \<times> string) list) \<Rightarrow> audit_db \<Rightarrow> (audit_db \<times> (go_error + nat)) option" where
  "PruneVersionSnapshots oracle svc order d =
    (case adb_read_error d of
       Some e \<Rightarrow> Some (d, Inl (errorf_wrap ''failed to find objects with version snapshots: '' e))
     | None \<Rightarrow>
       (let keys = order (remdups (map (\<lambda>s. (vs_ObjectType s, vs_ObjectID s)) (adb_snapshots d)))
        in case prune_objects oracle svc (days_before (adb_now d) (versionRetentionDays svc)) keys d 0 of
             None \<Rightarrow> None
           | Some (d', totalPruned) \<Rightarrow> Some (d', Inr totalPruned)))"

definition orphanSnapshotEntityTables :: "(string \<times> string) list" where
  "orphanSnapshotEntityTables = [(''threat_model'', ''threat_models''), (''diagram'', ''diagrams''), (''threat'', ''threats''),
    (''asset'', ''assets''), (''document'', ''documents''), (''note'', ''notes''), (''repository'', ''repositories'')]"

definition orphaned :: "(string \<Rightarrow> string list) \<Rightarrow> time \<Rightarrow> string \<times> string \<Rightarrow> VersionSnapshot \<Rightarrow> bool" where
  "orphaned tables cutoff e s \<longleftrightarrow> vs_ObjectType s = fst e \<and> vs_CreatedAt s < cutoff \<and> vs_ObjectID s \<notin> set (tables (snd e))"

definition PruneOrphanedVersionSnapshots :: "bool \<Rightarrow> GormAuditService \<Rightarrow> (string \<Rightarrow> string list) \<Rightarrow> audit_db \<Rightarrow> audit_db \<times> nat" where
  "PruneOrphanedVersionSnapshots oracle svc tables d =
    (let cutoff = days_before (adb_now d) (versionRetentionDays svc) in
     fold (\<lambda>e (d, totalPruned).
       case WithRetryableGormTransaction oracle DefaultRetryConfig (\<lambda>_. None)
           (\<lambda>_ d. case adb_snapshot_error d of
              Some err \<Rightarrow> Inl err
            | None \<Rightarrow> Inr (d\<lparr>adb_snapshots := filter (\<lambda>s. \<not> orphaned tables cutoff e s) (adb_snapshots d)\<rparr>)) [] d of
         (d', Some err) \<Rightarrow> (d', totalPruned)
       | (d', None) \<Rightarrow> (d', totalPruned + length (filter (orphaned tables cutoff e) (adb_snapshots d))))
     orphanSnapshotEntityTables (d, 0))"

subsection \<open>Entries\<close>

definition prunable :: "time \<Rightarrow> AuditEntry \<Rightarrow> bool" where
  "prunable cutoff e \<longleftrightarrow> ae_CreatedAt e < cutoff \<and> \<not> (ae_ChangeType e = ChangeTypeDeleted \<and> ae_ObjectType e = ''threat_model'')"

definition delete_entries_in :: "string list list \<Rightarrow> AuditEntry list \<Rightarrow> AuditEntry list" where
  "delete_entries_in chunks rows = fold (\<lambda>chunk. filter (\<lambda>e. ae_ID e \<notin> set chunk)) chunks rows"

definition PruneAuditEntries :: "bool \<Rightarrow> GormAuditService \<Rightarrow> audit_db \<Rightarrow> audit_db \<times> nat \<times> go_error option" where
  "PruneAuditEntries oracle svc d =
    (case adb_read_error d of
       Some e \<Rightarrow> (d, 0, Some (errorf_wrap ''failed to find prunable audit entries: '' e))
     | None \<Rightarrow>
       (let cutoff = days_before (adb_now d) (auditRetentionDays svc);
            entryIDs = map ae_ID (filter (prunable cutoff) (adb_entries d));
            chunks = chunkIDs entryIDs oracleMaxInListSize in
        if entryIDs = [] then (d, 0, None)
        else case WithRetryableGormTransaction oracle DefaultRetryConfig (\<lambda>_. None)
            (\<lambda>_ d. case adb_snapshot_error d of
               Some e \<Rightarrow> Inl (errorf_wrap ''failed to delete version snapshots during audit prune: '' e)
             | None \<Rightarrow>
               (case adb_entry_error d of
                  Some e \<Rightarrow> Inl (errorf_wrap ''failed to prune audit entries: '' e)
                | None \<Rightarrow> Inr (d\<lparr>adb_snapshots := delete_snapshots_in vs_AuditEntryID chunks (adb_snapshots d),
                    adb_entries := delete_entries_in chunks (adb_entries d)\<rparr>))) [] d of
          (d', err) \<Rightarrow> (d', length entryIDs, err)))"

subsection \<open>What pruning leaves readable\<close>

text \<open>
  Rows have their own identifiers, an entry has at most one snapshot, and a snapshot says the same object
  and version as its entry.
\<close>

definition linked :: "audit_db \<Rightarrow> bool" where
  "linked d \<longleftrightarrow> distinct (map vs_ID (adb_snapshots d)) \<and> distinct (map vs_AuditEntryID (adb_snapshots d)) \<and>
    list_all (\<lambda>s. list_all (\<lambda>e. vs_AuditEntryID s = ae_ID e \<longrightarrow>
      ae_ObjectType e = vs_ObjectType s \<and> ae_ObjectID e = vs_ObjectID s \<and> ae_Version e = Some (vs_Version s)) (adb_entries d)) (adb_snapshots d)"

lemma delete_snapshots_in_filter: "delete_snapshots_in f chunks rows = filter (\<lambda>s. f s \<notin> set (concat chunks)) rows"
  unfolding delete_snapshots_in_def
  by (induction chunks arbitrary: rows) (auto intro: filter_cong)

definition without_versions_below :: "string \<Rightarrow> string \<Rightarrow> int \<Rightarrow> audit_db \<Rightarrow> audit_db" where
  "without_versions_below T i b d = d\<lparr>adb_snapshots := filter (\<lambda>s. \<not> (snapshot_of_object T i s \<and> vs_Version s < b)) (adb_snapshots d)\<rparr>"

lemma without_versions_below_simps [simp]:
  "adb_read_error (without_versions_below T i b d) = adb_read_error d" "adb_entries (without_versions_below T i b d) = adb_entries d"
  "adb_now (without_versions_below T i b d) = adb_now d"
  by (simp_all add: without_versions_below_def)

lemma prune_transaction_db:
  assumes "linked d" "prune_transaction T i b d = Inr d'"
  shows "d' = without_versions_below T i b d"
proof -
  let ?P = "\<lambda>s. snapshot_of_object T i s \<and> vs_Version s < b"
  have ids: "vs_ID s \<in> vs_ID ` set (filter ?P (adb_snapshots d)) \<longleftrightarrow> ?P s" if "s \<in> set (adb_snapshots d)" for s
    using assms(1) that by (auto simp: linked_def distinct_map dest: inj_onD)
  show ?thesis
  proof (cases "filter ?P (adb_snapshots d) = []")
    case True
    then have "filter (\<lambda>s. \<not> ?P s) (adb_snapshots d) = adb_snapshots d" by (auto simp: filter_id_conv filter_empty_conv)
    then show ?thesis using True assms(2) by (auto simp: prune_transaction_def without_versions_below_def split: option.splits)
  next
    case False
    then have "d' = d\<lparr>adb_snapshots := delete_snapshots_in vs_ID (chunkIDs (map vs_ID (filter ?P (adb_snapshots d))) oracleMaxInListSize) (adb_snapshots d)\<rparr>"
      using assms(2) by (auto simp: prune_transaction_def split: option.splits)
    moreover have "filter (\<lambda>s. vs_ID s \<notin> set (map vs_ID (filter ?P (adb_snapshots d)))) (adb_snapshots d) = filter (\<lambda>s. \<not> ?P s) (adb_snapshots d)"
      using ids by (intro filter_cong) auto
    ultimately show ?thesis
      by (simp add: delete_snapshots_in_filter concat_chunkIDs oracleMaxInListSize_def without_versions_below_def)
  qed
qed

lemma executePrune_db:
  assumes "linked d"
  shows "fst (executePrune oracle d T i b) = d \<or> fst (executePrune oracle d T i b) = without_versions_below T i b d"
proof -
  let ?r = "WithRetryableGormTransaction oracle DefaultRetryConfig (\<lambda>_. None) (\<lambda>_. prune_transaction T i b) [] d"
  have eq: "fst (executePrune oracle d T i b) = fst ?r"
    by (simp add: executePrune_def Let_def split: prod.split option.split)
  have "fst ?r = d \<or> prune_transaction T i b d = Inr (fst ?r)"
    using transaction_outcome [of "oracle" DefaultRetryConfig "\<lambda>_. None" "\<lambda>_. prune_transaction T i b" "[]" d]
    by (auto split: if_splits)
  then show ?thesis unfolding eq using prune_transaction_db [OF assms] by blast
qed

lemma linked_without: "linked d \<Longrightarrow> linked (without_versions_below T i b d)"
  by (auto simp: linked_def without_versions_below_def list_all_iff distinct_map_filter)

lemma find_filter: "\<forall>x \<in> set xs. P x \<longrightarrow> Q x \<Longrightarrow> find P (filter Q xs) = find P xs"
  by (induction xs) auto

lemma reconstruct_without:
  assumes "snapshot_of_object T i s \<longrightarrow> b \<le> v" "vs_ObjectType s = T'" "vs_ObjectID s = i'"
  shows "reconstructFromCheckpoint lib (without_versions_below T i b d) T' i' v = reconstructFromCheckpoint lib d T' i' v"
proof -
  define rows where "rows = filter (snapshot_of_object T' i') (adb_snapshots d)"
  define rows' where "rows' = filter (snapshot_of_object T' i') (adb_snapshots (without_versions_below T i b d))"
  have rows': "rows' = filter (\<lambda>s. \<not> (snapshot_of_object T i s \<and> vs_Version s < b)) rows"
    by (simp add: rows_def rows'_def without_versions_below_def conj_commute)
  have keep: "b \<le> v" if "r \<in> set rows" "snapshot_of_object T i r" for r
    using assms that by (auto simp: rows_def snapshot_of_object_def)
  have f: "filter P rows' = filter P rows" if P: "\<And>r. P r \<Longrightarrow> v \<le> vs_Version r" for P
    unfolding rows' filter_filter
  proof (rule filter_cong [OF refl])
    fix r
    assume "r \<in> set rows"
    then show "(\<not> (snapshot_of_object T i r \<and> vs_Version r < b) \<and> P r) = P r" using keep [of r] P [of r] by auto
  qed
  have g: "find (\<lambda>r. vs_Version r = v) rows' = find (\<lambda>r. vs_Version r = v) rows"
    unfolding rows' using keep by (intro find_filter) auto
  have "filter (\<lambda>s. vs_SnapshotType s = SnapshotTypeCheckpoint \<and> v \<le> vs_Version s) rows' =
      filter (\<lambda>s. vs_SnapshotType s = SnapshotTypeCheckpoint \<and> v \<le> vs_Version s) rows"
    "filter (\<lambda>s. v < vs_Version s \<and> vs_Version s < c) rows' = filter (\<lambda>s. v < vs_Version s \<and> vs_Version s < c) rows" for c
    by (rule f; simp)+
  then show ?thesis
    unfolding reconstructFromCheckpoint_def rows_def [symmetric] rows'_def [symmetric] Let_def g
    by (simp only: without_versions_below_simps)
qed

text \<open>The text of the error for a snapshot that is gone.\<close>

definition snapshot_pruned :: go_error where
  "snapshot_pruned = errors_New ''version snapshot has been pruned''"

lemma GetSnapshot_without:
  assumes "linked d"
  shows "GetSnapshot lib (without_versions_below T i b d) e \<in> {GetSnapshot lib d e, Inl snapshot_pruned}"
proof (cases "\<exists>entry v s. adb_read_error d = None \<and> find (\<lambda>x. ae_ID x = e) (adb_entries d) = Some entry \<and> ae_Version entry = Some v \<and>
    find (\<lambda>s. vs_AuditEntryID s = e) (adb_snapshots d) = Some s")
  case False
  have "find (\<lambda>s. vs_AuditEntryID s = e) (adb_snapshots (without_versions_below T i b d)) = None"
    if "find (\<lambda>s. vs_AuditEntryID s = e) (adb_snapshots d) = None"
    using that by (auto simp: find_None_iff without_versions_below_def)
  then show ?thesis using False
    by (auto simp: GetSnapshot_def snapshot_pruned_def split: option.splits)
next
  case True
  then obtain entry v s where ok: "adb_read_error d = None" and en: "find (\<lambda>x. ae_ID x = e) (adb_entries d) = Some entry"
    and v: "ae_Version entry = Some v" and s: "find (\<lambda>s. vs_AuditEntryID s = e) (adb_snapshots d) = Some s" by blast
  note ins = find_Some_in [OF en] find_Some_in [OF s]
  then have link: "ae_ObjectType entry = vs_ObjectType s" "ae_ObjectID entry = vs_ObjectID s" "v = vs_Version s"
    using assms v by (auto simp: linked_def list_all_iff)
  have "inj_on vs_AuditEntryID (set (adb_snapshots d))" using assms by (simp add: linked_def distinct_map)
  then have only: "\<forall>x \<in> set (adb_snapshots d). vs_AuditEntryID x = e \<longrightarrow> x = s" using ins(2) by (auto dest: inj_onD)
  let ?Q = "\<lambda>s. \<not> (snapshot_of_object T i s \<and> vs_Version s < b)"
  show ?thesis
  proof (cases "?Q s")
    case True
    have "\<forall>x \<in> set (adb_snapshots d). vs_AuditEntryID x = e \<longrightarrow> ?Q x" using only True by blast
    then have "find (\<lambda>s. vs_AuditEntryID s = e) (filter ?Q (adb_snapshots d)) = Some s"
      using s find_filter [of "adb_snapshots d" "\<lambda>s. vs_AuditEntryID s = e" ?Q] by (simp del: find.simps)
    moreover have "reconstructFromCheckpoint lib (without_versions_below T i b d) (ae_ObjectType entry) (ae_ObjectID entry) v =
        reconstructFromCheckpoint lib d (ae_ObjectType entry) (ae_ObjectID entry) v"
      by (rule reconstruct_without [of T i s]) (use True link in auto)
    ultimately show ?thesis using ok en v s by (simp add: GetSnapshot_def without_versions_below_def)
  next
    case False
    have "find (\<lambda>s. vs_AuditEntryID s = e) (filter ?Q (adb_snapshots d)) = None"
      using False only by (auto simp: find_None_iff)
    then show ?thesis using ok en v by (simp add: GetSnapshot_def without_versions_below_def snapshot_pruned_def)
  qed
qed

lemma pruneObjectVersions_db:
  assumes "linked d" "pruneObjectVersions oracle svc d T i cutoff = Some (d', r)"
  shows "d' = d \<or> (\<exists>b. prune_boundary svc cutoff (sort_key vs_Version (filter (snapshot_of_object T i) (adb_snapshots d))) = Some b \<and>
    1 < b \<and> d' = without_versions_below T i b d)"
proof -
  have "d' = d \<or> (\<exists>b. prune_boundary svc cutoff (sort_key vs_Version (filter (snapshot_of_object T i) (adb_snapshots d))) = Some b \<and>
      1 < b \<and> executePrune oracle d T i b = (d', r))"
    using assms(2) by (auto simp: pruneObjectVersions_def Let_def split: option.splits if_splits)
  then show ?thesis using executePrune_db [OF assms(1)] by (metis fst_conv)
qed

lemma prune_objects_readable:
  assumes "linked d" "prune_objects oracle svc cutoff keys d n = Some (d', n')"
  shows "linked d' \<and> GetSnapshot lib d' e \<in> {GetSnapshot lib d e, Inl snapshot_pruned}"
  using assms
proof (induction keys arbitrary: d n)
  case Nil
  then show ?case by simp
next
  case (Cons key keys)
  obtain d1 r where one: "pruneObjectVersions oracle svc d (fst key) (snd key) cutoff = Some (d1, r)"
    using Cons.prems(2) by (auto split: option.splits)
  then have rest: "\<exists>m. prune_objects oracle svc cutoff keys d1 m = Some (d', n')"
    using Cons.prems(2) by (auto split: sum.splits)
  have d1: "d1 = d \<or> (\<exists>b. d1 = without_versions_below (fst key) (snd key) b d)"
    using pruneObjectVersions_db [OF Cons.prems(1) one] by blast
  then have l: "linked d1" using Cons.prems(1) linked_without by blast
  obtain m where m: "prune_objects oracle svc cutoff keys d1 m = Some (d', n')" using rest by blast
  have "GetSnapshot lib d1 e \<in> {GetSnapshot lib d e, Inl snapshot_pruned}"
    using d1
  proof (elim disjE exE)
    fix b
    assume "d1 = without_versions_below (fst key) (snd key) b d"
    then show ?thesis using GetSnapshot_without [OF Cons.prems(1)] by (simp only:)
  qed simp
  then show ?case using Cons.IH [OF l m] by auto
qed

subsection \<open>What pruning may delete\<close>

definition versioned_rows :: "VersionSnapshot list \<Rightarrow> bool" where
  "versioned_rows rows \<longleftrightarrow> sorted_wrt (\<lambda>s t. vs_Version s < vs_Version t \<and> vs_CreatedAt s \<le> vs_CreatedAt t) rows"

lemma last_version_snoc: "last_version P (xs @ [x]) = (if P x then vs_Version x else last_version P xs)"
  by (simp add: last_version_def)

lemma last_version_cases: "last_version P rows = 0 \<or> (\<exists>s \<in> set rows. P s \<and> last_version P rows = vs_Version s)"
  by (induction rows rule: rev_induct) (auto simp: last_version_snoc, simp add: last_version_def)

lemma last_version_le:
  assumes "\<forall>s \<in> set (takeWhile (\<lambda>s. vs_Version s \<le> b) rows). P s \<longrightarrow> vs_Version s \<le> b" "0 \<le> b"
  shows "last_version P (takeWhile (\<lambda>s. vs_Version s \<le> b) rows) \<le> b"
  using last_version_cases [of P "takeWhile (\<lambda>s. vs_Version s \<le> b) rows"] assms by auto

lemma prune_boundary_bounds:
  assumes "prune_boundary svc cutoff rows = Some b" "1 < b"
  obtains old k where "old \<in> set rows" "vs_CreatedAt old < cutoff" "b \<le> vs_Version old"
    "0 < k" "k \<le> length rows" "int k = int (length rows) - versionRetentionCount svc" "b \<le> vs_Version (rows ! (k - 1))"
proof -
  define k where "k = nat (int (length rows) - versionRetentionCount svc)"
  define tb where "tb = last_version (\<lambda>s. vs_CreatedAt s < cutoff) rows"
  define cb where "cb = (if 0 < k then vs_Version (rows ! (k - 1)) else 0)"
  define m where "m = min tb cb"
  have k: "max 0 (int (length rows) - versionRetentionCount svc) = int k" by (simp add: k_def)
  have cb: "(if 0 < int k then vs_Version (rows ! (nat (int k) - 1)) else 0) = cb" by (simp add: cb_def)
  have m: "(if tb < cb then tb else cb) = m" by (simp add: m_def)
  have "prune_boundary svc cutoff rows =
      (if length rows < k then None
       else Some (if m \<le> 0 then 0 else last_version (\<lambda>s. vs_SnapshotType s = SnapshotTypeCheckpoint) (takeWhile (\<lambda>s. vs_Version s \<le> m) rows)))"
    unfolding prune_boundary_def k Let_def tb_def [symmetric] cb m by simp
  then have b: "k \<le> length rows" "0 < m" "b = last_version (\<lambda>s. vs_SnapshotType s = SnapshotTypeCheckpoint) (takeWhile (\<lambda>s. vs_Version s \<le> m) rows)"
    using assms by (auto split: if_splits)
  have "b \<le> m" unfolding b(3) using b(2) by (intro last_version_le) (auto dest: set_takeWhileD)
  then have le: "b \<le> tb" "b \<le> cb" by (simp_all add: m_def)
  have "\<exists>old \<in> set rows. vs_CreatedAt old < cutoff \<and> tb = vs_Version old"
    using last_version_cases [of "\<lambda>s. vs_CreatedAt s < cutoff" rows] le(1) assms(2) by (auto simp: tb_def)
  moreover have "0 < k" "b \<le> vs_Version (rows ! (k - 1))" using le(2) assms(2) by (auto simp: cb_def split: if_splits)
  moreover have "int k = int (length rows) - versionRetentionCount svc" using \<open>0 < k\<close> by (simp add: k_def)
  ultimately show ?thesis using that b(1) le(1) by blast
qed

lemma prune_boundary_retention:
  assumes "versioned_rows rows" "prune_boundary svc cutoff rows = Some b" "1 < b" "s \<in> set rows" "vs_Version s < b"
  shows "vs_CreatedAt s < cutoff" and "versionRetentionCount svc < int (length (filter (\<lambda>t. vs_Version s < vs_Version t) rows))"
proof -
  obtain old k where o: "old \<in> set rows" "vs_CreatedAt old < cutoff" "b \<le> vs_Version old"
    and k: "0 < k" "k \<le> length rows" "int k = int (length rows) - versionRetentionCount svc" "b \<le> vs_Version (rows ! (k - 1))"
    by (rule prune_boundary_bounds [OF assms(2,3)])
  obtain x where x: "x < length rows" "s = rows ! x" using assms(4) by (auto simp: in_set_conv_nth)
  obtain y where y: "y < length rows" "old = rows ! y" using o(1) by (auto simp: in_set_conv_nth)
  have mono: "vs_Version (rows ! u) < vs_Version (rows ! w) \<and> vs_CreatedAt (rows ! u) \<le> vs_CreatedAt (rows ! w)" if "u < w" "w < length rows" for u w
    using assms(1) that by (auto simp: versioned_rows_def sorted_wrt_iff_nth_less)
  have before: "x < w" if "b \<le> vs_Version (rows ! w)" "w < length rows" for w
  proof (rule ccontr)
    assume "\<not> x < w"
    then have "vs_Version (rows ! w) \<le> vs_Version (rows ! x)" using mono [of w x] x(1) by (cases "w = x") auto
    then show False using that(1) assms(5) x(2) by simp
  qed
  show "vs_CreatedAt s < cutoff" using mono [OF before y(1)] o(2,3) x y by auto
  have "x < k - 1" using before [of "k - 1"] k by auto
  have "set (drop (Suc x) rows) \<subseteq> {t. vs_Version s < vs_Version t}"
  proof
    fix t
    assume "t \<in> set (drop (Suc x) rows)"
    then obtain u where "t = rows ! (Suc x + u)" "Suc x + u < length rows" by (auto simp: in_set_conv_nth)
    then show "t \<in> {t. vs_Version s < vs_Version t}" using mono [of x "Suc x + u"] x(2) by simp
  qed
  then have "filter (\<lambda>t. vs_Version s < vs_Version t) (drop (Suc x) rows) = drop (Suc x) rows" by (auto simp: filter_id_conv)
  then have "length (drop (Suc x) rows) \<le> length (filter (\<lambda>t. vs_Version s < vs_Version t) rows)"
    by (metis append_take_drop_id filter_append le_add2 length_append)
  then show "versionRetentionCount svc < int (length (filter (\<lambda>t. vs_Version s < vs_Version t) rows))"
    using \<open>x < k - 1\<close> k by simp
qed

subsection \<open>Properties\<close>

text \<open>The eleven versions of the example, half a year later, under a policy that keeps one version besides those of the last quarter.\<close>

definition old_history :: audit_db where
  "old_history = (history_db field_lib demo_ids 0 demo_history)\<lparr>adb_now := 180 * go_Day\<rparr>"

definition demo_policy :: GormAuditService where
  "demo_policy = (NewGormAuditService (\<lambda>_. []))\<lparr>versionRetentionCount := 1\<rparr>"

lemma old_history_ok: "linked old_history" "versioned_rows (sort_key vs_Version (filter (snapshot_of_object ''note'' ''n'') (adb_snapshots old_history)))"
  "prune_boundary demo_policy (90 * go_Day) (sort_key vs_Version (filter (snapshot_of_object ''note'' ''n'') (adb_snapshots old_history))) = Some 10"
  by code_simp+

lemma old_history_transaction:
  "prune_transaction ''note'' ''n'' 10 old_history = Inr (without_versions_below ''note'' ''n'' 10 old_history)"
  "length (filter (\<lambda>s. snapshot_of_object ''note'' ''n'' s \<and> vs_Version s < 10) (adb_snapshots old_history)) = 9"
  by code_simp+

lemma old_history_pruned:
  "pruneObjectVersions False demo_policy old_history ''note'' ''n'' (90 * go_Day) =
    Some (without_versions_below ''note'' ''n'' 10 old_history, Inr 9)"
proof -
  have "adb_read_error old_history = None" "\<not> length (filter (snapshot_of_object ''note'' ''n'') (adb_snapshots old_history)) \<le> 1" by code_simp+
  then show ?thesis
    by (simp add: pruneObjectVersions_def old_history_ok(3) executePrune_def old_history_transaction)
qed

text \<open>
  C12. Deleting old snapshots never changes what a version is restored to: after a run of the pruner the
  snapshot of an entry is what it was before, or it is reported as pruned. It does not become another
  state, and no version becomes unreadable because a snapshot it depends on was deleted.
\<close>

theorem pruning_keeps_readable:
  assumes "linked d" "PruneVersionSnapshots oracle svc order d = Some (d', r)"
  shows "GetSnapshot lib d' e = GetSnapshot lib d e \<or> GetSnapshot lib d' e = Inl snapshot_pruned"
proof (cases "adb_read_error d")
  case None
  then obtain n where "prune_objects oracle svc (days_before (adb_now d) (versionRetentionDays svc))
      (order (remdups (map (\<lambda>s. (vs_ObjectType s, vs_ObjectID s)) (adb_snapshots d)))) d 0 = Some (d', n)"
    using assms(2) by (auto simp: PruneVersionSnapshots_def Let_def split: option.splits)
  then show ?thesis using prune_objects_readable [OF assms(1)] by blast
next
  case (Some err)
  then show ?thesis using assms(2) by (auto simp: PruneVersionSnapshots_def)
qed

theorem pruning_keeps_readable_witness:
  "GetSnapshot field_lib (without_versions_below ''note'' ''n'' 10 old_history) (fst (demo_ids 9)) = GetSnapshot field_lib old_history (fst (demo_ids 9)) \<or>
   GetSnapshot field_lib (without_versions_below ''note'' ''n'' 10 old_history) (fst (demo_ids 9)) = Inl snapshot_pruned"
proof (rule pruning_keeps_readable [OF old_history_ok(1), of False demo_policy "\<lambda>k. k"])
  have "adb_read_error old_history = None" "remdups (map (\<lambda>s. (vs_ObjectType s, vs_ObjectID s)) (adb_snapshots old_history)) = [(''note'', ''n'')]"
    "days_before (adb_now old_history) (versionRetentionDays demo_policy) = 90 * go_Day"
    by code_simp+
  then show "PruneVersionSnapshots False demo_policy (\<lambda>k. k) old_history = Some (without_versions_below ''note'' ''n'' 10 old_history, Inr 9)"
    by (simp add: PruneVersionSnapshots_def old_history_pruned)
qed

text \<open>
  Pruning respects both retention limits: a snapshot it deletes is a snapshot of that object, older than the
  cutoff, and more than the configured number of newer snapshots of the object existed.
\<close>

theorem pruning_respects_retention:
  assumes "linked d" "versioned_rows (sort_key vs_Version (filter (snapshot_of_object T i) (adb_snapshots d)))"
    and "pruneObjectVersions oracle svc d T i cutoff = Some (d', r)" "s \<in> set (adb_snapshots d)" "s \<notin> set (adb_snapshots d')"
  shows "snapshot_of_object T i s \<and> vs_CreatedAt s < cutoff \<and>
    versionRetentionCount svc < int (length (filter (\<lambda>t. snapshot_of_object T i t \<and> vs_Version s < vs_Version t) (adb_snapshots d)))"
proof -
  let ?rows = "filter (snapshot_of_object T i) (adb_snapshots d)"
  obtain b where b: "prune_boundary svc cutoff (sort_key vs_Version ?rows) = Some b" "1 < b" "d' = without_versions_below T i b d"
    using pruneObjectVersions_db [OF assms(1,3)] assms(4,5) by blast
  have s: "snapshot_of_object T i s" "vs_Version s < b" using assms(4,5) b(3) by (auto simp: without_versions_below_def)
  have "s \<in> set (sort_key vs_Version ?rows)" using s(1) assms(4) by simp
  note r = prune_boundary_retention [OF assms(2) b(1,2) this s(2)]
  have "filter (\<lambda>t. vs_Version s < vs_Version t) (sort_key vs_Version ?rows) = sort_key vs_Version (filter (\<lambda>t. vs_Version s < vs_Version t) ?rows)"
    by (rule filter_sort)
  then have "length (filter (\<lambda>t. vs_Version s < vs_Version t) (sort_key vs_Version ?rows)) =
      length (filter (\<lambda>t. snapshot_of_object T i t \<and> vs_Version s < vs_Version t) (adb_snapshots d))"
    by (simp add: conj_commute)
  then show ?thesis using r s(1) by simp
qed

theorem pruning_respects_retention_witness:
  "snapshot_at field_lib demo_ids 0 demo_history 3 \<notin> set (adb_snapshots (without_versions_below ''note'' ''n'' 10 old_history)) \<and>
   vs_CreatedAt (snapshot_at field_lib demo_ids 0 demo_history 3) < 90 * go_Day"
proof -
  have s: "snapshot_at field_lib demo_ids 0 demo_history 3 \<in> set (adb_snapshots old_history)"
    "snapshot_at field_lib demo_ids 0 demo_history 3 \<notin> set (adb_snapshots (without_versions_below ''note'' ''n'' 10 old_history))"
    by code_simp+
  then show ?thesis using pruning_respects_retention [OF old_history_ok(1,2) old_history_pruned s] by blast
qed

text \<open>
  A negative retention count, which nothing in the configuration rules out, indexes past the end of the
  snapshots: the pruner panics at the first object that has two of them.
\<close>

theorem negative_count_panics:
  assumes "versionRetentionCount svc < 0" "adb_read_error d = None" "1 < length (filter (snapshot_of_object T i) (adb_snapshots d))"
  shows "pruneObjectVersions oracle svc d T i cutoff = None"
  using assms by (simp add: pruneObjectVersions_def prune_boundary_def Let_def)

theorem negative_count_panics_witness:
  "pruneObjectVersions False (NewGormAuditService (\<lambda>k. if k = ''VERSION_RETENTION_COUNT'' then ''-1'' else [])) old_history ''note'' ''n'' 0 = None"
proof (rule negative_count_panics)
  show "versionRetentionCount (NewGormAuditService (\<lambda>k. if k = ''VERSION_RETENTION_COUNT'' then ''-1'' else [])) < 0"
    "adb_read_error old_history = None" "1 < length (filter (snapshot_of_object ''note'' ''n'') (adb_snapshots old_history))"
    by code_simp+
qed

end
