(* ===== verification/Audit_Debouncer.thy ===== *)
theory Audit_Debouncer
  imports Audit_Snapshots "HOL-Library.Char_ord" "HOL-Library.List_Lexorder"
begin

text \<open>
  How handlers report mutations: \<open>api/audit_debouncer.go\<close> and the comparison and recording helpers of
  \<open>api/audit_utils.go\<close>. Mutations of one object are held back until it has been quiet for a while and then
  recorded as one. \<open>unmarshal\<close> decodes a JSON object into its members, each value in the form
  \<open>json.Marshal\<close> gives it; \<open>None\<close> is a decoding error. A timer is the moment it fires. The map of pending
  audits is an association list, \<open>order\<close> the order Go ranges over its keys.
\<close>

type_synonym unmarshal = "string \<Rightarrow> (string \<times> string) list option"

definition serverManagedFields :: "string list" where
  "serverManagedFields = [''id'', ''created_at'', ''modified_at'', ''update_vector'', ''image'', ''image_update_vector'']"

definition ShouldAudit :: "unmarshal \<Rightarrow> string \<Rightarrow> string \<Rightarrow> bool" where
  "ShouldAudit unmarshal originalJSON modifiedJSON =
    (case (unmarshal originalJSON, unmarshal modifiedJSON) of
       (Some original, Some modified) \<Rightarrow>
         list_ex (\<lambda>(key, v). key \<notin> set serverManagedFields \<and> map_of modified key \<noteq> Some v) original \<or>
         list_ex (\<lambda>(key, v). key \<notin> set serverManagedFields \<and> map_of original key = None) modified
     | _ \<Rightarrow> True)"

definition truncateValue :: "string \<Rightarrow> nat \<Rightarrow> string" where
  "truncateValue s maxLen = (if length s \<le> maxLen then s else take (maxLen - 3) s @ ''...'')"

definition field_change :: "(string \<times> string) list \<Rightarrow> (string \<times> string) list \<Rightarrow> string \<Rightarrow> string option" where
  "field_change original modified key =
    (if key \<in> set serverManagedFields then None
     else case (map_of original key, map_of modified key) of
       (None, Some _) \<Rightarrow> Some (key @ '': added'')
     | (Some _, None) \<Rightarrow> Some (key @ '': removed'')
     | (Some v, Some w) \<Rightarrow> if v \<noteq> w then Some (key @ '': '' @ truncateValue v 50 @ '' -> '' @ truncateValue w 50) else None
     | (None, None) \<Rightarrow> None)"

definition GenerateChangeSummary :: "unmarshal \<Rightarrow> string \<Rightarrow> string \<Rightarrow> string" where
  "GenerateChangeSummary unmarshal originalJSON modifiedJSON =
    (case unmarshal originalJSON of
       None \<Rightarrow> ''unable to parse original state''
     | Some original \<Rightarrow>
       (case unmarshal modifiedJSON of
          None \<Rightarrow> ''unable to parse modified state''
        | Some modified \<Rightarrow>
          (let changes = List.map_filter (field_change original modified) (sort (remdups (map fst original @ map fst modified)))
           in if changes = [] then ''no significant changes'' else strings_Join changes '', '')))"

subsection \<open>The debouncer\<close>

record pendingAudit =
  pa_params :: AuditParams
  pa_firstState :: "string option"
  pa_latestState :: "string option"
  pa_operationCount :: int
  pa_firstSeen :: time

record AuditDebouncer =
  ad_pending :: "(string, pendingAudit) gomap"
  ad_timers :: "(string, time) gomap"
  ad_wsDelay :: int
  ad_restDelay :: int

definition NewAuditDebouncer :: AuditDebouncer where
  "NewAuditDebouncer = \<lparr>ad_pending = [], ad_timers = [], ad_wsDelay = 5000000000, ad_restDelay = 10000000000\<rparr>"

definition debounceKey :: "string \<Rightarrow> string \<Rightarrow> string" where
  "debounceKey objectType objectID = objectType @ '':'' @ objectID"

definition RecordOrBuffer :: "time \<Rightarrow> AuditDebouncer \<Rightarrow> AuditParams \<Rightarrow> bool \<Rightarrow> AuditDebouncer" where
  "RecordOrBuffer now d params isWebSocket =
    (let key = debounceKey (ap_ObjectType params) (ap_ObjectID params); delay = (if isWebSocket then ad_wsDelay d else ad_restDelay d) in
     case map_of (ad_pending d) key of
       Some existing \<Rightarrow>
         d\<lparr>ad_pending := AList.update key (existing\<lparr>pa_latestState := ap_CurrentState params, pa_operationCount := pa_operationCount existing + 1\<rparr>) (ad_pending d),
           ad_timers := (if map_of (ad_timers d) key = None then ad_timers d else AList.update key (now + delay) (ad_timers d))\<rparr>
     | None \<Rightarrow>
         d\<lparr>ad_pending := AList.update key \<lparr>pa_params = params, pa_firstState = ap_PreviousState params, pa_latestState = ap_CurrentState params,
             pa_operationCount = 1, pa_firstSeen = now\<rparr> (ad_pending d),
           ad_timers := AList.update key (now + delay) (ad_timers d)\<rparr>)"

text \<open>What a flushed buffer is recorded as; nothing when only server-managed fields changed.\<close>

definition coalesced :: "unmarshal \<Rightarrow> pendingAudit \<Rightarrow> AuditParams option" where
  "coalesced unmarshal pa =
    (let params = (pa_params pa)\<lparr>ap_PreviousState := pa_firstState pa, ap_CurrentState := pa_latestState pa\<rparr> in
     case (pa_firstState pa, pa_latestState pa) of
       (Some first, Some latest) \<Rightarrow>
         (let summary = (if pa_operationCount pa > 1 then ''['' @ string_of_int (pa_operationCount pa) @ '' changes coalesced] '' else [])
                @ GenerateChangeSummary unmarshal first latest
          in if ShouldAudit unmarshal first latest then Some (params\<lparr>ap_ChangeSummary := Some summary\<rparr>) else None)
     | _ \<Rightarrow> Some params)"

text \<open>
  \<open>flush\<close>: the debouncer afterwards and the mutation handed to \<open>RecordMutation\<close>, whose error is only logged.
\<close>

definition flush :: "unmarshal \<Rightarrow> AuditDebouncer \<Rightarrow> string \<Rightarrow> AuditDebouncer \<times> AuditParams list" where
  "flush unmarshal d key =
    (case map_of (ad_pending d) key of
       None \<Rightarrow> (d, [])
     | Some pa \<Rightarrow>
       (d\<lparr>ad_pending := AList.delete key (ad_pending d), ad_timers := AList.delete key (ad_timers d)\<rparr>,
        case coalesced unmarshal pa of None \<Rightarrow> [] | Some params \<Rightarrow> [params]))"

fun flush_keys :: "unmarshal \<Rightarrow> AuditDebouncer \<Rightarrow> string list \<Rightarrow> AuditDebouncer \<times> AuditParams list" where
  "flush_keys unmarshal d [] = (d, [])"
| "flush_keys unmarshal d (key # keys) =
    (let (d', recorded) = flush unmarshal d key; (d'', recorded') = flush_keys unmarshal d' keys in (d'', recorded @ recorded'))"

definition FlushAll :: "unmarshal \<Rightarrow> (string list \<Rightarrow> string list) \<Rightarrow> AuditDebouncer \<Rightarrow> AuditDebouncer \<times> AuditParams list" where
  "FlushAll unmarshal order d = flush_keys unmarshal (d\<lparr>ad_timers := []\<rparr>) (order (map fst (ad_pending d)))"

definition FlushEntity :: "unmarshal \<Rightarrow> AuditDebouncer \<Rightarrow> string \<Rightarrow> string \<Rightarrow> AuditDebouncer \<times> AuditParams list" where
  "FlushEntity unmarshal d objectType objectID =
    (let key = debounceKey objectType objectID in flush unmarshal (d\<lparr>ad_timers := AList.delete key (ad_timers d)\<rparr>) key)"

definition PendingCount :: "AuditDebouncer \<Rightarrow> nat" where
  "PendingCount d = length (ad_pending d)"

subsection \<open>What the handlers report\<close>

text \<open>\<open>state\<close> is what \<open>SerializeForAudit\<close> gives for the entity, or its error.\<close>

definition RecordAuditCreate ::
  "time \<Rightarrow> AuditDebouncer option \<Rightarrow> InternalAuditActor \<Rightarrow> string \<Rightarrow> string \<Rightarrow> string \<Rightarrow> go_error + string \<Rightarrow> AuditDebouncer option" where
  "RecordAuditCreate now gd actor threatModelID objectType objectID state =
    (case (gd, state) of
       (Some d, Inr postState) \<Rightarrow>
         Some (RecordOrBuffer now d \<lparr>ap_ThreatModelID = threatModelID, ap_ObjectType = objectType, ap_ObjectID = objectID, ap_ChangeType = ChangeTypeCreated,
           ap_Actor = actor, ap_PreviousState = None, ap_CurrentState = Some postState, ap_ChangeSummary = Some ''created''\<rparr> False)
     | _ \<Rightarrow> gd)"

text \<open>A \<open>nil\<close> previous state does not decode, so it is audited and its summary says so.\<close>

definition RecordAuditUpdate ::
  "unmarshal \<Rightarrow> time \<Rightarrow> AuditDebouncer option \<Rightarrow> InternalAuditActor \<Rightarrow> string \<Rightarrow> string \<Rightarrow> string \<Rightarrow> string \<Rightarrow> string option \<Rightarrow> go_error + string \<Rightarrow> AuditDebouncer option" where
  "RecordAuditUpdate unmarshal now gd actor changeType threatModelID objectType objectID preState state =
    (case (gd, state) of
       (Some d, Inr postState) \<Rightarrow>
         if (case preState of Some pre \<Rightarrow> \<not> ShouldAudit unmarshal pre postState | None \<Rightarrow> False) then gd
         else Some (RecordOrBuffer now d \<lparr>ap_ThreatModelID = threatModelID, ap_ObjectType = objectType, ap_ObjectID = objectID, ap_ChangeType = changeType,
           ap_Actor = actor, ap_PreviousState = preState, ap_CurrentState = Some postState,
           ap_ChangeSummary = Some (case preState of Some pre \<Rightarrow> GenerateChangeSummary unmarshal pre postState | None \<Rightarrow> ''unable to parse original state'')\<rparr> False)
     | _ \<Rightarrow> gd)"

definition RecordAuditDelete ::
  "time \<Rightarrow> AuditDebouncer option \<Rightarrow> InternalAuditActor \<Rightarrow> string \<Rightarrow> string \<Rightarrow> string \<Rightarrow> string option \<Rightarrow> AuditDebouncer option" where
  "RecordAuditDelete now gd actor threatModelID objectType objectID preState =
    (case gd of
       Some d \<Rightarrow>
         Some (RecordOrBuffer now d \<lparr>ap_ThreatModelID = threatModelID, ap_ObjectType = objectType, ap_ObjectID = objectID, ap_ChangeType = ChangeTypeDeleted,
           ap_Actor = actor, ap_PreviousState = preState, ap_CurrentState = None, ap_ChangeSummary = Some ''deleted''\<rparr> False)
     | None \<Rightarrow> None)"

subsection \<open>The history behind the debouncer\<close>

text \<open>
  A run of the debouncer: mutations are reported and timers fire, in any order. \<open>debounce_run\<close> gives the
  debouncer and what has been recorded.
\<close>

datatype debounce_event = Change time AuditParams bool | Fire string

fun debounce_run :: "unmarshal \<Rightarrow> debounce_event list \<Rightarrow> AuditDebouncer \<times> AuditParams list \<Rightarrow> AuditDebouncer \<times> AuditParams list" where
  "debounce_run unmarshal [] (d, recorded) = (d, recorded)"
| "debounce_run unmarshal (Change now p ws # es) (d, recorded) = debounce_run unmarshal es (RecordOrBuffer now d p ws, recorded)"
| "debounce_run unmarshal (Fire key # es) (d, recorded) =
    debounce_run unmarshal es (fst (flush unmarshal d key), recorded @ snd (flush unmarshal d key))"

fun changes :: "debounce_event list \<Rightarrow> AuditParams list" where
  "changes [] = []"
| "changes (Change now p ws # es) = p # changes es"
| "changes (Fire key # es) = changes es"

definition key_of :: "AuditParams \<Rightarrow> string" where
  "key_of p = debounceKey (ap_ObjectType p) (ap_ObjectID p)"

lemma same_object_key: "same_object p q \<Longrightarrow> key_of q = key_of p"
  by (simp add: same_object_def key_of_def)

lemma same_object_refl [simp]: "same_object p p"
  by (simp add: same_object_def)

lemma same_object_sym: "same_object p q \<longleftrightarrow> same_object q p"
  by (auto simp: same_object_def)

text \<open>The latest state of an object in a history.\<close>

definition last_state :: "AuditParams list \<Rightarrow> AuditParams \<Rightarrow> string option" where
  "last_state ps p = (let qs = filter (same_object p) ps in if qs = [] then None else ap_CurrentState (last qs))"

lemma last_state_snoc: "last_state (ps @ [q]) p = (if same_object p q then ap_CurrentState q else last_state ps p)"
  by (simp add: last_state_def)

lemma last_state_cong: "same_object p q \<Longrightarrow> last_state ps q = last_state ps p"
  by (simp add: last_state_def same_object_cong)

lemma last_state_None:
  "chained ps \<Longrightarrow> last_state ps p = None \<longleftrightarrow> filter (same_object p) ps = []"
proof -
  assume c: "chained ps"
  have "ap_CurrentState (last (filter (same_object p) ps)) \<noteq> None" if ne: "filter (same_object p) ps \<noteq> []"
    using chained_current [OF c, of "last (filter (same_object p) ps)"] last_in_set [OF ne] by auto
  then show ?thesis by (auto simp: last_state_def Let_def)
qed

lemma chained_at_snoc:
  assumes "chained ps"
  shows "chained_at (ps @ [p]) (length ps) \<longleftrightarrow> ap_CurrentState p \<noteq> None \<and>
    (if last_state ps p = None then ap_ChangeType p = ChangeTypeCreated
     else ap_ChangeType p \<in> {ChangeTypeUpdated, ChangeTypePatched} \<and> ap_PreviousState p = last_state ps p)"
proof (cases "filter (same_object p) ps = []")
  case True
  then show ?thesis by (simp add: chained_at_def last_state_def)
next
  case False
  then have "last_state ps p \<noteq> None" using last_state_None [OF assms, of p] by simp
  moreover have "last_state ps p = ap_CurrentState (last (filter (same_object p) ps))" using False by (simp add: last_state_def)
  ultimately show ?thesis using False by (auto simp: chained_at_def)
qed

text \<open>
  What holds along a run. \<open>X\<close> are the mutations of the whole run and \<open>S\<close> their states: for an object with a
  pending audit, the audit spans from what was recorded last to what was reported last; for another object
  the two are the same.
\<close>

definition span :: "AuditParams list \<Rightarrow> AuditParams list \<Rightarrow> AuditParams \<Rightarrow> pendingAudit option \<Rightarrow> bool" where
  "span ps recorded p pending \<longleftrightarrow>
    (case pending of
       None \<Rightarrow> last_state recorded p = last_state ps p
     | Some pa \<Rightarrow> same_object p (pa_params pa) \<and> pa_latestState pa = last_state ps p \<and> last_state ps p \<noteq> None \<and>
         pa_firstState pa = last_state recorded p \<and>
         (if last_state recorded p = None then ap_ChangeType (pa_params pa) = ChangeTypeCreated
          else ap_ChangeType (pa_params pa) \<in> {ChangeTypeUpdated, ChangeTypePatched}))"

definition debounce_inv :: "AuditParams set \<Rightarrow> string set \<Rightarrow> AuditParams list \<Rightarrow> AuditDebouncer \<Rightarrow> AuditParams list \<Rightarrow> bool" where
  "debounce_inv X S ps d recorded \<longleftrightarrow>
    chained recorded \<and> (\<forall>p \<in> X. span ps recorded p (map_of (ad_pending d) (key_of p)) \<and> (\<forall>a. last_state ps p = Some a \<longrightarrow> a \<in> S) \<and>
      (\<forall>a. last_state recorded p = Some a \<longrightarrow> a \<in> S)) \<and>
    (\<forall>k pa. map_of (ad_pending d) k = Some pa \<longrightarrow> pa_params pa \<in> X \<and> key_of (pa_params pa) = k)"

definition keys_distinguish :: "AuditParams set \<Rightarrow> bool" where
  "keys_distinguish X \<longleftrightarrow> (\<forall>p \<in> X. \<forall>q \<in> X. key_of p = key_of q \<longrightarrow> same_object p q)"

lemma RecordOrBuffer_pending:
  "map_of (ad_pending (RecordOrBuffer now d p ws)) k =
    (if k = key_of p then Some (case map_of (ad_pending d) k of
        Some pa \<Rightarrow> pa\<lparr>pa_latestState := ap_CurrentState p, pa_operationCount := pa_operationCount pa + 1\<rparr>
      | None \<Rightarrow> \<lparr>pa_params = p, pa_firstState = ap_PreviousState p, pa_latestState = ap_CurrentState p, pa_operationCount = 1, pa_firstSeen = now\<rparr>)
     else map_of (ad_pending d) k)"
  by (simp add: RecordOrBuffer_def key_of_def Let_def update_conv' split: option.split)

lemma inv_change:
  assumes inv: "debounce_inv X S ps d recorded" and keys: "keys_distinguish X" and p: "p \<in> X" and c: "chained (ps @ [p])"
    and S: "\<forall>a. ap_CurrentState p = Some a \<longrightarrow> a \<in> S" and first: "last_state ps p = None \<longrightarrow> ap_PreviousState p = None"
  shows "debounce_inv X S (ps @ [p]) (RecordOrBuffer now d p ws) recorded"
proof -
  have at: "ap_CurrentState p \<noteq> None" "if last_state ps p = None then ap_ChangeType p = ChangeTypeCreated
      else ap_ChangeType p \<in> {ChangeTypeUpdated, ChangeTypePatched} \<and> ap_PreviousState p = last_state ps p"
    using c chained_at_snoc [of ps p] unfolding chained_snoc by blast+
  have "span (ps @ [p]) recorded q (map_of (ad_pending (RecordOrBuffer now d p ws)) (key_of q))" if q: "q \<in> X" for q
  proof (cases "key_of q = key_of p")
    case True
    then have same: "same_object q p" using keys q p by (simp add: keys_distinguish_def)
    have ls: "last_state ps p = last_state ps q" "last_state (ps @ [p]) q = ap_CurrentState p"
      using same by (simp_all add: last_state_cong last_state_snoc)
    have "span ps recorded q (map_of (ad_pending d) (key_of q))" using inv q by (simp add: debounce_inv_def)
    then show ?thesis using True same at first ls
      by (auto simp: span_def RecordOrBuffer_pending split: option.splits if_splits)
  next
    case False
    then have "\<not> same_object q p" using same_object_key by metis
    then have "span (ps @ [p]) recorded q = span ps recorded q" by (simp add: span_def [abs_def] last_state_snoc)
    then show ?thesis using inv q False by (simp add: debounce_inv_def RecordOrBuffer_pending)
  qed
  moreover have "pa_params pa \<in> X \<and> key_of (pa_params pa) = k" if "map_of (ad_pending (RecordOrBuffer now d p ws)) k = Some pa" for k pa
    using that inv p by (auto simp: debounce_inv_def RecordOrBuffer_pending split: if_splits option.splits)
  ultimately show ?thesis using inv S by (simp add: debounce_inv_def last_state_snoc)
qed

lemma coalesced_fields:
  "coalesced unmarshal pa = Some params \<Longrightarrow> ap_ObjectType params = ap_ObjectType (pa_params pa) \<and> ap_ObjectID params = ap_ObjectID (pa_params pa) \<and>
    ap_ChangeType params = ap_ChangeType (pa_params pa) \<and> ap_PreviousState params = pa_firstState pa \<and> ap_CurrentState params = pa_latestState pa"
  by (auto simp: coalesced_def Let_def split: option.splits if_splits)

lemma coalesced_None:
  "coalesced unmarshal pa = None \<Longrightarrow> \<exists>a b. pa_firstState pa = Some a \<and> pa_latestState pa = Some b \<and> \<not> ShouldAudit unmarshal a b"
  by (auto simp: coalesced_def Let_def split: option.splits if_splits)

lemma coalesced_deleted:
  "pa_latestState pa = None \<Longrightarrow>
    coalesced unmarshal pa = Some ((pa_params pa)\<lparr>ap_PreviousState := pa_firstState pa, ap_CurrentState := None\<rparr>)"
  by (cases "pa_firstState pa") (simp_all add: coalesced_def)

lemma inv_fire:
  assumes inv: "debounce_inv X S ps d recorded" and keys: "keys_distinguish X"
    and canonical: "\<forall>a \<in> S. \<forall>b \<in> S. \<not> ShouldAudit unmarshal a b \<longrightarrow> a = b"
  shows "debounce_inv X S ps (fst (flush unmarshal d key)) (recorded @ snd (flush unmarshal d key))"
proof (cases "map_of (ad_pending d) key")
  case None
  then show ?thesis using inv by (simp add: flush_def)
next
  case (Some pa)
  let ?d = "fst (flush unmarshal d key)"
  have pend: "map_of (ad_pending ?d) k = (if k = key then None else map_of (ad_pending d) k)" for k
    using Some by (simp add: flush_def delete_conv')
  have p: "pa_params pa \<in> X" "key_of (pa_params pa) = key" using inv Some by (simp_all add: debounce_inv_def)
  have sp: "span ps recorded (pa_params pa) (Some pa)" using inv p Some by (simp add: debounce_inv_def) metis
  have c: "chained recorded" using inv by (simp add: debounce_inv_def)
  have other: "span ps recorded q (map_of (ad_pending ?d) (key_of q))" if "q \<in> X" "key_of q \<noteq> key" for q
    using inv that by (simp add: debounce_inv_def pend)
  have same: "same_object q (pa_params pa)" if "q \<in> X" "key_of q = key" for q
    using keys p that by (simp add: keys_distinguish_def)
  have sub: "\<forall>k pa. map_of (ad_pending ?d) k = Some pa \<longrightarrow> pa_params pa \<in> X \<and> key_of (pa_params pa) = k"
    using inv by (auto simp: debounce_inv_def pend split: if_splits)
  show ?thesis
  proof (cases "coalesced unmarshal pa")
    case none: None
    then obtain a b where ab: "pa_firstState pa = Some a" "pa_latestState pa = Some b" "\<not> ShouldAudit unmarshal a b"
      using coalesced_None by blast
    then have st: "last_state recorded (pa_params pa) = Some a" "last_state ps (pa_params pa) = Some b" using sp by (simp_all add: span_def)
    then have "a \<in> S" "b \<in> S" using inv p(1) by (auto simp: debounce_inv_def)
    then have "a = b" using canonical ab(3) by blast
    have "span ps recorded q (map_of (ad_pending ?d) (key_of q))" if "q \<in> X" for q
    proof (cases "key_of q = key")
      case True
      then have "last_state recorded q = last_state ps q"
        using last_state_cong [OF same [OF that True]] st \<open>a = b\<close> by metis
      then show ?thesis using True by (simp add: span_def pend)
    qed (simp add: other that)
    moreover have "snd (flush unmarshal d key) = []" using Some none by (simp add: flush_def)
    ultimately show ?thesis using inv sub by (simp add: debounce_inv_def)
  next
    case (Some params)
    note f = coalesced_fields [OF Some]
    have so: "same_object (pa_params pa) params" using f by (simp add: same_object_def)
    have ls: "last_state recorded params = last_state recorded (pa_params pa)" by (rule last_state_cong [OF so])
    have "chained (recorded @ [params])"
      using sp f c chained_at_snoc [OF c, of params] ls by (auto simp: chained_snoc span_def split: if_splits)
    moreover have "span ps (recorded @ [params]) q (map_of (ad_pending ?d) (key_of q))" if q: "q \<in> X" for q
    proof (cases "key_of q = key")
      case True
      have "same_object q params" using same [OF q True] so by (simp add: same_object_def)
      then have "last_state (recorded @ [params]) q = pa_latestState pa" using f by (simp add: last_state_snoc)
      also have "\<dots> = last_state ps q" using sp last_state_cong [OF same [OF q True]] by (simp add: span_def)
      finally show ?thesis using True by (simp add: span_def pend)
    next
      case False
      then have "\<not> same_object q params" using so p(2) same_object_key by metis
      then have "span ps (recorded @ [params]) q = span ps recorded q" by (simp add: span_def [abs_def] last_state_snoc)
      then show ?thesis using other [OF q False] by simp
    qed
    moreover have "\<forall>a. last_state (recorded @ [params]) q = Some a \<longrightarrow> a \<in> S" if "q \<in> X" for q
    proof -
      have "\<forall>a. pa_latestState pa = Some a \<longrightarrow> a \<in> S" using sp inv p(1) by (simp add: span_def debounce_inv_def)
      then show ?thesis using inv that f by (simp add: last_state_snoc debounce_inv_def)
    qed
    moreover have "snd (flush unmarshal d key) = [params]" using \<open>map_of (ad_pending d) key = Some pa\<close> Some by (simp add: flush_def)
    ultimately show ?thesis using inv sub by (simp add: debounce_inv_def)
  qed
qed

lemma chained_prefix: "chained (ps @ qs) \<Longrightarrow> chained ps"
proof -
  assume c: "chained (ps @ qs)"
  have "chained_at ps i" if "i < length ps" for i
    using chainedD [OF c, of i] that by simp
  then show ?thesis by (simp add: chained_def list_all_iff)
qed

lemma run_inv:
  assumes "debounce_inv X S ps d recorded" "keys_distinguish X" "set (changes es) \<subseteq> X" "chained (ps @ changes es)"
    and "\<forall>p \<in> X. \<forall>a. ap_CurrentState p = Some a \<longrightarrow> a \<in> S" "\<forall>p \<in> X. ap_ChangeType p = ChangeTypeCreated \<longrightarrow> ap_PreviousState p = None"
    and "\<forall>a \<in> S. \<forall>b \<in> S. \<not> ShouldAudit unmarshal a b \<longrightarrow> a = b"
  shows "debounce_inv X S (ps @ changes es) (fst (debounce_run unmarshal es (d, recorded))) (snd (debounce_run unmarshal es (d, recorded)))"
  using assms(1,3,4)
proof (induction es arbitrary: ps d recorded)
  case Nil
  then show ?case by simp
next
  case (Cons e es)
  show ?case
  proof (cases e)
    case (Change now p ws)
    have p: "p \<in> X" using Cons.prems(2) Change by simp
    have "chained ((ps @ [p]) @ changes es)" using Cons.prems(3) Change by simp
    then have c: "chained (ps @ [p])" by (rule chained_prefix)
    have "ap_PreviousState p = None" if "last_state ps p = None"
      using assms(6) p c chained_at_snoc [of ps p] that by (auto simp: chained_snoc)
    then have "debounce_inv X S (ps @ [p]) (RecordOrBuffer now d p ws) recorded"
      by (intro inv_change [OF Cons.prems(1) assms(2) p c]) (use assms(5) p in auto)
    then show ?thesis using Cons.IH [of "ps @ [p]"] Cons.prems Change by simp
  next
    case (Fire key)
    then show ?thesis using Cons.IH [OF inv_fire [OF Cons.prems(1) assms(2,7)]] Cons.prems by simp
  qed
qed

lemma start_inv: "debounce_inv X S [] NewAuditDebouncer []"
  by (simp add: debounce_inv_def NewAuditDebouncer_def span_def last_state_def chained_def)

subsection \<open>Properties\<close>

definition states_of :: "AuditParams list \<Rightarrow> string list" where
  "states_of ps = List.map_filter ap_CurrentState ps"

text \<open>What the recording helpers promise of the mutations of a run, and the decoder of the states.\<close>

definition reported_well :: "unmarshal \<Rightarrow> AuditParams list \<Rightarrow> bool" where
  "reported_well unmarshal ps \<longleftrightarrow> chained ps \<and> list_all (\<lambda>p. ap_ChangeType p = ChangeTypeCreated \<longrightarrow> ap_PreviousState p = None) ps \<and>
    list_all (\<lambda>p. list_all (\<lambda>q. key_of p = key_of q \<longrightarrow> same_object p q) ps) ps \<and>
    list_all (\<lambda>a. list_all (\<lambda>b. ShouldAudit unmarshal a b \<or> a = b) (states_of ps)) (states_of ps)"

lemma run_start:
  assumes "reported_well unmarshal (changes es)"
  shows "debounce_inv (set (changes es)) (set (states_of (changes es))) (changes es)
    (fst (debounce_run unmarshal es (NewAuditDebouncer, []))) (snd (debounce_run unmarshal es (NewAuditDebouncer, [])))"
proof -
  have "\<forall>p \<in> set (changes es). \<forall>a. ap_CurrentState p = Some a \<longrightarrow> a \<in> set (states_of (changes es))"
    by (force simp: states_of_def List.map_filter_def)
  then show ?thesis
    using run_inv [OF start_inv, of "set (changes es)" es "set (states_of (changes es))" unmarshal] assms
    by (simp add: reported_well_def keys_distinguish_def list_all_iff) metis
qed


text \<open>Three reports of a note: two of them within the delay, the third after the timer has fired.\<close>

definition demo_unmarshal :: unmarshal where
  "demo_unmarshal s = Some [(''name'', s)]"

definition demo_events :: "debounce_event list" where
  "demo_events = [Change 0 (demo_history ! 0) False, Change 1 (demo_history ! 1) True, Fire ''note:n'', Change 20 (demo_history ! 2) False]"


text \<open>
  C39. An object that is changed and then deleted before the timer fires is recorded as changed: the entry has
  the change type and the summary of the change, no snapshot is stored because the new state is missing,
  and the deletion is recorded nowhere.
\<close>

theorem deletion_swallowed:
  assumes "map_of (ad_pending d) (debounceKey T i) = Some pa" "ap_ChangeType (pa_params pa) \<noteq> ChangeTypeDeleted"
  shows "\<exists>params. snd (flush unmarshal (the (RecordAuditDelete now (Some d) actor tm T i preState)) (debounceKey T i)) = [params] \<and>
    ap_ChangeType params = ap_ChangeType (pa_params pa) \<and> ap_ChangeSummary params = ap_ChangeSummary (pa_params pa) \<and>
    ap_Actor params = ap_Actor (pa_params pa) \<and> snapshot_content lib params version = None"
proof -
  define del where "del = \<lparr>ap_ThreatModelID = tm, ap_ObjectType = T, ap_ObjectID = i, ap_ChangeType = ChangeTypeDeleted,
    ap_Actor = actor, ap_PreviousState = preState, ap_CurrentState = None, ap_ChangeSummary = Some ''deleted''\<rparr>"
  have "map_of (ad_pending (RecordOrBuffer now d del False)) (debounceKey T i) =
      Some (pa\<lparr>pa_latestState := None, pa_operationCount := pa_operationCount pa + 1\<rparr>)"
    using RecordOrBuffer_pending [of now d del False "debounceKey T i"] assms(1) by (simp add: del_def key_of_def)
  then show ?thesis using assms(2)
    by (auto simp: RecordAuditDelete_def del_def [symmetric] flush_def coalesced_deleted snapshot_content_def split: option.split)
qed

theorem deletion_swallowed_witness:
  "\<exists>params. snd (flush demo_unmarshal (the (RecordAuditDelete 2 (Some (RecordOrBuffer 0 NewAuditDebouncer (demo_history ! 1) False)) demo_actor ''t'' ''note'' ''n'' (Some ''ba'')))
      (debounceKey ''note'' ''n'')) = [params] \<and> ap_ChangeType params = ''updated''"
proof -
  define d where "d = RecordOrBuffer 0 NewAuditDebouncer (demo_history ! 1) False"
  define pa where "pa = the (map_of (ad_pending d) (debounceKey ''note'' ''n''))"
  have "map_of (ad_pending d) (debounceKey ''note'' ''n'') = Some pa" "ap_ChangeType (pa_params pa) \<noteq> ChangeTypeDeleted"
    "ap_ChangeType (pa_params pa) = ''updated''"
    unfolding pa_def d_def by code_simp+
  then show ?thesis using deletion_swallowed [of d "''note''" "''n''" pa demo_unmarshal 2 demo_actor "''t''" "Some ''ba''"] unfolding d_def by auto
qed

end
