(* ===== verification/Audit_Rollback.thy ===== *)
theory Audit_Rollback
  imports Audit_Debouncer Identity
begin

text \<open>
  Restoring a version: the rollback half of \<open>api/audit_handlers.go\<close> with the serialization of
  \<open>api/audit_utils.go\<close>. The repositories of the seven kinds of entities are an \<open>entity_stores\<close> over an
  abstract state: restoring a tombstone, writing an entity under an identifier, and creating one. What the
  repositories of sub-resources do first is modelled here, because it decides the outcome: they take the
  identifier from the decoded entity, and dereference it. The value \<open>None\<close> of an operation is a panic.
  \<open>decodes T s\<close> is the error of decoding a snapshot as an entity of kind \<open>T\<close>; the text the decoder of the
  generic map reports is left out.
\<close>

definition stripServerManagedFields :: "unmarshal \<Rightarrow> ((string \<times> string) list \<Rightarrow> go_error + string) \<Rightarrow> string \<Rightarrow> string" where
  "stripServerManagedFields unmarshal marshal s =
    (case unmarshal s of
       None \<Rightarrow> s
     | Some m \<Rightarrow>
       (case marshal (filter (\<lambda>(k, v). k \<notin> set serverManagedFields) m) of Inl _ \<Rightarrow> s | Inr cleaned \<Rightarrow> cleaned))"

text \<open>\<open>encoded\<close> is what \<open>json.Marshal\<close> gives for the entity.\<close>

definition SerializeForAudit :: "unmarshal \<Rightarrow> ((string \<times> string) list \<Rightarrow> go_error + string) \<Rightarrow> go_error + string \<Rightarrow> go_error + string" where
  "SerializeForAudit unmarshal marshal encoded =
    (case encoded of
       Inl e \<Rightarrow> Inl (errorf_wrap ''failed to serialize entity for audit: '' e)
     | Inr s \<Rightarrow> Inr (stripServerManagedFields unmarshal marshal s))"

record 's entity_stores =
  es_Restore :: "'s \<Rightarrow> string \<Rightarrow> string \<Rightarrow> 's \<times> go_error option"
  es_Update :: "'s \<Rightarrow> string \<Rightarrow> string \<Rightarrow> string \<Rightarrow> string \<Rightarrow> 's \<times> go_error option"
  es_Create :: "'s \<Rightarrow> string \<Rightarrow> string \<Rightarrow> string \<Rightarrow> 's \<times> go_error option"
  es_HasThreatModel :: "'s \<Rightarrow> string \<Rightarrow> bool"

datatype rollback_error = Request RequestError | Store go_error

definition GoneError :: "string \<Rightarrow> RequestError" where
  "GoneError message = requestError 410 ''gone'' message"

definition audit_ServerError :: "string \<Rightarrow> RequestError" where
  "audit_ServerError message = requestError 500 ''server_error'' message"

definition audit_NotFoundError :: "string \<Rightarrow> RequestError" where
  "audit_NotFoundError message = requestError 404 ''not_found'' message"

text \<open>Restoring the tombstone of a deleted entity, or creating it anew, before it is written.\<close>

definition restore_or_create ::
  "('s \<Rightarrow> ('s \<times> rollback_error option) option) \<Rightarrow> ('s \<Rightarrow> 's \<times> rollback_error option) \<Rightarrow> ('s \<Rightarrow> 's \<times> go_error option) \<Rightarrow> AuditEntry \<Rightarrow> 's \<Rightarrow> ('s \<times> rollback_error option) option" where
  "restore_or_create update create restore entry s =
    (if ae_ChangeType entry = ChangeTypeDeleted then
       (case restore s of (s', None) \<Rightarrow> update s' | (s', Some _) \<Rightarrow> Some (create s'))
     else update s)"

definition store_result :: "'s \<times> go_error option \<Rightarrow> 's \<times> rollback_error option" where
  "store_result r = (fst r, map_option Store (snd r))"

definition kind_name :: "string \<Rightarrow> string" where
  "kind_name T = (if T = ''threat_model'' then ''threat model'' else T)"

text \<open>Threat models and diagrams are written under the identifier of the entry.\<close>

definition rollback_by_entry ::
  "'s entity_stores \<Rightarrow> (string \<Rightarrow> string \<Rightarrow> go_error option) \<Rightarrow> AuditEntry \<Rightarrow> string \<Rightarrow> 's \<Rightarrow> ('s \<times> rollback_error option) option" where
  "rollback_by_entry st decodes entry snapshotData s =
    (let T = ae_ObjectType entry; i = ae_ObjectID entry; tm = ae_ThreatModelID entry in
     case decodes T snapshotData of
       Some e \<Rightarrow> Some (s, Some (Request (audit_ServerError (''Failed to deserialize '' @ kind_name (ae_ObjectType entry) @ '' snapshot: '' @ err_Error e))))
     | None \<Rightarrow>
       restore_or_create (\<lambda>s. Some (store_result (es_Update st s T i tm snapshotData)))
         (\<lambda>s. store_result (es_Create st s T tm snapshotData)) (\<lambda>s. es_Restore st s T i) entry s)"

text \<open>
  Sub-resources are written under the identifier in the decoded entity. A threat without its threat model
  is not found; an identifier that is missing is dereferenced.
\<close>

definition entity_field :: "unmarshal \<Rightarrow> string \<Rightarrow> string \<Rightarrow> string option" where
  "entity_field unmarshal snapshotData k = (case unmarshal snapshotData of Some m \<Rightarrow> map_of m k | None \<Rightarrow> None)"

definition ErrThreatNotFound :: go_error where
  "ErrThreatNotFound = (errors_New ''threat: not found'')\<lparr>err_chain := [ErrNotFound]\<rparr>"

definition update_sub_resource :: "'s entity_stores \<Rightarrow> unmarshal \<Rightarrow> AuditEntry \<Rightarrow> string \<Rightarrow> 's \<Rightarrow> ('s \<times> rollback_error option) option" where
  "update_sub_resource st unmarshal entry snapshotData s =
    (if ae_ObjectType entry = ''threat'' \<and> entity_field unmarshal snapshotData ''threat_model_id'' = None
     then Some (s, Some (Store ErrThreatNotFound))
     else case entity_field unmarshal snapshotData ''id'' of
       None \<Rightarrow> None
     | Some i \<Rightarrow> Some (store_result (es_Update st s (ae_ObjectType entry) i (ae_ThreatModelID entry) snapshotData)))"

definition rollback_sub_resource ::
  "'s entity_stores \<Rightarrow> unmarshal \<Rightarrow> (string \<Rightarrow> string \<Rightarrow> go_error option) \<Rightarrow> AuditEntry \<Rightarrow> string \<Rightarrow> 's \<Rightarrow> ('s \<times> rollback_error option) option" where
  "rollback_sub_resource st unmarshal decodes entry snapshotData s =
    (case decodes (ae_ObjectType entry) snapshotData of
       Some e \<Rightarrow> Some (s, Some (Request (audit_ServerError (''Failed to deserialize '' @ kind_name (ae_ObjectType entry) @ '' snapshot: '' @ err_Error e))))
     | None \<Rightarrow>
       restore_or_create (update_sub_resource st unmarshal entry snapshotData)
         (\<lambda>s. store_result (es_Create st s (ae_ObjectType entry) (ae_ThreatModelID entry) snapshotData))
         (\<lambda>s. es_Restore st s (ae_ObjectType entry) (ae_ObjectID entry)) entry s)"

definition performRollback ::
  "'s entity_stores \<Rightarrow> unmarshal \<Rightarrow> (string \<Rightarrow> string \<Rightarrow> go_error option) \<Rightarrow> AuditEntry \<Rightarrow> string \<Rightarrow> 's \<Rightarrow> ('s \<times> rollback_error option) option" where
  "performRollback st unmarshal decodes entry snapshotData s =
    (if unmarshal snapshotData = None then Some (s, Some (Request (audit_ServerError ''Failed to deserialize snapshot: '')))
     else if ae_ObjectType entry \<in> set [''threat_model'', ''diagram''] then rollback_by_entry st decodes entry snapshotData s
     else if ae_ObjectType entry \<in> set [''threat'', ''asset'', ''document'', ''note'', ''repository'']
       then rollback_sub_resource st unmarshal decodes entry snapshotData s
     else Some (s, Some (Request (audit_ServerError (''Unsupported object type for rollback: '' @ ae_ObjectType entry)))))"

definition GetAuditEntry :: "audit_db \<Rightarrow> string \<Rightarrow> go_error + AuditEntry option" where
  "GetAuditEntry d entryID =
    (case adb_read_error d of
       Some e \<Rightarrow> Inl (errorf_wrap ''failed to get audit entry: '' e)
     | None \<Rightarrow> Inr (find (\<lambda>e. ae_ID e = entryID) (adb_entries d)))"

definition ExtractAuditActor :: "gin_context \<Rightarrow> InternalAuditActor" where
  "ExtractAuditActor c = \<lparr>aa_Email = ctx_string c ''userEmail'', aa_Provider = ctx_string c ''userIdP'',
    aa_ProviderID = ctx_string c ''userID'', aa_DisplayName = ctx_string c ''userDisplayName''\<rparr>"

text \<open>What the rollback is recorded as; \<open>reencode\<close> encodes the decoded snapshot again.\<close>

definition rollback_params :: "(string \<Rightarrow> string) \<Rightarrow> gin_context \<Rightarrow> string \<Rightarrow> AuditEntry \<Rightarrow> int \<Rightarrow> string \<Rightarrow> AuditParams" where
  "rollback_params reencode c threatModelId entry version snapshotData =
    \<lparr>ap_ThreatModelID = threatModelId, ap_ObjectType = ae_ObjectType entry, ap_ObjectID = ae_ObjectID entry, ap_ChangeType = ChangeTypeRolledBack,
     ap_Actor = ExtractAuditActor c, ap_PreviousState = None, ap_CurrentState = Some (reencode snapshotData),
     ap_ChangeSummary = Some (''Rolled back to version '' @ string_of_int version)\<rparr>"

text \<open>The handler: the stores and the trail afterwards, and an error or the snapshot that was restored.\<close>

definition RollbackToVersion ::
  "bool \<Rightarrow> merge_lib \<Rightarrow> 's entity_stores \<Rightarrow> unmarshal \<Rightarrow> (string \<Rightarrow> string \<Rightarrow> go_error option) \<Rightarrow> (string \<Rightarrow> string) \<Rightarrow> string \<times> string \<Rightarrow>
    gin_context \<Rightarrow> string \<Rightarrow> string \<Rightarrow> 's \<Rightarrow> audit_db \<Rightarrow> ('s \<times> audit_db \<times> (rollback_error + string)) option" where
  "RollbackToVersion oracle lib st unmarshal decodes reencode ids c threatModelId entryId s d =
    (case GetAuthenticatedUser c of
       Inl e \<Rightarrow> Some (s, d, Inl (Request e))
     | Inr _ \<Rightarrow>
       if \<not> es_HasThreatModel st s threatModelId then Some (s, d, Inl (Request (audit_NotFoundError ''Threat model not found'')))
       else
       (case GetAuditEntry d entryId of
          Inl e \<Rightarrow> Some (s, d, Inl (Request (audit_ServerError (''Failed to get audit entry: '' @ err_Error e))))
        | Inr None \<Rightarrow> Some (s, d, Inl (Request (audit_NotFoundError ''Audit entry not found'')))
        | Inr (Some entry) \<Rightarrow>
          if ae_ThreatModelID entry \<noteq> threatModelId then Some (s, d, Inl (Request (audit_NotFoundError ''Audit entry not found in this threat model'')))
          else
          (case ae_Version entry of
             None \<Rightarrow> Some (s, d, Inl (Request (GoneError ''Version snapshot has been pruned; rollback is no longer available'')))
           | Some version \<Rightarrow>
             (case GetSnapshot lib d entryId of
                Inl e \<Rightarrow> Some (s, d, Inl (Request (GoneError (''Cannot retrieve version snapshot: '' @ err_Error e))))
              | Inr snapshotData \<Rightarrow>
                (case performRollback st unmarshal decodes entry snapshotData s of
                   None \<Rightarrow> None
                 | Some (s', Some e) \<Rightarrow> Some (s', d, Inl e)
                 | Some (s', None) \<Rightarrow>
                   Some (s', fst (RecordMutation oracle lib ids d (rollback_params reencode c threatModelId entry version snapshotData)), Inr snapshotData))))))"

subsection \<open>Properties\<close>

lemma strip_drops_id:
  assumes "unmarshal s = Some m" "marshal (filter (\<lambda>(k, v). k \<notin> set serverManagedFields) m) = Inr cleaned"
    and "unmarshal cleaned = Some (filter (\<lambda>(k, v). k \<notin> set serverManagedFields) m)"
  shows "entity_field unmarshal (stripServerManagedFields unmarshal marshal s) ''id'' = None"
proof -
  have "''id'' \<notin> fst ` set (filter (\<lambda>(k, v). k \<notin> set serverManagedFields) m)" by (auto simp: serverManagedFields_def)
  then show ?thesis using assms by (simp add: stripServerManagedFields_def entity_field_def map_of_eq_None_iff)
qed

text \<open>
  A rollback that succeeds has written the snapshot, and it is recorded by an entry alone: the trail gets
  no snapshot for it, whatever the kind of entity, so the version it creates cannot be restored and the
  diffs before it lose the state they refer to.
\<close>

theorem rollback_stores_no_snapshot:
  assumes "RollbackToVersion oracle lib st unmarshal decodes reencode ids c tm e s d = Some (s', d', Inr snapshotData)"
  shows "adb_snapshots d' = adb_snapshots d \<and> GetSnapshot lib d e = Inr snapshotData \<and>
    (adb_entries d' = adb_entries d \<or> (\<exists>entry. adb_entries d' = adb_entries d @ [entry] \<and> ae_ChangeType entry = ChangeTypeRolledBack))"
proof -
  obtain entry version where r: "d' = fst (RecordMutation oracle lib ids d (rollback_params reencode c tm entry version snapshotData))"
    "GetSnapshot lib d e = Inr snapshotData"
    using assms by (auto simp: RollbackToVersion_def split: sum.splits if_splits option.splits)
  have ct: "ap_ChangeType (rollback_params reencode c tm entry version snapshotData) = ChangeTypeRolledBack" by (simp add: rollback_params_def)
  have none: "snapshot_content lib (rollback_params reencode c tm entry version snapshotData) v = None" for v
    by (simp add: snapshot_content_def rollback_params_def)
  show ?thesis unfolding r(1) RecordMutation_fst using r(2)
    by (auto simp: record_in_transaction_def createVersionSnapshot_def none Let_def new_entry_def ct split: option.splits)
qed

text \<open>
  A snapshot is stored without the identifier of the entity. So the rollback of an asset, a document, a
  note or a repository whose entry is found never succeeds: it dereferences the identifier that is missing.
\<close>

theorem sub_resource_rollback_panics:
  assumes "GetAuthenticatedUser c = Inr u" "es_HasThreatModel st s tm" "GetAuditEntry d e = Inr (Some entry)" "ae_ThreatModelID entry = tm"
    and "ae_Version entry = Some version" "GetSnapshot lib d e = Inr snapshotData" "ae_ChangeType entry \<noteq> ChangeTypeDeleted"
    and "ae_ObjectType entry \<in> {''asset'', ''document'', ''note'', ''repository''}"
    and "unmarshal snapshotData = Some m" "map_of m ''id'' = None" "decodes (ae_ObjectType entry) snapshotData = None"
  shows "RollbackToVersion oracle lib st unmarshal decodes reencode ids c tm e s d = None"
proof -
  have "performRollback st unmarshal decodes entry snapshotData s = None"
    using assms(7-11) by (auto simp: performRollback_def rollback_sub_resource_def restore_or_create_def update_sub_resource_def entity_field_def)
  then show ?thesis using assms(1-6) by (simp add: RollbackToVersion_def)
qed

text \<open>The note of the example, and stores in which every write succeeds.\<close>

definition demo_stores :: "unit entity_stores" where
  "demo_stores = \<lparr>es_Restore = (\<lambda>s T i. (s, None)), es_Update = (\<lambda>s T i tm x. (s, None)), es_Create = (\<lambda>s T tm x. (s, None)), es_HasThreatModel = (\<lambda>s tm. True)\<rparr>"

definition demo_context :: gin_context where
  "demo_context k = Some (CtxString ''u'')"

definition demo_threat_model_change :: AuditParams where
  "demo_threat_model_change = (demo_change ChangeTypeCreated None (Some ''aa''))\<lparr>ap_ObjectType := ''threat_model'', ap_ObjectID := ''t''\<rparr>"

definition demo_threat_model :: audit_db where
  "demo_threat_model = history_db field_lib demo_ids 0 [demo_threat_model_change]"

theorem rollback_stores_no_snapshot_witness:
  "\<exists>d'. RollbackToVersion False field_lib demo_stores demo_unmarshal (\<lambda>_ _. None) id (''e1'', ''s1'') demo_context ''t'' ''e0'' () demo_threat_model =
      Some ((), d', Inr ''aa'') \<and> adb_snapshots d' = adb_snapshots demo_threat_model"
proof -
  obtain d' where d': "RollbackToVersion False field_lib demo_stores demo_unmarshal (\<lambda>_ _. None) id (''e1'', ''s1'') demo_context ''t'' ''e0'' () demo_threat_model =
      Some ((), d', Inr ''aa'')"
  proof -
    have "GetAuthenticatedUser demo_context = Inr \<lparr>ru_InternalUUID = ''u'', ru_Provider = ''u'', ru_ProviderID = ''u'', ru_Email = ''u'', ru_DisplayName = ''u''\<rparr>"
      "GetAuditEntry demo_threat_model ''e0'' = Inr (Some (entry_at demo_ids 0 [demo_threat_model_change] 0))"
      "ae_ThreatModelID (entry_at demo_ids 0 [demo_threat_model_change] 0) = ''t''" "ae_Version (entry_at demo_ids 0 [demo_threat_model_change] 0) = Some 1"
      "GetSnapshot field_lib demo_threat_model ''e0'' = Inr ''aa''"
      "performRollback demo_stores demo_unmarshal (\<lambda>_ _. None) (entry_at demo_ids 0 [demo_threat_model_change] 0) ''aa'' () = Some ((), None)"
      by code_simp+
    then show ?thesis using that by (simp add: RollbackToVersion_def demo_stores_def)
  qed
  then show ?thesis using rollback_stores_no_snapshot [OF d'] by blast
qed

theorem sub_resource_rollback_panics_witness:
  "RollbackToVersion False field_lib demo_stores demo_unmarshal (\<lambda>_ _. None) id (''e11'', ''s11'') demo_context ''t'' ''e0'' () (history_db field_lib demo_ids 0 demo_history) = None"
proof (rule sub_resource_rollback_panics)
  let ?d = "history_db field_lib demo_ids 0 demo_history" and ?entry = "entry_at demo_ids 0 demo_history 0"
  show "GetAuthenticatedUser demo_context = Inr \<lparr>ru_InternalUUID = ''u'', ru_Provider = ''u'', ru_ProviderID = ''u'', ru_Email = ''u'', ru_DisplayName = ''u''\<rparr>"
    "es_HasThreatModel demo_stores () ''t''" "GetAuditEntry ?d ''e0'' = Inr (Some ?entry)" "ae_ThreatModelID ?entry = ''t''"
    "ae_Version ?entry = Some 1" "GetSnapshot field_lib ?d ''e0'' = Inr ''aa''" "ae_ChangeType ?entry \<noteq> ChangeTypeDeleted"
    "ae_ObjectType ?entry \<in> {''asset'', ''document'', ''note'', ''repository''}" "demo_unmarshal ''aa'' = Some [(''name'', ''aa'')]"
    "map_of [(''name'', ''aa'')] ''id'' = None"
    by code_simp+
qed simp

end
