(* ===== verification/Optimistic_Locking.thy ===== *)
theory Optimistic_Locking
  imports Db_Errors Identity
begin

text \<open>
  Optimistic locking: \<open>api/optimistic_locking.go\<close>. The pure half reads the version a writer expects from
  its request. The other half talks to the database one statement at a time while other writers do the
  same, so a call of \<open>CheckAndBumpVersion\<close> is a little machine, a \<open>lock_pc\<close> that a \<open>lock_statement\<close> takes
  one statement further; each statement is atomic and may fail. A table gives the version of a row, \<open>None\<close>
  where there is no row; versions are not negative and never NULL.
\<close>

definition VersionWildcard :: int where "VersionWildcard = -1"

text \<open>\<open>strings.TrimPrefix\<close> and \<open>strings.Trim\<close> of one character.\<close>

definition strings_TrimPrefix :: "string \<Rightarrow> string \<Rightarrow> string" where
  "strings_TrimPrefix s p = (if strings_HasPrefix s p then drop (length p) s else s)"

definition strings_Trim :: "string \<Rightarrow> char \<Rightarrow> string" where
  "strings_Trim s c = rev (dropWhile (\<lambda>x. x = c) (rev (dropWhile (\<lambda>x. x = c) s)))"

text \<open>The version, whether there is one, and the error. The header is empty when it is absent.\<close>

definition ParseIfMatchHeader :: "string \<Rightarrow> int \<times> bool \<times> RequestError option" where
  "ParseIfMatchHeader header =
    (let raw = strings_TrimSpace header in
     if raw = [] then (0, False, None)
     else
      (let v = strings_TrimSpace (strings_Trim (strings_TrimPrefix raw ''W/'') (CHR 0x22)) in
       if v = ''*'' then (VersionWildcard, True, None)
       else case strconv_Atoi v of
         Some n \<Rightarrow> if n < 0 then (0, True, Some (requestError 400 ''invalid_if_match'' ''If-Match must be a non-negative integer version'')) else (n, True, None)
       | None \<Rightarrow> (0, True, Some (requestError 400 ''invalid_if_match'' ''If-Match must be a non-negative integer version''))))"

definition ResolveExpectedVersion :: "string \<Rightarrow> int option \<Rightarrow> int \<times> bool \<times> RequestError option" where
  "ResolveExpectedVersion header bodyVersion =
    (case ParseIfMatchHeader header of
       (v, present, Some e) \<Rightarrow> (0, True, Some e)
     | (v, present, None) \<Rightarrow>
       if present then (v, True, None)
       else case bodyVersion of
         Some b \<Rightarrow> if b < 0 then (0, True, Some (requestError 400 ''invalid_version'' ''version body field must be a non-negative integer'')) else (b, True, None)
       | None \<Rightarrow> (0, False, None))"

definition SetETagHeader :: "int \<Rightarrow> string" where
  "SetETagHeader version = CHR 0x22 # string_of_int version @ [CHR 0x22]"

text \<open>Response headers are a list of names and values.\<close>

definition EnforceIfMatchOrWarn :: "bool \<Rightarrow> RequestError option \<times> (string \<times> string) list" where
  "EnforceIfMatchOrWarn requireIfMatch =
    (if requireIfMatch then (Some (requestError 428 ''if_match_required'' ''If-Match header is required for this operation''), [])
     else (None, [(''Deprecation'', ''true''), (''Warning'', ''299 - '' @ [CHR 0x22] @
       ''If-Match header (or body '' @ squote ''version'' @ '') is required for PUT/PATCH; future releases will return 428 Precondition Required'' @ [CHR 0x22])]))"

definition MapVersionError :: "go_error \<Rightarrow> RequestError option" where
  "MapVersionError e =
    (if errors_Is e ErrVersionMismatch
     then Some (requestError 409 ''version_mismatch'' ''Resource version does not match If-Match precondition; refetch and retry'') else None)"

datatype lock_error = LockRequest RequestError | LockStore go_error

text \<open>\<open>cas\<close> is the result of \<open>store.CheckAndBumpVersion\<close> for the version it is asked for.\<close>

definition ApplyOptimisticLock :: "bool \<Rightarrow> string \<Rightarrow> int option \<Rightarrow> (int \<Rightarrow> go_error + int) \<Rightarrow> int \<times> bool \<times> lock_error option" where
  "ApplyOptimisticLock requireIfMatch header bodyVersion cas =
    (case ResolveExpectedVersion header bodyVersion of
       (expected, hasVersion, Some e) \<Rightarrow> (0, False, Some (LockRequest e))
     | (expected, hasVersion, None) \<Rightarrow>
       if \<not> hasVersion then (0, False, map_option LockRequest (fst (EnforceIfMatchOrWarn requireIfMatch)))
       else case cas expected of
         Inr bumped \<Rightarrow> (bumped, True, None)
       | Inl casErr \<Rightarrow>
         (case MapVersionError casErr of
            Some mapped \<Rightarrow> (0, True, Some (LockRequest mapped))
          | None \<Rightarrow>
            if errors_Is casErr ErrNotFound then (0, False, Some (LockRequest (requestError 404 ''not_found'' ''Resource not found'')))
            else (0, True, Some (LockStore casErr))))"

subsection \<open>The compare-and-swap, statement by statement\<close>

type_synonym version_table = "string \<rightharpoonup> int"

definition wildcardCASAttempts :: nat where "wildcardCASAttempts = 3"

text \<open>
  Where a call stands: about to read the current version (attempt \<open>a\<close> of \<open>casFromCurrentVersion\<close>), about to
  run the conditional \<open>UPDATE\<close> for an expected version, about to count the rows after it matched none, or
  returned. The attempt is missing where the caller gave the version itself.
\<close>

datatype lock_pc = ReadCurrent nat | Bump int "nat option" | Probe int "nat option" | Returned "go_error + int"

definition start_lock :: "int \<Rightarrow> lock_pc" where
  "start_lock expected = (if expected = VersionWildcard then ReadCurrent 0 else Bump expected None)"

text \<open>How \<open>casFromCurrentVersion\<close> goes on when a conditional update has returned.\<close>

definition lock_finish :: "nat option \<Rightarrow> go_error \<Rightarrow> lock_pc" where
  "lock_finish attempt err =
    (case attempt of
       None \<Rightarrow> Returned (Inl err)
     | Some a \<Rightarrow>
       if errors_Is err ErrVersionMismatch
       then (if Suc a < wildcardCASAttempts then ReadCurrent (Suc a) else Returned (Inl (sentinel_error ErrVersionMismatch)))
       else Returned (Inl err))"

definition isOracleSpuriousNoRowsErr :: "go_error \<Rightarrow> bool" where
  "isOracleSpuriousNoRowsErr e = strings_Contains (err_Error e) ''WHERE conditions required''"

text \<open>One statement of the call for row \<open>i\<close>; \<open>failure\<close> is the error the database reports for it.\<close>

definition lock_statement :: "bool \<Rightarrow> string \<Rightarrow> go_error option \<Rightarrow> version_table \<times> lock_pc \<Rightarrow> version_table \<times> lock_pc" where
  "lock_statement oracle i failure st =
    (case st of
       (t, ReadCurrent a) \<Rightarrow>
         (t, case failure of
            Some e \<Rightarrow> Returned (Inl (sentinel_error (if errors_Is (Classify oracle e) ErrNotFound then ErrNotFound else ErrVersionMismatch)))
          | None \<Rightarrow> (case t i of None \<Rightarrow> Returned (Inl (sentinel_error ErrNotFound)) | Some v \<Rightarrow> Bump v (Some a)))
     | (t, Bump expected attempt) \<Rightarrow>
         (case failure of
            Some e \<Rightarrow> (t, if isOracleSpuriousNoRowsErr e then Probe expected attempt else lock_finish attempt (Classify oracle e))
          | None \<Rightarrow>
            if t i = Some expected then (t(i \<mapsto> expected + 1), Returned (Inr (expected + 1))) else (t, Probe expected attempt))
     | (t, Probe expected attempt) \<Rightarrow>
         (t, case failure of
            Some e \<Rightarrow> lock_finish attempt (Classify oracle e)
          | None \<Rightarrow> lock_finish attempt (sentinel_error (if t i = None then ErrNotFound else ErrVersionMismatch)))
     | (t, Returned r) \<Rightarrow> (t, Returned r))"

text \<open>A call that nothing interferes with: at most three attempts of three statements.\<close>

definition CheckAndBumpVersion :: "bool \<Rightarrow> string \<Rightarrow> int \<Rightarrow> (nat \<Rightarrow> go_error option) \<Rightarrow> version_table \<Rightarrow> version_table \<times> lock_pc" where
  "CheckAndBumpVersion oracle i expected failures t = fold (\<lambda>k. lock_statement oracle i (failures k)) [0..<9] (t, start_lock expected)"

subsection \<open>Writers side by side\<close>

text \<open>
  Any number of writers, each with its row and its place in the call. A step is one statement of one
  writer, or a change by other code: rows disappear or are created under new identifiers, and versions
  only grow. \<open>ls_gone\<close> are the identifiers whose row has been deleted.
\<close>

record lock_state =
  ls_table :: version_table
  ls_gone :: "string set"
  ls_writers :: "nat \<rightharpoonup> string \<times> lock_pc"

inductive lock_step :: "bool \<Rightarrow> lock_state \<Rightarrow> lock_state \<Rightarrow> bool" for ora where
  arrive: "ls_writers s n = None \<Longrightarrow> 0 \<le> expected \<or> expected = VersionWildcard \<Longrightarrow>
    lock_step ora s (s\<lparr>ls_writers := (ls_writers s)(n \<mapsto> (i, start_lock expected))\<rparr>)"
| statement: "ls_writers s n = Some (i, pc) \<Longrightarrow> lock_statement ora i failure (ls_table s, pc) = (t, pc') \<Longrightarrow>
    lock_step ora s (s\<lparr>ls_table := t, ls_writers := (ls_writers s)(n \<mapsto> (i, pc'))\<rparr>)"
| grow: "ls_table s i = Some v \<Longrightarrow> v \<le> w \<Longrightarrow> lock_step ora s (s\<lparr>ls_table := (ls_table s)(i \<mapsto> w)\<rparr>)"
| delete: "lock_step ora s (s\<lparr>ls_table := (ls_table s)(i := None), ls_gone := insert i (ls_gone s)\<rparr>)"
| create: "ls_table s i = None \<Longrightarrow> i \<notin> ls_gone s \<Longrightarrow> lock_step ora s (s\<lparr>ls_table := (ls_table s)(i \<mapsto> 1)\<rparr>)"

definition lock_init :: "lock_state \<Rightarrow> bool" where
  "lock_init s \<longleftrightarrow> ls_writers s = Map.empty \<and> ls_gone s = {}"

text \<open>
  A version a writer has been given has been reached by its row, and no two writers of a row were given the
  same; a row that is gone stays gone.
\<close>

definition granted :: "lock_state \<Rightarrow> nat \<Rightarrow> string \<Rightarrow> int \<Rightarrow> bool" where
  "granted s n i v \<longleftrightarrow> ls_writers s n = Some (i, Returned (Inr v))"

definition lock_inv :: "lock_state \<Rightarrow> bool" where
  "lock_inv s \<longleftrightarrow> (\<forall>n i v. granted s n i v \<longrightarrow> (case ls_table s i of Some w \<Rightarrow> v \<le> w | None \<Rightarrow> i \<in> ls_gone s)) \<and>
    (\<forall>n m i v. granted s n i v \<and> granted s m i v \<longrightarrow> n = m) \<and> (\<forall>i \<in> ls_gone s. ls_table s i = None)"

text \<open>What one statement can do: leave the table alone, or take one row from the expected version to the next.\<close>

lemma lock_statement_cases:
  assumes "lock_statement oracle i failure (t, pc) = (t', pc')"
  obtains "t' = t" "\<And>v. pc' = Returned (Inr v) \<Longrightarrow> pc = pc'"
  | v attempt where "pc = Bump v attempt" "t i = Some v" "t' = t(i \<mapsto> v + 1)" "pc' = Returned (Inr (v + 1))"
proof (cases "\<exists>v attempt. pc = Bump v attempt \<and> failure = None \<and> t i = Some v")
  case True
  then show ?thesis using assms that(2) by (auto simp: lock_statement_def)
next
  case False
  have fin: "lock_finish attempt e \<noteq> Returned (Inr v)" for attempt e v by (simp add: lock_finish_def split: option.split)
  have "t' = t \<and> (\<forall>v. pc' = Returned (Inr v) \<longrightarrow> pc = pc')"
  proof (cases pc)
    case (ReadCurrent a)
    then show ?thesis using assms by (auto simp: lock_statement_def split: option.splits)
  next
    case (Bump x attempt)
    then show ?thesis using assms False fin by (auto simp: lock_statement_def split: option.splits if_splits)
  next
    case (Probe x attempt)
    then show ?thesis using assms fin by (auto simp: lock_statement_def split: option.splits)
  next
    case (Returned r)
    then show ?thesis using assms by (auto simp: lock_statement_def)
  qed
  then show ?thesis using that(1) by blast
qed

lemma start_not_granted: "start_lock expected \<noteq> Returned r"
  by (simp add: start_lock_def)

lemma lock_inv_cong:
  assumes "lock_inv s" "granted s' = granted s" "ls_table s' = ls_table s" "ls_gone s' = ls_gone s"
  shows "lock_inv s'"
  using assms(1) unfolding lock_inv_def assms(2-4) .

lemma lock_invD:
  assumes "lock_inv s"
  shows "granted s n i v \<Longrightarrow> ls_table s i = Some w \<Longrightarrow> v \<le> w" "granted s n i v \<Longrightarrow> ls_table s i = None \<Longrightarrow> i \<in> ls_gone s"
    "granted s n i v \<Longrightarrow> granted s m i v \<Longrightarrow> n = m" "i \<in> ls_gone s \<Longrightarrow> ls_table s i = None"
  using assms unfolding lock_inv_def by (force split: option.splits)+

lemma lock_invI:
  assumes "\<And>n i v w. granted s n i v \<Longrightarrow> ls_table s i = Some w \<Longrightarrow> v \<le> w" "\<And>n i v. granted s n i v \<Longrightarrow> ls_table s i = None \<Longrightarrow> i \<in> ls_gone s"
    "\<And>n m i v. granted s n i v \<Longrightarrow> granted s m i v \<Longrightarrow> n = m" "\<And>i. i \<in> ls_gone s \<Longrightarrow> ls_table s i = None"
  shows "lock_inv s"
  using assms unfolding lock_inv_def by (auto split: option.split)

lemma lock_statement_inv:
  assumes inv: "lock_inv s" and w: "ls_writers s n = Some (i, pc)" and st: "lock_statement oracle i failure (ls_table s, pc) = (t, pc')"
  shows "lock_inv (s\<lparr>ls_table := t, ls_writers := (ls_writers s)(n \<mapsto> (i, pc'))\<rparr>)" (is "lock_inv ?s")
  using st
proof (cases rule: lock_statement_cases)
  case 1
  have "granted ?s m j v \<longleftrightarrow> granted s m j v" if "pc' = pc \<or> (\<forall>v. pc' \<noteq> Returned (Inr v) \<and> pc \<noteq> Returned (Inr v))" for m j v
    using w that by (auto simp: granted_def)
  moreover have "pc' = pc \<or> (\<forall>v. pc' \<noteq> Returned (Inr v) \<and> pc \<noteq> Returned (Inr v))"
    using 1(2) st by (cases pc) (auto simp: lock_statement_def)
  ultimately have "granted ?s = granted s" by (intro ext) blast
  then show ?thesis using inv 1(1) by (intro lock_inv_cong [OF inv]) simp_all
next
  case (2 v attempt)
  have g: "granted ?s m j u \<longleftrightarrow> (if m = n then j = i \<and> u = v + 1 else granted s m j u)" for m j u
    using 2(4) by (auto simp: granted_def)
  have old: "u \<le> v" if "granted s m i u" for m u using lock_invD(1) [OF inv that 2(2)] .
  show ?thesis
  proof (rule lock_invI)
    show "u \<le> w" if "granted ?s m j u" "ls_table ?s j = Some w" for m j u w
      using that g [of m j u] old [of m u] lock_invD(1) [OF inv, of m j u] 2(3) by (cases "j = i") (auto split: if_splits)
    show "j \<in> ls_gone ?s" if "granted ?s m j u" "ls_table ?s j = None" for m j u
      using that g [of m j u] lock_invD(2) [OF inv, of m j u] 2(3) by (auto split: if_splits)
    show "m = m'" if "granted ?s m j u" "granted ?s m' j u" for m m' j u
      using that g [of m j u] g [of m' j u] old [of m u] old [of m' u] lock_invD(3) [OF inv, of m j u m'] by (auto split: if_splits)
    show "ls_table ?s j = None" if "j \<in> ls_gone ?s" for j
      using that lock_invD(4) [OF inv, of j] 2(2,3) by auto
  qed
qed

lemma lock_step_inv: "lock_step ora s s' \<Longrightarrow> lock_inv s \<Longrightarrow> lock_inv s'"
proof (induction rule: lock_step.induct)
  case (arrive s n expected i)
  have "granted (s\<lparr>ls_writers := (ls_writers s)(n \<mapsto> (i, start_lock expected))\<rparr>) = granted s"
    using arrive(1) by (intro ext) (auto simp: granted_def start_not_granted dest: sym)
  then show ?case by (intro lock_inv_cong [OF arrive(3)]) simp_all
next
  case (statement s n i pc failure t pc')
  then show ?case by (intro lock_statement_inv)
next
  case (grow s i v w)
  let ?s = "s\<lparr>ls_table := (ls_table s)(i \<mapsto> w)\<rparr>"
  have g: "granted ?s = granted s" by (intro ext) (simp add: granted_def)
  note inv = lock_invD [OF grow(3)]
  show ?case
  proof (rule lock_invI, unfold g)
    show "u \<le> x" if "granted s m j u" "ls_table ?s j = Some x" for m j u x
      using that inv(1) [of m j u] grow(1,2) by (cases "j = i") (auto intro: order_trans)
  qed (use inv(2-4) grow(1) in \<open>auto split: if_splits\<close>)
next
  case (delete s i)
  let ?s = "s\<lparr>ls_table := (ls_table s)(i := None), ls_gone := insert i (ls_gone s)\<rparr>"
  have g: "granted ?s = granted s" by (intro ext) (simp add: granted_def)
  show ?case by (rule lock_invI, unfold g) (use lock_invD [OF delete] in \<open>auto split: if_splits\<close>)
next
  case (create s i)
  let ?s = "s\<lparr>ls_table := (ls_table s)(i \<mapsto> 1)\<rparr>"
  have g: "granted ?s = granted s" by (intro ext) (simp add: granted_def)
  show ?case by (rule lock_invI, unfold g) (use lock_invD [OF create(3)] create(1,2) in \<open>auto split: if_splits\<close>)
qed

interpretation lock_system: invariant_system lock_init "lock_step ora" lock_inv for ora
proof
  show "lock_inv s" if "lock_init s" for s using that by (simp add: lock_inv_def lock_init_def granted_def)
  show "lock_inv t" if "lock_step ora s t" "lock_inv s" for s t using that by (rule lock_step_inv)
qed


subsection \<open>Reading the expected version\<close>

lemma dropWhile_hd: "xs \<noteq> [] \<Longrightarrow> \<not> P (hd xs) \<Longrightarrow> dropWhile P xs = xs"
  by (cases xs) auto

lemma TrimSpace_id: "xs \<noteq> [] \<Longrightarrow> \<not> is_space (hd xs) \<Longrightarrow> \<not> is_space (last xs) \<Longrightarrow> strings_TrimSpace xs = xs"
  by (simp add: strings_TrimSpace_def dropWhile_hd hd_rev)

lemma Trim_quoted:
  assumes "c \<notin> set xs" "xs \<noteq> []"
  shows "strings_Trim (c # xs @ [c]) c = xs"
proof -
  have "hd xs \<noteq> c" "last xs \<noteq> c" using assms hd_in_set last_in_set by metis+
  then have "dropWhile (\<lambda>x. x = c) (c # xs @ [c]) = xs @ [c]" "dropWhile (\<lambda>x. x = c) (rev (xs @ [c])) = rev xs"
    using assms(2) by (simp_all add: dropWhile_hd hd_rev dropWhile_append1 dropWhile_eq_Cons_conv)
  then show ?thesis by (simp add: strings_Trim_def)
qed

lemma string_of_nat_no: "\<not> is_digit c \<Longrightarrow> c \<notin> set (string_of_nat n)"
  using string_of_nat_digit [of c n] by (auto simp: is_digit_def)

lemma digits_end: "is_digit (hd (string_of_nat n))" "is_digit (last (string_of_nat n))"
  using string_of_nat_digit [of _ n] hd_in_set [of "string_of_nat n"] last_in_set [of "string_of_nat n"]
  by (auto simp: is_digit_def)

lemma digit_not: "is_digit c \<Longrightarrow> \<not> is_space c \<and> c \<noteq> CHR ''*'' \<and> c \<noteq> CHR ''W'' \<and> c \<noteq> CHR 0x22"
  by (auto simp: is_digit_def is_space_def)

lemma TrimSpace_digits [simp]: "strings_TrimSpace (string_of_nat n) = string_of_nat n"
  using digits_end [of n] digit_not by (intro TrimSpace_id) auto

lemma Trim_digits [simp]: "strings_Trim (string_of_nat n) (CHR 0x22) = string_of_nat n"
proof -
  have "hd (string_of_nat n) \<noteq> CHR 0x22" "last (string_of_nat n) \<noteq> CHR 0x22" using digits_end [of n] digit_not by auto
  then show ?thesis by (simp add: strings_Trim_def dropWhile_hd hd_rev)
qed

lemma digits_not_wildcard: "string_of_nat n \<noteq> ''*''"
  using digits_end [of n] digit_not by (cases "string_of_nat n") auto

lemma Trim_ETag: "strings_Trim (SetETagHeader (int n)) (CHR 0x22) = string_of_nat n"
  unfolding SetETagHeader_def string_of_int_def
  by (simp add: Trim_quoted string_of_nat_no is_digit_def)

lemma parse_version:
  assumes "strings_TrimSpace (strings_Trim (strings_TrimPrefix raw ''W/'') (CHR 0x22)) = string_of_nat n"
    "strings_TrimSpace h = raw" "raw \<noteq> []" "n < 2 ^ 63"
  shows "ParseIfMatchHeader h = (int n, True, None)"
  using assms by (simp add: ParseIfMatchHeader_def Let_def digits_not_wildcard strconv_Atoi_string_of_nat)

lemma parse_ETag:
  assumes "0 \<le> v" "v < 2 ^ 63"
  shows "ParseIfMatchHeader (SetETagHeader v) = (v, True, None) \<and> ParseIfMatchHeader (''W/'' @ SetETagHeader v) = (v, True, None) \<and>
    ParseIfMatchHeader (string_of_int v) = (v, True, None)"
proof -
  obtain n where v: "v = int n" using assms(1) by (metis zero_le_imp_eq_int)
  have lt: "n < 2 ^ 63" using assms(2) v by simp
  have sp: "\<not> is_space (CHR 0x22)" "\<not> is_space (CHR ''W'')" by (simp_all add: is_space_def)
  have str: "string_of_int (int n) = string_of_nat n" by (simp add: string_of_int_def)
  have hd: "hd (string_of_nat n) \<noteq> CHR ''W''" using digits_end(1) digit_not by blast
  have ends: "SetETagHeader (int n) \<noteq> []" "hd (SetETagHeader (int n)) = CHR 0x22" "last (SetETagHeader (int n)) = CHR 0x22"
    by (simp_all add: SetETagHeader_def)
  have "strings_TrimPrefix (SetETagHeader (int n)) ''W/'' = SetETagHeader (int n)"
    by (simp add: strings_TrimPrefix_def strings_HasPrefix_def SetETagHeader_def)
  moreover have "strings_TrimPrefix (''W/'' @ SetETagHeader (int n)) ''W/'' = SetETagHeader (int n)"
    by (simp add: strings_TrimPrefix_def strings_HasPrefix_def)
  moreover have "strings_TrimPrefix (string_of_nat n) ''W/'' = string_of_nat n"
    using hd by (cases "string_of_nat n") (auto simp: strings_TrimPrefix_def strings_HasPrefix_def)
  moreover have "strings_TrimSpace (SetETagHeader (int n)) = SetETagHeader (int n)" using ends sp by (intro TrimSpace_id) simp_all
  moreover have "strings_TrimSpace (''W/'' @ SetETagHeader (int n)) = ''W/'' @ SetETagHeader (int n)"
    using ends sp by (intro TrimSpace_id) simp_all
  ultimately show ?thesis
    unfolding v str using lt ends(1) by (intro conjI; intro parse_version [OF _ refl]) (simp_all add: Trim_ETag)
qed

text \<open>
  The \<open>ETag\<close> a response carries is read back from \<open>If-Match\<close> as the version it was made from, also in the
  weak form a proxy may turn it into and without the quotes.
\<close>

theorem etag_roundtrip:
  assumes "0 \<le> v" "v < 2 ^ 63"
  shows "ParseIfMatchHeader (SetETagHeader v) = (v, True, None) \<and> ParseIfMatchHeader (''W/'' @ SetETagHeader v) = (v, True, None) \<and>
    ParseIfMatchHeader (string_of_int v) = (v, True, None)"
  using assms by (rule parse_ETag)

theorem etag_roundtrip_witness:
  "SetETagHeader 12 = [CHR 0x22, CHR ''1'', CHR ''2'', CHR 0x22] \<and> ParseIfMatchHeader (SetETagHeader 12) = (12, True, None)"
proof -
  have "SetETagHeader 12 = [CHR 0x22, CHR ''1'', CHR ''2'', CHR 0x22]" by code_simp
  then show ?thesis using etag_roundtrip [of 12] by simp
qed

subsection \<open>A call returns, and what it returns\<close>

text \<open>The place of a call after its own statements ran against the tables other writers left for each of them.\<close>

fun run_statements :: "bool \<Rightarrow> string \<Rightarrow> (version_table \<times> go_error option) list \<Rightarrow> lock_pc \<Rightarrow> lock_pc" where
  "run_statements oracle i [] pc = pc"
| "run_statements oracle i ((t, failure) # rest) pc = run_statements oracle i rest (snd (lock_statement oracle i failure (t, pc)))"

text \<open>The statements a call may still run.\<close>

fun statements_left :: "lock_pc \<Rightarrow> nat" where
  "statements_left (ReadCurrent a) = (if a < 3 then 3 * (3 - a) else 3)"
| "statements_left (Bump v attempt) = (case attempt of None \<Rightarrow> 2 | Some a \<Rightarrow> (if a < 3 then 3 * (3 - a) - 1 else 2))"
| "statements_left (Probe v attempt) = (case attempt of None \<Rightarrow> 1 | Some a \<Rightarrow> (if a < 3 then 3 * (3 - a) - 2 else 1))"
| "statements_left (Returned r) = 0"

lemma lock_finish_left: "statements_left (lock_finish attempt e) < statements_left (Probe v attempt)"
  by (auto simp: lock_finish_def wildcardCASAttempts_def split: option.splits)

lemma statement_left:
  "statements_left pc = 0 \<or> statements_left (snd (lock_statement oracle i failure (t, pc))) < statements_left pc"
proof (cases pc)
  case (ReadCurrent a)
  then show ?thesis by (auto simp: lock_statement_def split: option.splits)
next
  case (Bump v attempt)
  have "statements_left (Probe v attempt) < statements_left (Bump v attempt)" by (auto split: option.splits)
  moreover have "statements_left (lock_finish attempt e) < statements_left (Bump v attempt)" for e
    using lock_finish_left [of attempt e v] calculation by linarith
  ultimately show ?thesis using Bump by (auto simp: lock_statement_def simp del: statements_left.simps(2,3) split: option.splits)
next
  case (Probe v attempt)
  then show ?thesis using lock_finish_left [of attempt _ v] by (auto simp: lock_statement_def simp del: statements_left.simps(3) split: option.splits)
next
  case (Returned r)
  then show ?thesis by simp
qed

lemma statements_left_0: "statements_left pc = 0 \<longleftrightarrow> (\<exists>r. pc = Returned r)"
  by (cases pc) (auto split: option.splits)

lemma lock_statement_Returned [simp]: "lock_statement oracle i failure (t, Returned r) = (t, Returned r)"
  by (simp add: lock_statement_def)

lemma run_statements_left: "statements_left (run_statements oracle i sts pc) \<le> statements_left pc - length sts"
proof (induction sts arbitrary: pc)
  case (Cons st sts)
  obtain t failure where st: "st = (t, failure)" by (cases st)
  have "statements_left (snd (lock_statement oracle i failure (t, pc))) \<le> statements_left pc - 1"
    using statement_left [of pc "oracle" i failure t] by (auto simp: statements_left_0)
  then show ?case using Cons [of "snd (lock_statement oracle i failure (t, pc))"] by (simp add: st)
qed simp

text \<open>
  C23. However other writers change the table between its statements, and whichever of them fail, a call has
  returned after nine statements, and after two when the caller named the version.
\<close>

theorem lock_returns:
  assumes "length sts \<ge> (if expected = VersionWildcard then 9 else 2)"
  shows "\<exists>r. run_statements oracle i sts (start_lock expected) = Returned r"
proof -
  have "statements_left (start_lock expected) \<le> length sts" using assms by (auto simp: start_lock_def split: if_splits)
  then have "statements_left (run_statements oracle i sts (start_lock expected)) = 0"
    using run_statements_left [of "oracle" i sts "start_lock expected"] by simp
  then show ?thesis by (simp add: statements_left_0)
qed

theorem lock_returns_witness:
  "run_statements True ''d'' [(Map.empty, None), (Map.empty, None)] (start_lock 4) = Returned (Inl (sentinel_error ErrNotFound)) \<and>
   (\<exists>r. run_statements True ''d'' [(Map.empty, None), (Map.empty, None)] (start_lock 4) = Returned r)"
  using lock_returns [of 4 "[(Map.empty, None), (Map.empty, None)]" True "''d''"]
  by (simp add: start_lock_def VersionWildcard_def lock_statement_def lock_finish_def)

text \<open>A call that runs alone and without failures returns after at most two statements; the rest change nothing.\<close>

lemma fold_Returned: "fold (\<lambda>k. lock_statement oracle i (failures k)) ks (t, Returned r) = (t, Returned r)"
  by (induction ks) simp_all

definition quiet :: "nat \<Rightarrow> go_error option" where "quiet = (\<lambda>_. None)"

lemma CheckAndBumpVersion_quiet:
  assumes "\<And>w. t i = Some w \<Longrightarrow> w \<noteq> VersionWildcard"
  shows "CheckAndBumpVersion oracle i expected quiet t =
    (case t i of
       None \<Rightarrow> (t, Returned (Inl (sentinel_error ErrNotFound)))
     | Some w \<Rightarrow>
       if expected = w \<or> expected = VersionWildcard then (t(i \<mapsto> w + 1), Returned (Inr (w + 1)))
       else (t, Returned (Inl (sentinel_error ErrVersionMismatch))))"
proof -
  have two: "[0 :: nat..<9] = 0 # 1 # [2..<9]" by (simp add: upt_conv_Cons)
  have "lock_finish None e = Returned (Inl e)" for e by (simp add: lock_finish_def)
  then show ?thesis
    unfolding CheckAndBumpVersion_def two
    by (auto simp: start_lock_def quiet_def lock_statement_def fold_Returned lock_finish_def dest: assms split: option.split)
qed

text \<open>What a handler gets for a request with the entity tag of version \<open>v\<close> when the row is at version \<open>w\<close>, or gone.\<close>

definition lock_result :: "lock_pc \<Rightarrow> go_error + int" where
  "lock_result pc = (case pc of Returned r \<Rightarrow> r | _ \<Rightarrow> Inl (sentinel_error ErrVersionMismatch))"



text \<open>
  C14. However the statements of any number of writers interleave, with rows being deleted, created and bumped by
  other code and with any statement failing, two writers of a row are never granted the same version, and no
  writer is granted a version its row has not reached: of the writers that name one expected version, at
  most one gets through.
\<close>

theorem one_writer_per_version:
  assumes "reachable lock_init (lock_step ora) s" "granted s n i v"
  shows "(granted s m i v \<longrightarrow> m = n) \<and> (\<forall>w. ls_table s i = Some w \<longrightarrow> v \<le> w) \<and> (ls_table s i = None \<longrightarrow> i \<in> ls_gone s)"
  using lock_invD [OF lock_system.reachable_inv [OF assms(1)]] assms(2) by blast

lemma reach_statement:
  assumes "reachable lock_init (lock_step ora) s" "ls_writers s n = Some (i, pc)" "lock_statement ora i None (ls_table s, pc) = (t, pc')"
  shows "reachable lock_init (lock_step ora) (s\<lparr>ls_table := t, ls_writers := (ls_writers s)(n \<mapsto> (i, pc'))\<rparr>)"
  using assms(1) lock_step.statement [OF assms(2,3)] by (rule reach_step)

theorem one_writer_per_version_witness:
  "\<exists>s. reachable lock_init (lock_step False) s \<and> granted s 0 ''d'' 6 \<and>
     ls_writers s 1 = Some (''d'', Returned (Inl (sentinel_error ErrVersionMismatch))) \<and> (granted s 1 ''d'' 6 \<longrightarrow> 1 = (0 :: nat))"
proof -
  let ?R = "reachable lock_init (lock_step False)"
  let ?st = "\<lambda>v ws. \<lparr>ls_table = [''d'' \<mapsto> v], ls_gone = {}, ls_writers = ws\<rparr>"
  let ?s = "?st 6 [0 \<mapsto> (''d'', Returned (Inr 6)), 1 \<mapsto> (''d'', Returned (Inl (sentinel_error ErrVersionMismatch)))]"
  let ?ws = "[0 \<mapsto> (''d'', Bump 5 None), 1 \<mapsto> (''d'', Bump 5 None)] :: nat \<rightharpoonup> string \<times> lock_pc"
  have start: "start_lock 5 = Bump 5 None" by (simp add: start_lock_def VersionWildcard_def)
  have "?R (?st 5 Map.empty)" by (rule reach_init) (simp add: lock_init_def)
  then have "?R (?st 5 [0 \<mapsto> (''d'', Bump 5 None)])"
    by (rule reach_step) (use lock_step.arrive [of "?st 5 Map.empty" 0 5 False "''d''"] start in simp)
  then have "?R (?st 5 ?ws)"
    by (rule reach_step) (use lock_step.arrive [of "?st 5 [0 \<mapsto> (''d'', Bump 5 None)]" 1 5 False "''d''"] start in simp)
  then have "?R (?st 6 (?ws(0 \<mapsto> (''d'', Returned (Inr 6)))))"
    using reach_statement [of False "?st 5 ?ws" 0 "''d''" "Bump 5 None" "[''d'' \<mapsto> 6]" "Returned (Inr 6)"]
    by (simp add: lock_statement_def)
  then have "?R (?st 6 (?ws(0 \<mapsto> (''d'', Returned (Inr 6)), 1 \<mapsto> (''d'', Probe 5 None))))"
    using reach_statement [of False "?st 6 (?ws(0 \<mapsto> (''d'', Returned (Inr 6))))" 1 "''d''" "Bump 5 None" "[''d'' \<mapsto> 6]" "Probe 5 None"]
    by (simp add: lock_statement_def)
  then have r: "?R ?s"
    using reach_statement [of False "?st 6 (?ws(0 \<mapsto> (''d'', Returned (Inr 6)), 1 \<mapsto> (''d'', Probe 5 None)))" 1 "''d''" "Probe 5 None"
      "[''d'' \<mapsto> 6]" "Returned (Inl (sentinel_error ErrVersionMismatch))"]
    by (simp add: lock_statement_def lock_finish_def fun_upd_twist)
  have "granted ?s 0 ''d'' 6" by (simp add: granted_def)
  then show ?thesis using r one_writer_per_version [OF r, of 0 "''d''" 6 1] by (intro exI [of _ ?s]) simp
qed

end
